(* ===== verification/Herd_Prelude.thy ===== *)
theory Herd_Prelude
  imports Main "HOL-Library.Word" "HOL-Library.Multiset"
begin

text \<open>
  The prelude of the herd development.  It holds what every component theory shares:
  the collections of rewrite rules (\<open>go_defs\<close> for the model's small definitions,
  \<open>pool_simps\<close> for the pool's atomic sections), the type names of the model, Go's 64-bit
  integer wrap-around, generic lemmas on lists, maps and multisets, and the interface
  \<open>allocator\<close>, the contract that the UID pool and the IP address manager both offer to the
  Firecracker factory.
\<close>

section \<open>Collections and names\<close>

named_theorems go_defs "definitions of the model that simp may unfold"
named_theorems pool_simps "the atomic sections of the pool"

type_synonym sid = string
  \<comment> \<open>a session identifier (Go string)\<close>

type_synonym u8 = "8 word"
type_synonym u16 = "16 word"

section \<open>Go integers\<close>

text \<open>
  Go's \<open>int\<close> and \<open>time.Duration\<close> are 64-bit two's complement on the platforms herd builds
  for.  Where a product can overflow, the model applies \<open>wrap64\<close>.
\<close>

definition wrap64 :: "int \<Rightarrow> int" where
  "wrap64 x = (x + 2 ^ 63) mod 2 ^ 64 - 2 ^ 63"

lemma wrap64_id [simp]: "- (2 ^ 63) \<le> x \<Longrightarrow> x < 2 ^ 63 \<Longrightarrow> wrap64 x = x"
  by (simp add: wrap64_def)

lemma wrap64_bounds: "- (2 ^ 63) \<le> wrap64 x \<and> wrap64 x < 2 ^ 63"
proof -
  have "0 \<le> (x + 2 ^ 63) mod 2 ^ 64" and "(x + 2 ^ 63) mod 2 ^ 64 < (2 ^ 64 :: int)"
    by simp_all
  then show ?thesis by (simp add: wrap64_def)
qed

section \<open>Lists, maps and multisets\<close>

lemma finite_dom_upd [simp]: "finite (dom m) \<Longrightarrow> finite (dom (m(k := v)))"
  by (cases v) auto

lemma card_dom_upd_new: "finite (dom m) \<Longrightarrow> m k = None \<Longrightarrow> card (dom (m(k \<mapsto> v))) = Suc (card (dom m))"
  by (simp add: domIff)

lemma card_dom_del: "finite (dom m) \<Longrightarrow> m k = Some v \<Longrightarrow> Suc (card (dom (m(k := None)))) = card (dom m)"
proof -
  assume fin: "finite (dom m)" and k: "m k = Some v"
  from k have "k \<in> dom m" by blast
  with fin have "Suc (card (dom m - {k})) = card (dom m)" by (rule card_Suc_Diff1)
  then show ?thesis by simp
qed

lemma dom_upd_None_iff [simp]: "k \<in> dom (m(j := None)) \<longleftrightarrow> k \<noteq> j \<and> k \<in> dom m"
  by auto

text \<open>The multiset of the values a finite map holds under a function of the value.\<close>

definition ran_mset :: "('v \<Rightarrow> 'b) \<Rightarrow> ('k \<rightharpoonup> 'v) \<Rightarrow> 'b multiset" where
  "ran_mset f m = image_mset (\<lambda>k. f (the (m k))) (mset_set (dom m))"

lemma ran_mset_empty [simp]: "ran_mset f Map.empty = {#}"
  by (simp add: ran_mset_def)

lemma image_mset_set_cong:
  "finite A \<Longrightarrow> (\<And>x. x \<in> A \<Longrightarrow> f x = g x) \<Longrightarrow> image_mset f (mset_set A) = image_mset g (mset_set A)"
  by (rule image_mset_cong) simp

lemma ran_mset_upd_new:
  assumes "finite (dom m)" and "m k = None"
  shows "ran_mset f (m(k \<mapsto> v)) = add_mset (f v) (ran_mset f m)"
proof -
  from assms(2) have "k \<notin> dom m" by blast
  moreover from this have "image_mset (\<lambda>x. f (the ((m(k \<mapsto> v)) x))) (mset_set (dom m)) =
      image_mset (\<lambda>x. f (the (m x))) (mset_set (dom m))"
    by (intro image_mset_set_cong) (auto simp: assms)
  ultimately show ?thesis using assms(1) by (simp add: ran_mset_def)
qed

lemma ran_mset_del:
  assumes "finite (dom m)" and "m k = Some v"
  shows "ran_mset f m = add_mset (f v) (ran_mset f (m(k := None)))"
proof -
  have "m = (m(k := None))(k \<mapsto> v)" using assms(2) by (simp add: fun_upd_idem)
  then have "ran_mset f m = ran_mset f ((m(k := None))(k \<mapsto> v))" by simp
  also have "\<dots> = add_mset (f v) (ran_mset f (m(k := None)))"
    by (rule ran_mset_upd_new) (use assms in simp_all)
  finally show ?thesis .
qed

lemma size_ran_mset [simp]: "size (ran_mset f m) = card (dom m)"
  by (simp add: ran_mset_def)

section \<open>The allocator interface\<close>

text \<open>
  A client of an allocator takes resources and gives them back.  \<open>lease_run\<close> runs such a
  history and records what the client holds: a \<open>Take\<close> that fails leaves everything as it is,
  and the client gives back only what it holds.
\<close>

datatype ('r, 'a) lease_op = Take 'r | Give 'a

fun lease_step :: "('r \<Rightarrow> 'p \<Rightarrow> ('a \<times> 'p) option) \<Rightarrow> ('a \<Rightarrow> 'p \<Rightarrow> 'p) \<Rightarrow>
    'p \<times> 'a list \<Rightarrow> ('r, 'a) lease_op \<Rightarrow> 'p \<times> 'a list" where
  "lease_step tk give (p, held) (Take r) =
     (case tk r p of None \<Rightarrow> (p, held) | Some (x, p') \<Rightarrow> (p', x # held))"
| "lease_step tk give (p, held) (Give x) =
     (if x \<in> set held then (give x p, remove1 x held) else (p, held))"

definition lease_run :: "('r \<Rightarrow> 'p \<Rightarrow> ('a \<times> 'p) option) \<Rightarrow> ('a \<Rightarrow> 'p \<Rightarrow> 'p) \<Rightarrow>
    ('r, 'a) lease_op list \<Rightarrow> 'p \<times> 'a list \<Rightarrow> 'p \<times> 'a list" where
  "lease_run tk give ops s = foldl (lease_step tk give) s ops"

text \<open>
  The contract: a successful \<open>take\<close> hands out a resource that was not in use and marks it,
  \<open>give\<close> of a resource in use unmarks exactly it.
\<close>

locale allocator =
  fixes inv :: "'p \<Rightarrow> bool"
    and used :: "'p \<Rightarrow> 'a set"
    and tk :: "'r \<Rightarrow> 'p \<Rightarrow> ('a \<times> 'p) option"
    and give :: "'a \<Rightarrow> 'p \<Rightarrow> 'p"
  assumes take_inv: "inv p \<Longrightarrow> tk r p = Some (x, p') \<Longrightarrow> inv p'"
    and take_fresh: "inv p \<Longrightarrow> tk r p = Some (x, p') \<Longrightarrow> x \<notin> used p"
    and take_used: "inv p \<Longrightarrow> tk r p = Some (x, p') \<Longrightarrow> used p' = insert x (used p)"
    and give_inv: "inv p \<Longrightarrow> x \<in> used p \<Longrightarrow> inv (give x p)"
    and give_used: "inv p \<Longrightarrow> x \<in> used p \<Longrightarrow> used (give x p) = used p - {x}"
begin

lemma take_give_used:
  "inv p \<Longrightarrow> tk r p = Some (x, p') \<Longrightarrow> used (give x p') = used p"
  using take_inv [of p r x p'] take_used [of p r x p'] take_fresh [of p r x p']
  by (auto simp: give_used)

lemma lease_step_exclusive:
  assumes "inv p" and "distinct held" and "set held \<subseteq> used p"
    and "lease_step tk give (p, held) op = (p', held')"
  shows "inv p' \<and> distinct held' \<and> set held' \<subseteq> used p'"
proof (cases op)
  case (Take r)
  show ?thesis
  proof (cases "tk r p")
    case None
    with Take assms show ?thesis by simp
  next
    case (Some y)
    then obtain x q where t: "tk r p = Some (x, q)" by (cases y) simp
    with Take assms take_inv [OF assms(1) t] take_fresh [OF assms(1) t] take_used [OF assms(1) t]
    show ?thesis by auto
  qed
next
  case (Give x)
  show ?thesis
  proof (cases "x \<in> set held")
    case True
    with assms(3) have "x \<in> used p" by blast
    with Give True assms give_inv give_used [OF assms(1) \<open>x \<in> used p\<close>] show ?thesis by auto
  next
    case False
    with Give assms show ?thesis by simp
  qed
qed

lemma lease_run_exclusive:
  assumes "inv p" and "distinct held" and "set held \<subseteq> used p"
    and "lease_run tk give ops (p, held) = (p', held')"
  shows "inv p' \<and> distinct held' \<and> set held' \<subseteq> used p'"
  using assms
proof (induction ops arbitrary: p held)
  case Nil
  then show ?case by (simp add: lease_run_def)
next
  case (Cons op ops)
  obtain q held2 where s: "lease_step tk give (p, held) op = (q, held2)"
    by (cases "lease_step tk give (p, held) op")
  from lease_step_exclusive [OF Cons.prems(1-3) s]
  have "inv q" "distinct held2" "set held2 \<subseteq> used q" by simp_all
  moreover from Cons.prems(4) s have "lease_run tk give ops (q, held2) = (p', held')"
    by (simp add: lease_run_def)
  ultimately show ?case by (rule Cons.IH)
qed

lemma lease_step_exact:
  assumes "inv p" and "distinct held" and "used p = set held"
    and "lease_step tk give (p, held) op = (p', held')"
  shows "used p' = set held'"
  using assms take_used [OF assms(1)] give_used [OF assms(1)]
  by (cases op) (auto split: option.splits if_splits)

text \<open>When the client's leases are all the leases there are, they stay so.\<close>

lemma lease_run_exact:
  assumes "inv p" and "distinct held" and "used p = set held"
    and "lease_run tk give ops (p, held) = (p', held')"
  shows "used p' = set held'"
  using assms
proof (induction ops arbitrary: p held)
  case Nil
  then show ?case by (simp add: lease_run_def)
next
  case (Cons op ops)
  obtain q held2 where s: "lease_step tk give (p, held) op = (q, held2)"
    by (cases "lease_step tk give (p, held) op")
  have "inv q" "distinct held2"
    using lease_step_exclusive [OF Cons.prems(1,2) _ s] Cons.prems(3) by simp_all
  moreover have "used q = set held2" by (rule lease_step_exact [OF Cons.prems(1-3) s])
  moreover from Cons.prems(4) s have "lease_run tk give ops (q, held2) = (p', held')"
    by (simp add: lease_run_def)
  ultimately show ?case by (rule Cons.IH)
qed

end

text \<open>A projection that neither operation changes is unchanged by a whole history.\<close>

lemma lease_run_frame:
  assumes "\<And>r p x p'. tk r p = Some (x, p') \<Longrightarrow> f p' = f p" and "\<And>x p. f (give x p) = f p"
    and "lease_run tk give ops (p, held) = (p', held')"
  shows "f p' = f p"
  using assms(3)
proof (induction ops arbitrary: p held)
  case Nil
  then show ?case by (simp add: lease_run_def)
next
  case (Cons op ops)
  obtain q held2 where s: "lease_step tk give (p, held) op = (q, held2)"
    by (cases "lease_step tk give (p, held) op")
  have "f q = f p" using s assms(1,2) by (cases op) (auto split: option.splits if_splits)
  moreover have "f p' = f q"
    by (rule Cons.IH [of q held2]) (use Cons.prems s in \<open>simp add: lease_run_def\<close>)
  ultimately show ?case by simp
qed

end
