(* ===== verification/Go_Strings.thy ===== *)
theory Go_Strings
  imports Herd_Prelude
begin

unbundle bit_operations_syntax

text \<open>
  The parts of Go's \<open>strings\<close>, \<open>strconv\<close> and \<open>net\<close> packages that herd uses, on strings as byte
  lists: splitting and joining on a separator byte, prefixes, decimal printing and parsing,
  ASCII lower case, and IPv4 addresses in dotted decimal.  Each printing function comes with
  the round trip that its parser inverts it.
\<close>

section \<open>Prefixes, splitting, joining\<close>

definition has_prefix :: "string \<Rightarrow> string \<Rightarrow> bool" where
  "has_prefix p s \<longleftrightarrow> take (length p) s = p"

definition trim_prefix :: "string \<Rightarrow> string \<Rightarrow> string" where
  "trim_prefix p s = (if has_prefix p s then drop (length p) s else s)"

lemma has_prefix_append [simp]: "has_prefix p (p @ s)"
  by (simp add: has_prefix_def)

lemma trim_prefix_append [simp]: "trim_prefix p (p @ s) = s"
  by (simp add: trim_prefix_def)

text \<open>\<open>strings.Split(s, sep)\<close> for a separator of one byte: never the empty list.\<close>

fun split_on :: "char \<Rightarrow> string \<Rightarrow> string list" where
  "split_on c [] = [[]]"
| "split_on c (x # xs) =
     (if x = c then [] # split_on c xs
      else (case split_on c xs of [] \<Rightarrow> [[x]] | y # ys \<Rightarrow> (x # y) # ys))"

text \<open>\<open>strings.Join(xs, sep)\<close>.\<close>

fun join :: "string \<Rightarrow> string list \<Rightarrow> string" where
  "join sep [] = []"
| "join sep [x] = x"
| "join sep (x # y # ys) = x @ sep @ join sep (y # ys)"

lemma split_on_nonempty [simp]: "split_on c s \<noteq> []"
  by (induction s) (auto split: list.splits)

lemma split_on_no_sep: "c \<notin> set s \<Longrightarrow> split_on c s = [s]"
  by (induction s) auto

lemma split_on_append: "c \<notin> set a \<Longrightarrow> split_on c (a @ c # b) = a # split_on c b"
  by (induction a) auto

lemma split_on_parts: "x \<in> set (split_on c s) \<Longrightarrow> c \<notin> set x"
proof (induction s arbitrary: x)
  case Nil
  then show ?case by simp
next
  case (Cons a s)
  obtain y ys where "split_on c s = y # ys"
    by (cases "split_on c s") auto
  with Cons show ?case by (auto split: if_splits)
qed

lemma join_Cons: "ys \<noteq> [] \<Longrightarrow> join sep (x # ys) = x @ sep @ join sep ys"
  by (cases ys) auto

lemma join_split_on: "join [c] (split_on c s) = s"
proof (induction s)
  case Nil
  then show ?case by simp
next
  case (Cons a s)
  obtain y ys where s: "split_on c s = y # ys"
    by (cases "split_on c s") auto
  with Cons show ?case by (cases ys) (auto simp: join_Cons)
qed

lemma split_on_join:
  "xs \<noteq> [] \<Longrightarrow> (\<And>x. x \<in> set xs \<Longrightarrow> c \<notin> set x) \<Longrightarrow> split_on c (join [c] xs) = xs"
proof (induction xs)
  case Nil
  then show ?case by simp
next
  case (Cons x xs)
  show ?case
  proof (cases "xs = []")
    case True
    with Cons.prems show ?thesis by (simp add: split_on_no_sep)
  next
    case False
    then have "join [c] (x # xs) = x @ c # join [c] xs" by (simp add: join_Cons)
    moreover have "c \<notin> set x" using Cons.prems by simp
    ultimately show ?thesis using Cons False by (simp add: split_on_append)
  qed
qed

section \<open>Decimal numbers\<close>

definition digit_char :: "nat \<Rightarrow> char" where
  "digit_char d = char_of (48 + d)"

definition is_digit :: "char \<Rightarrow> bool" where
  "is_digit c \<longleftrightarrow> 48 \<le> (of_char c :: nat) \<and> (of_char c :: nat) \<le> 57"

definition digit_val :: "char \<Rightarrow> nat" where
  "digit_val c = of_char c - 48"

text \<open>\<open>strconv.Itoa\<close> and \<open>%d\<close>.\<close>

fun itoa_nat :: "nat \<Rightarrow> string" where
  "itoa_nat n = (if n < 10 then [digit_char n] else itoa_nat (n div 10) @ [digit_char (n mod 10)])"

declare itoa_nat.simps [simp del]

definition itoa :: "int \<Rightarrow> string" where
  "itoa i = (if i < 0 then ''-'' @ itoa_nat (nat (- i)) else itoa_nat (nat i))"

definition dec_val :: "string \<Rightarrow> nat" where
  "dec_val s = foldl (\<lambda>a c. a * 10 + digit_val c) 0 s"

text \<open>A non-empty string of ASCII digits, read in base ten.\<close>

definition parse_dec :: "string \<Rightarrow> nat option" where
  "parse_dec s = (if s \<noteq> [] \<and> list_all is_digit s then Some (dec_val s) else None)"

text \<open>\<open>strconv.ParseUint(s, 10, 16)\<close>: \<open>None\<close> stands for the syntax and the range error.\<close>

definition ParseUint16 :: "string \<Rightarrow> nat option" where
  "ParseUint16 s = (case parse_dec s of None \<Rightarrow> None | Some n \<Rightarrow> if 65535 < n then None else Some n)"

lemma of_char_digit_char: "d < 10 \<Longrightarrow> (of_char (digit_char d) :: nat) = 48 + d"
  by (simp add: digit_char_def)

lemma is_digit_digit_char [simp]: "d < 10 \<Longrightarrow> is_digit (digit_char d)"
  by (simp add: is_digit_def of_char_digit_char)

lemma digit_val_digit_char [simp]: "d < 10 \<Longrightarrow> digit_val (digit_char d) = d"
  by (simp add: digit_val_def of_char_digit_char)

lemma itoa_nat_nonempty [simp]: "itoa_nat n \<noteq> []"
  by (subst itoa_nat.simps) simp

lemma itoa_nat_digits: "list_all is_digit (itoa_nat n)"
proof (induction n rule: itoa_nat.induct)
  case (1 n)
  then show ?case by (subst itoa_nat.simps) simp
qed

lemma dec_val_itoa_nat: "dec_val (itoa_nat n) = n"
proof (induction n rule: itoa_nat.induct)
  case (1 n)
  show ?case
  proof (cases "n < 10")
    case True
    then show ?thesis by (subst itoa_nat.simps) (simp add: dec_val_def)
  next
    case False
    with 1 have "dec_val (itoa_nat (n div 10)) = n div 10" by simp
    with False show ?thesis by (subst itoa_nat.simps) (simp add: dec_val_def)
  qed
qed

lemma parse_dec_itoa_nat [simp]: "parse_dec (itoa_nat n) = Some n"
  by (simp add: parse_dec_def itoa_nat_digits dec_val_itoa_nat)

lemma ParseUint16_itoa_nat: "n \<le> 65535 \<Longrightarrow> ParseUint16 (itoa_nat n) = Some n"
  by (simp add: ParseUint16_def)

lemma ParseUint16_bound: "ParseUint16 s = Some n \<Longrightarrow> n \<le> 65535"
  by (auto simp: ParseUint16_def split: option.splits if_splits)

lemma itoa_nat_inject [simp]: "itoa_nat m = itoa_nat n \<longleftrightarrow> m = n"
  by (metis parse_dec_itoa_nat option.inject)

lemma not_digit_notin_itoa: "\<not> is_digit c \<Longrightarrow> c \<notin> set (itoa_nat n)"
  using itoa_nat_digits [of n] by (auto simp: list_all_iff)

lemma separators_not_digits [simp]:
  "\<not> is_digit (CHR ''.'')" "\<not> is_digit (CHR '':'')" "\<not> is_digit (CHR ''/'')" "\<not> is_digit (CHR ''-'')"
  by (simp_all add: is_digit_def)

text \<open>Evaluation of digits, for concrete strings.\<close>

lemma digit_chars:
  "digit_char 0 = CHR ''0''" "digit_char 1 = CHR ''1''" "digit_char 2 = CHR ''2''" "digit_char 3 = CHR ''3''"
  "digit_char 4 = CHR ''4''" "digit_char 5 = CHR ''5''" "digit_char 6 = CHR ''6''" "digit_char 7 = CHR ''7''"
  "digit_char 8 = CHR ''8''" "digit_char 9 = CHR ''9''" "digit_char (Suc 0) = CHR ''1''"
  by (simp_all add: digit_char_def char_of_def bit_0)

text \<open>\<open>strconv.Atoi\<close>: an optional sign, decimal digits, and the range of a 64-bit integer.\<close>

definition atoi :: "string \<Rightarrow> int option" where
  "atoi s =
     (let digits = (if s \<noteq> [] \<and> hd s \<in> {CHR ''+'', CHR ''-''} then tl s else s) in
      case parse_dec digits of
        None \<Rightarrow> None
      | Some n \<Rightarrow> (let i = (if s \<noteq> [] \<and> hd s = CHR ''-'' then - int n else int n) in
          if i < - (2 ^ 63) \<or> 2 ^ 63 \<le> i then None else Some i))"

lemma itoa_nat_hd_digit: "is_digit (hd (itoa_nat n))"
  using itoa_nat_digits [of n] itoa_nat_nonempty [of n] by (cases "itoa_nat n") auto

lemma atoi_itoa_nat: "int n < 2 ^ 63 \<Longrightarrow> atoi (itoa_nat n) = Some (int n)"
proof -
  assume n: "int n < 2 ^ 63"
  have "hd (itoa_nat n) \<notin> {CHR ''+'', CHR ''-''}"
    using itoa_nat_hd_digit [of n] by (auto simp: is_digit_def)
  with n show ?thesis by (simp add: atoi_def)
qed

section \<open>ASCII case\<close>

definition lower_char :: "char \<Rightarrow> char" where
  "lower_char c = (let n = (of_char c :: nat) in if 65 \<le> n \<and> n \<le> 90 then char_of (n + 32) else c)"

definition to_lower :: "string \<Rightarrow> string" where
  "to_lower s = map lower_char s"

lemma lower_char_digit: "is_digit c \<Longrightarrow> lower_char c = c"
  by (simp add: lower_char_def is_digit_def)

lemma to_lower_append [simp]: "to_lower (a @ b) = to_lower a @ to_lower b"
  by (simp add: to_lower_def)

lemma to_lower_itoa_nat [simp]: "to_lower (itoa_nat n) = itoa_nat n"
  unfolding to_lower_def
  using itoa_nat_digits [of n] by (intro map_idI) (auto simp: list_all_iff lower_char_digit)

section \<open>IPv4 addresses\<close>

text \<open>
  A \<open>net.IP\<close> is its list of bytes, most significant first.  \<open>ip_String\<close> is \<open>IP.String\<close> on four
  bytes; herd's only subnet is IPv4, so no other length is printed.
\<close>

type_synonym ip = "u8 list"

definition ip_String :: "ip \<Rightarrow> string" where
  "ip_String a = join ''.'' (map (\<lambda>b. itoa_nat (unat b)) a)"

text \<open>
  One field of \<open>netip.ParseAddr\<close> on an IPv4 text: one to three digits, no leading zero unless
  the field is \<open>0\<close> itself, at most 255.
\<close>

definition parse_octet :: "string \<Rightarrow> u8 option" where
  "parse_octet s = (case parse_dec s of
       None \<Rightarrow> None
     | Some n \<Rightarrow> if (1 < length s \<and> hd s = CHR ''0'') \<or> 255 < n then None else Some (of_nat n))"

definition parse_ipv4 :: "string \<Rightarrow> ip option" where
  "parse_ipv4 s = (case map parse_octet (split_on (CHR ''.'') s) of
       [Some a, Some b, Some c, Some d] \<Rightarrow> Some [a, b, c, d]
     | _ \<Rightarrow> None)"

lemma dot_notin_octet: "CHR ''.'' \<notin> set (itoa_nat n)"
  by (simp add: not_digit_notin_itoa)

lemma split_ip_String: "a \<noteq> [] \<Longrightarrow> split_on (CHR ''.'') (ip_String a) = map (\<lambda>b. itoa_nat (unat b)) a"
  unfolding ip_String_def by (rule split_on_join) (auto simp: dot_notin_octet)

lemma ip_String_inject: "a \<noteq> [] \<Longrightarrow> b \<noteq> [] \<Longrightarrow> ip_String a = ip_String b \<longleftrightarrow> a = b"
proof
  assume ne: "a \<noteq> []" "b \<noteq> []" and eq: "ip_String a = ip_String b"
  from eq have "split_on (CHR ''.'') (ip_String a) = split_on (CHR ''.'') (ip_String b)" by simp
  with ne have "map (\<lambda>b. itoa_nat (unat b)) a = map (\<lambda>b. itoa_nat (unat b)) b"
    by (simp add: split_ip_String)
  moreover have "inj (\<lambda>b :: u8. itoa_nat (unat b))"
    by (rule injI) (simp add: unsigned_word_eqI)
  ultimately show "a = b" by simp
qed simp

lemma itoa_nat_leading: "length (itoa_nat n) > 1 \<Longrightarrow> hd (itoa_nat n) \<noteq> CHR ''0''"
proof (induction n rule: itoa_nat.induct)
  case (1 n)
  have big: "\<not> n < 10" using "1.prems" by (subst (asm) itoa_nat.simps) (simp split: if_splits)
  then have eq: "itoa_nat n = itoa_nat (n div 10) @ [digit_char (n mod 10)]"
    by (subst itoa_nat.simps) simp
  show ?case
  proof (cases "n div 10 < 10")
    case True
    with big have "itoa_nat n = [digit_char (n div 10), digit_char (n mod 10)]"
      by (subst eq, subst itoa_nat.simps) simp
    moreover have "of_char (digit_char (n div 10)) \<noteq> (48 :: nat)"
      using True big by (simp add: of_char_digit_char)
    ultimately show ?thesis by auto
  next
    case False
    then have "length (itoa_nat (n div 10)) > 1" by (subst itoa_nat.simps) simp
    with 1 big have "hd (itoa_nat (n div 10)) \<noteq> CHR ''0''" by simp
    then show ?thesis by (simp add: eq)
  qed
qed

lemma parse_octet_itoa [simp]: "parse_octet (itoa_nat (unat b)) = Some b"
proof -
  have "unat b < 2 ^ LENGTH(8)" by (rule unsigned_less)
  then have "unat b \<le> 255" by simp
  then show ?thesis using itoa_nat_leading [of "unat b"] by (auto simp: parse_octet_def)
qed

lemma parse_ipv4_ip_String: "length a = 4 \<Longrightarrow> parse_ipv4 (ip_String a) = Some a"
proof -
  assume "length a = 4"
  then obtain w x y z where "a = [w, x, y, z]"
    by (auto simp: length_Suc_conv numeral_eq_Suc)
  then show ?thesis by (simp add: parse_ipv4_def split_ip_String)
qed

section \<open>Addresses in text form\<close>

text \<open>
  \<open>parse_ipv6\<close> follows \<open>netip.parseIPv6\<close>: \<open>acc\<close> holds the bytes read so far, \<open>ell\<close> the place of
  the \<open>::\<close> once it was seen.  \<open>v6_finish\<close> is the expansion after the loop.
\<close>

definition is_hex :: "char \<Rightarrow> bool" where
  "is_hex c \<longleftrightarrow> (let n = (of_char c :: nat) in (48 \<le> n \<and> n \<le> 57) \<or> (97 \<le> n \<and> n \<le> 102) \<or> (65 \<le> n \<and> n \<le> 70))"

definition hex_val :: "char \<Rightarrow> nat" where
  "hex_val c = (let n = (of_char c :: nat) in if n \<le> 57 then n - 48 else if 97 \<le> n then n - 87 else n - 55)"

definition v6_finish :: "ip \<Rightarrow> nat option \<Rightarrow> string \<Rightarrow> ip option" where
  "v6_finish acc ell s =
     (if s \<noteq> [] then None
      else if length acc < 16 then
        (case ell of None \<Rightarrow> None
         | Some k \<Rightarrow> Some (take k acc @ replicate (16 - length acc) 0 @ drop k acc))
      else if ell \<noteq> None then None else Some acc)"

function v6_loop :: "ip \<Rightarrow> nat option \<Rightarrow> string \<Rightarrow> ip option" where
  "v6_loop acc ell s =
     (if 16 \<le> length acc then v6_finish acc ell s
      else
        (let h = takeWhile is_hex s; rest = dropWhile is_hex s;
             v = foldl (\<lambda>a c. a * 16 + hex_val c) 0 h;
             acc' = acc @ [of_nat (v div 256), of_nat (v mod 256)]
         in if h = [] \<or> 4 < length h then None
            else (case rest of
                [] \<Rightarrow> v6_finish acc' ell []
              | c # r \<Rightarrow>
                  if c = CHR ''.'' then
                    (if (ell = None \<and> length acc \<noteq> 12) \<or> 16 < length acc + 4 then None
                     else (case parse_ipv4 s of None \<Rightarrow> None | Some a \<Rightarrow> v6_finish (acc @ a) ell []))
                  else if c \<noteq> CHR '':'' \<or> r = [] then None
                  else if hd r = CHR '':'' then
                    (if ell \<noteq> None then None
                     else if tl r = [] then v6_finish acc' (Some (length acc')) []
                     else v6_loop acc' (Some (length acc')) (tl r))
                  else v6_loop acc' ell r)))"
  by pat_completeness auto
termination by (relation "measure (\<lambda>(acc, _, _). 16 - length acc)") auto

declare v6_loop.simps [simp del]

definition parse_ipv6 :: "string \<Rightarrow> ip option" where
  "parse_ipv6 s =
     (if has_prefix ''::'' s
      then (if drop 2 s = [] then Some (replicate 16 0) else v6_loop [] (Some 0) (drop 2 s))
      else v6_loop [] None s)"

text \<open>\<open>net.ParseIP\<close>: the first of the bytes \<open>.\<close>, \<open>:\<close>, \<open>%\<close> decides; a zone is never accepted.\<close>

definition ParseIP :: "string \<Rightarrow> ip option" where
  "ParseIP s = (case dropWhile (\<lambda>c. c \<notin> {CHR ''.'', CHR '':'', CHR ''%''}) s of
       [] \<Rightarrow> None
     | c # _ \<Rightarrow> if c = CHR ''.'' then parse_ipv4 s
                 else if c = CHR '':'' \<and> CHR ''%'' \<notin> set s then parse_ipv6 s else None)"

definition v4_in_v6_prefix :: ip where
  "v4_in_v6_prefix = [0, 0, 0, 0, 0, 0, 0, 0, 0, 0, 255, 255]"

text \<open>\<open>IP.To4\<close> and \<open>IP.IsLoopback\<close>.\<close>

definition To4 :: "ip \<Rightarrow> ip option" where
  "To4 a = (if length a = 4 then Some a
     else if length a = 16 \<and> take 12 a = v4_in_v6_prefix then Some (drop 12 a) else None)"

definition IsLoopback :: "ip \<Rightarrow> bool" where
  "IsLoopback a = (case To4 a of Some b \<Rightarrow> hd b = 127 | None \<Rightarrow> a = replicate 15 0 @ [1])"

lemma ip_String_charset:
  assumes "c \<in> set (ip_String a)"
  shows "is_digit c \<or> c = CHR ''.''"
proof -
  have "c \<in> set (join sep xs) \<Longrightarrow> c \<in> set sep \<or> (\<exists>x \<in> set xs. c \<in> set x)" for sep xs
    by (induction sep xs rule: join.induct) auto
  from this [OF assms [unfolded ip_String_def]] show ?thesis
    using itoa_nat_digits by (auto simp: list_all_iff)
qed

lemma ParseIP_dotted:
  assumes "list_all (\<lambda>c. is_digit c \<or> c = CHR ''.'') s" and "CHR ''.'' \<in> set s"
  shows "ParseIP s = parse_ipv4 s"
proof -
  let ?P = "\<lambda>c. c \<notin> {CHR ''.'', CHR '':'', CHR ''%''}"
  from assms(2) have ne: "dropWhile ?P s \<noteq> []" by (auto simp: dropWhile_eq_Nil_conv)
  then have "\<not> ?P (hd (dropWhile ?P s))" by (rule hd_dropWhile)
  moreover have "hd (dropWhile ?P s) \<in> set s" using ne set_dropWhileD [OF hd_in_set] by blast
  ultimately have "hd (dropWhile ?P s) = CHR ''.''"
    using assms(1) by (auto simp: list_all_iff is_digit_def)
  with ne show ?thesis by (cases "dropWhile ?P s") (simp_all add: ParseIP_def)
qed

lemma ParseIP_ip_String: "length a = 4 \<Longrightarrow> ParseIP (ip_String a) = Some a"
proof -
  assume len: "length a = 4"
  then obtain w x y z where a: "a = [w, x, y, z]" by (auto simp: length_Suc_conv numeral_eq_Suc)
  have "CHR ''.'' \<in> set (ip_String a)" by (simp add: a ip_String_def)
  with ParseIP_dotted [of "ip_String a"] show ?thesis
    using ip_String_charset [of _ a] by (auto simp: list_all_iff parse_ipv4_ip_String len)
qed

text \<open>\<open>net.SplitHostPort\<close>; \<open>None\<close> stands for its \<open>AddrError\<close>.\<close>

definition last_colon :: "string \<Rightarrow> nat option" where
  "last_colon s = (if CHR '':'' \<in> set s then Some (length s - 1 - length (takeWhile (\<lambda>c. c \<noteq> CHR '':'') (rev s))) else None)"

definition index_of :: "char \<Rightarrow> string \<Rightarrow> nat option" where
  "index_of c s = (if c \<in> set s then Some (length (takeWhile (\<lambda>x. x \<noteq> c) s)) else None)"

definition SplitHostPort :: "string \<Rightarrow> (string \<times> string) option" where
  "SplitHostPort s = (case last_colon s of
       None \<Rightarrow> None
     | Some i \<Rightarrow>
         if hd s = CHR ''['' then
           (case index_of (CHR '']'') s of
              None \<Rightarrow> None
            | Some e \<Rightarrow>
                if e + 1 \<noteq> i then None
                else if CHR ''['' \<in> set (drop 1 s) \<or> CHR '']'' \<in> set (drop (e + 1) s) then None
                else Some (drop 1 (take e s), drop (i + 1) s))
         else if CHR '':'' \<in> set (take i s) \<or> CHR ''['' \<in> set s \<or> CHR '']'' \<in> set s then None
         else Some (take i s, drop (i + 1) s))"

lemma SplitHostPort_plain:
  assumes "host \<noteq> []" and "set (host @ port) \<inter> {CHR '':'', CHR ''['', CHR '']''} = {}"
  shows "SplitHostPort (host @ '':'' @ port) = Some (host, port)"
proof -
  have "takeWhile (\<lambda>c. c \<noteq> CHR '':'') (rev (host @ '':'' @ port)) = rev port"
    using assms(2) by (simp add: takeWhile_append)
  then have "last_colon (host @ '':'' @ port) = Some (length host)" by (simp add: last_colon_def)
  moreover have "hd host \<noteq> CHR ''[''" using assms by (cases host) auto
  ultimately show ?thesis using assms by (auto simp: SplitHostPort_def)
qed

end
