(* ===== verification/Port_Manager.thy ===== *)
theory Port_Manager
  imports Go_Strings
begin

text \<open>
  The host port manager, \<open>internal/network/portmgr.go\<close>.  Whether the host lets a port be bound
  is decided by the operating system: the model takes \<open>listen net addr\<close>, which says whether
  \<open>net.Listen\<close> or \<open>net.ListenPacket\<close> on that network and address succeeds, as an argument.
\<close>

section \<open>Model\<close>

record port_manager =
  inUse :: "int \<rightharpoonup> string"
  ephemeralStart :: int
  ephemeralEnd :: int

datatype port_error =
    NoEphemeralPorts int int
  | PortInUseByVM int string
  | PortInUseOnHost int

definition NewPortManager :: "int \<Rightarrow> int \<Rightarrow> port_manager" where
  "NewPortManager start e = \<lparr>inUse = Map.empty, ephemeralStart = start, ephemeralEnd = e\<rparr>"

definition isHostPortFree :: "(string \<Rightarrow> string \<Rightarrow> bool) \<Rightarrow> string \<Rightarrow> int \<Rightarrow> string \<Rightarrow> bool" where
  "isHostPortFree listen protocol port iface =
     (let host = (if iface \<noteq> '''' \<and> iface \<noteq> ''0.0.0.0'' then iface else ''0.0.0.0'');
          addr = host @ '':'' @ itoa port
      in if protocol = ''udp'' then listen ''udp'' addr else listen ''tcp'' addr)"

text \<open>The search of the ephemeral range from port \<open>p\<close> on.\<close>

function ephemeral_search :: "(string \<Rightarrow> string \<Rightarrow> bool) \<Rightarrow> string \<Rightarrow> port_manager \<Rightarrow> int \<Rightarrow> int option" where
  "ephemeral_search listen protocol pm p =
     (if p \<le> ephemeralEnd pm then
        (if inUse pm p = None \<and> isHostPortFree listen protocol p '''' then Some p
         else ephemeral_search listen protocol pm (p + 1))
      else None)"
  by pat_completeness auto
termination by (relation "measure (\<lambda>(_, _, pm, p). nat (ephemeralEnd pm + 1 - p))") auto

declare ephemeral_search.simps [simp del]

definition port_Allocate :: "(string \<Rightarrow> string \<Rightarrow> bool) \<Rightarrow> int \<Rightarrow> string \<Rightarrow> string \<Rightarrow> string \<Rightarrow> port_manager \<Rightarrow>
    (port_error + int) \<times> port_manager" where
  "port_Allocate listen requestedPort protocol iface vmID pm =
     (if requestedPort = 0 then
        (case ephemeral_search listen protocol pm (ephemeralStart pm) of
           Some p \<Rightarrow> (Inr p, pm\<lparr>inUse := (inUse pm)(p \<mapsto> vmID)\<rparr>)
         | None \<Rightarrow> (Inl (NoEphemeralPorts (ephemeralStart pm) (ephemeralEnd pm)), pm))
      else (case inUse pm requestedPort of
           Some owner \<Rightarrow>
             if owner = vmID then (Inr requestedPort, pm)
             else (Inl (PortInUseByVM requestedPort owner), pm)
         | None \<Rightarrow>
             if \<not> isHostPortFree listen protocol requestedPort iface
             then (Inl (PortInUseOnHost requestedPort), pm)
             else (Inr requestedPort, pm\<lparr>inUse := (inUse pm)(requestedPort \<mapsto> vmID)\<rparr>)))"

definition port_Release :: "int \<Rightarrow> port_manager \<Rightarrow> port_manager" where
  "port_Release port pm = pm\<lparr>inUse := (inUse pm)(port := None)\<rparr>"

section \<open>The search\<close>

text \<open>A port that the search may pick.\<close>

definition candidate :: "(string \<Rightarrow> string \<Rightarrow> bool) \<Rightarrow> string \<Rightarrow> port_manager \<Rightarrow> int \<Rightarrow> bool" where
  "candidate listen protocol pm p \<longleftrightarrow> p \<le> ephemeralEnd pm \<and> inUse pm p = None \<and>
     isHostPortFree listen protocol p ''''"

lemma ephemeral_search_Some:
  "ephemeral_search listen protocol pm p = Some q \<Longrightarrow>
     p \<le> q \<and> candidate listen protocol pm q \<and> (\<forall>r. p \<le> r \<longrightarrow> r < q \<longrightarrow> \<not> candidate listen protocol pm r)"
proof (induction listen protocol pm p rule: ephemeral_search.induct)
  case (1 listen protocol pm p)
  show ?case
  proof (cases "candidate listen protocol pm p")
    case True
    then have "ephemeral_search listen protocol pm p = Some p"
      by (subst ephemeral_search.simps) (simp add: candidate_def)
    with True "1.prems" show ?thesis by simp
  next
    case False
    with "1.prems" have le: "p \<le> ephemeralEnd pm" and step: "ephemeral_search listen protocol pm (p + 1) = Some q"
      by (subst (asm) ephemeral_search.simps; auto simp: candidate_def split: if_splits)+
    from le False have "\<not> (inUse pm p = None \<and> isHostPortFree listen protocol p '''')"
      by (simp add: candidate_def)
    from "1.IH" [OF le this step] show ?thesis
      using False by (metis dual_order.trans order_le_less zless_imp_add1_zle zle_add1_eq_le)
  qed
qed

lemma ephemeral_search_None:
  "ephemeral_search listen protocol pm p = None \<Longrightarrow> p \<le> q \<Longrightarrow> \<not> candidate listen protocol pm q"
proof (induction listen protocol pm p rule: ephemeral_search.induct)
  case (1 listen protocol pm p)
  show ?case
  proof (cases "p \<le> ephemeralEnd pm")
    case True
    with "1.prems"(1) have n: "\<not> (inUse pm p = None \<and> isHostPortFree listen protocol p '''')"
      and step: "ephemeral_search listen protocol pm (p + 1) = None"
      by (subst (asm) ephemeral_search.simps; simp split: if_splits)+
    show ?thesis
    proof (cases "q = p")
      case True
      with n show ?thesis by (auto simp: candidate_def)
    next
      case False
      with "1.prems"(2) have "p + 1 \<le> q" by simp
      with "1.IH" [OF True n step] show ?thesis .
    qed
  next
    case False
    with "1.prems"(2) show ?thesis by (simp add: candidate_def)
  qed
qed

section \<open>Ownership\<close>

lemma port_Allocate_Inr:
  assumes "port_Allocate listen r protocol iface vm pm = (Inr p, pm')"
  shows "inUse pm' = (inUse pm)(p \<mapsto> vm) \<and> (inUse pm p = None \<or> inUse pm p = Some vm) \<and>
    (r \<noteq> 0 \<longrightarrow> p = r) \<and> (r = 0 \<longrightarrow> inUse pm p = None) \<and>
    ephemeralStart pm' = ephemeralStart pm \<and> ephemeralEnd pm' = ephemeralEnd pm"
  using assms
  by (auto simp: port_Allocate_def candidate_def fun_upd_idem dest!: ephemeral_search_Some
      split: if_splits option.splits)

lemma port_Allocate_Inl: "port_Allocate listen r protocol iface vm pm = (Inl e, pm') \<Longrightarrow> pm' = pm"
  by (auto simp: port_Allocate_def split: if_splits option.splits)

text \<open>Taking an ephemeral port; the request names the protocol and the VM.\<close>

definition ephemeral_take :: "(string \<Rightarrow> string \<Rightarrow> bool) \<Rightarrow> string \<times> string \<Rightarrow> port_manager \<Rightarrow> (int \<times> port_manager) option" where
  "ephemeral_take listen r pm = (case port_Allocate listen 0 (fst r) '''' (snd r) pm of
       (Inl _, _) \<Rightarrow> None | (Inr p, pm') \<Rightarrow> Some (p, pm'))"

lemma ephemeral_take_Some:
  "ephemeral_take listen r pm = Some (p, pm') \<longleftrightarrow> port_Allocate listen 0 (fst r) '''' (snd r) pm = (Inr p, pm')"
  by (auto simp: ephemeral_take_def split: prod.splits sum.splits)

interpretation ports: allocator "\<lambda>_. True" "\<lambda>pm. dom (inUse pm)" "ephemeral_take listen" port_Release
  for listen
  by unfold_locales
    (auto simp: ephemeral_take_Some port_Release_def dest!: port_Allocate_Inr split: if_splits)

section \<open>Histories\<close>

datatype port_op = AllocOp "string \<Rightarrow> string \<Rightarrow> bool" int string string string | ReleaseOp int

primrec port_step :: "port_op \<Rightarrow> port_manager \<Rightarrow> port_manager" where
  "port_step (AllocOp listen r protocol iface vm) pm = snd (port_Allocate listen r protocol iface vm pm)"
| "port_step (ReleaseOp p) pm = port_Release p pm"

lemma port_step_owner:
  "inUse pm p = Some vm \<Longrightarrow> op \<noteq> ReleaseOp p \<Longrightarrow> inUse (port_step op pm) p = Some vm"
proof (cases op)
  case (AllocOp listen r protocol iface v)
  assume own: "inUse pm p = Some vm"
  obtain x pm' where a: "port_Allocate listen r protocol iface v pm = (x, pm')"
    by (cases "port_Allocate listen r protocol iface v pm")
  show ?thesis
  proof (cases x)
    case (Inl e)
    with a AllocOp own show ?thesis using port_Allocate_Inl [of listen r protocol iface v pm e pm'] by simp
  next
    case (Inr q)
    with a AllocOp own show ?thesis using port_Allocate_Inr [of listen r protocol iface v pm q pm'] by auto
  qed
qed (auto simp: port_Release_def)

section \<open>Properties\<close>

text \<open>
  C27.  A port that a VM owns stays the VM's over every later sequence of allocations by any VM
  and releases of other ports, whatever the host says about its ports; so two VMs never own
  one port.
\<close>

theorem port_ownership_stable:
  assumes "inUse pm p = Some vm" and "ReleaseOp p \<notin> set ops"
  shows "inUse (fold port_step ops pm) p = Some vm"
  using assms by (induction ops arbitrary: pm) (auto simp: port_step_owner)

theorem port_ownership_stable_witness:
  "inUse (fold port_step [AllocOp (\<lambda>_ _. True) 0 ''tcp'' '''' ''vm2'', ReleaseOp 8081]
     ((NewPortManager 8080 8090)\<lparr>inUse := [8080 \<mapsto> ''vm1'']\<rparr>)) 8080 = Some ''vm1''"
  by (rule port_ownership_stable) simp_all



end
