(* ===== verification/Uid_Pool.thy ===== *)
theory Uid_Pool
  imports Herd_Prelude
begin

text \<open>
  The pool of unprivileged UIDs, \<open>internal/uid/pool.go\<close>.  The buffered channel that backs the
  pool is the list of its elements in receive order together with its capacity; a receive takes
  the head, a send appends at the end when the buffer is not full.
\<close>

section \<open>Model\<close>

record uid_pool =
  uid_ch :: "int list"
  uid_cap :: nat
  uid_start :: int
  uid_end :: int

datatype uid_error =
    StartNotPositive int
  | SizeNotPositive int
  | ErrPoolExhausted
  | UidOutOfRange int int int
  | UidPoolFull int

definition uid_NewPool :: "int \<Rightarrow> int \<Rightarrow> uid_error + uid_pool" where
  "uid_NewPool start sz =
     (if start \<le> 0 then Inl (StartNotPositive start)
      else if sz < 1 then Inl (SizeNotPositive sz)
      else Inr \<lparr>uid_ch = map (\<lambda>i. start + int i) [0..<nat sz], uid_cap = nat sz,
                uid_start = start, uid_end = start + sz\<rparr>)"

definition uid_Checkout :: "uid_pool \<Rightarrow> (uid_error + int) \<times> uid_pool" where
  "uid_Checkout p = (case uid_ch p of
       [] \<Rightarrow> (Inl ErrPoolExhausted, p)
     | u # us \<Rightarrow> (Inr u, p\<lparr>uid_ch := us\<rparr>))"

definition uid_Return :: "int \<Rightarrow> uid_pool \<Rightarrow> uid_error option \<times> uid_pool" where
  "uid_Return u p =
     (if u < uid_start p \<or> uid_end p \<le> u then (Some (UidOutOfRange u (uid_start p) (uid_end p)), p)
      else if length (uid_ch p) < uid_cap p then (None, p\<lparr>uid_ch := uid_ch p @ [u]\<rparr>)
      else (Some (UidPoolFull u), p))"

definition uid_Available :: "uid_pool \<Rightarrow> nat" where
  "uid_Available p = length (uid_ch p)"

definition uid_Capacity :: "uid_pool \<Rightarrow> nat" where
  "uid_Capacity p = uid_cap p"

definition uid_Start :: "uid_pool \<Rightarrow> int" where
  "uid_Start p = uid_start p"

section \<open>Invariant\<close>

definition uid_range :: "uid_pool \<Rightarrow> int set" where
  "uid_range p = {uid_start p..<uid_end p}"

definition wf_uid_pool :: "uid_pool \<Rightarrow> bool" where
  "wf_uid_pool p \<longleftrightarrow> 0 < uid_start p \<and> uid_end p = uid_start p + int (uid_cap p) \<and>
     distinct (uid_ch p) \<and> set (uid_ch p) \<subseteq> uid_range p"

text \<open>The UIDs out on lease: in range and not in the channel.\<close>

definition leased :: "uid_pool \<Rightarrow> int set" where
  "leased p = uid_range p - set (uid_ch p)"

lemma card_uid_range: "wf_uid_pool p \<Longrightarrow> card (uid_range p) = uid_cap p"
  by (simp add: wf_uid_pool_def uid_range_def)

lemma finite_uid_range [simp]: "finite (uid_range p)"
  by (simp add: uid_range_def)

lemma uid_NewPool_ok:
  "0 < start \<Longrightarrow> 1 \<le> sz \<Longrightarrow> \<exists>p. uid_NewPool start sz = Inr p \<and> wf_uid_pool p \<and> leased p = {} \<and>
     uid_range p = {start..<start + sz} \<and> uid_Capacity p = nat sz"
proof -
  assume a: "0 < start" "1 \<le> sz"
  have img: "(\<lambda>i. start + int i) ` {0..<nat sz} = {start..<start + sz}"
  proof
    show "{start..<start + sz} \<subseteq> (\<lambda>i. start + int i) ` {0..<nat sz}"
    proof
      fix x assume "x \<in> {start..<start + sz}"
      then have "x = start + int (nat (x - start))" "nat (x - start) \<in> {0..<nat sz}" by auto
      then show "x \<in> (\<lambda>i. start + int i) ` {0..<nat sz}" by blast
    qed
  qed auto
  have "distinct (map (\<lambda>i. start + int i) [0..<nat sz])"
    by (simp add: distinct_map inj_on_def)
  with a img show ?thesis
    by (simp add: uid_NewPool_def wf_uid_pool_def leased_def uid_range_def uid_Capacity_def)
qed

lemma uid_Checkout_Inr:
  "uid_Checkout p = (Inr u, p') \<longleftrightarrow> (\<exists>us. uid_ch p = u # us \<and> p' = p\<lparr>uid_ch := us\<rparr>)"
  by (auto simp: uid_Checkout_def split: list.splits)

lemma uid_Checkout_Inl:
  "uid_Checkout p = (Inl e, p') \<longleftrightarrow> uid_ch p = [] \<and> e = ErrPoolExhausted \<and> p' = p"
  by (auto simp: uid_Checkout_def split: list.splits)

lemma uid_Checkout_wf: "wf_uid_pool p \<Longrightarrow> uid_Checkout p = (r, p') \<Longrightarrow> wf_uid_pool p'"
  by (auto simp: uid_Checkout_def wf_uid_pool_def uid_range_def split: list.splits)

lemma uid_Checkout_leased:
  assumes "wf_uid_pool p" and "uid_Checkout p = (Inr u, p')"
  shows "u \<notin> leased p \<and> leased p' = insert u (leased p)"
proof -
  from assms(2) obtain us where us: "uid_ch p = u # us" "p' = p\<lparr>uid_ch := us\<rparr>"
    by (auto simp: uid_Checkout_Inr)
  with assms(1) show ?thesis
    by (auto simp: leased_def wf_uid_pool_def uid_range_def)
qed

text \<open>A channel with a leased UID missing from it has room for the send.\<close>

lemma leased_room:
  assumes "wf_uid_pool p" and "u \<in> leased p"
  shows "length (uid_ch p) < uid_cap p"
proof -
  have sub: "set (uid_ch p) \<subset> uid_range p"
    using assms by (auto simp: wf_uid_pool_def leased_def)
  have "length (uid_ch p) = card (set (uid_ch p))"
    using assms(1) by (simp add: wf_uid_pool_def distinct_card)
  also have "\<dots> < card (uid_range p)" using sub by (simp add: psubset_card_mono)
  finally show ?thesis using card_uid_range [OF assms(1)] by simp
qed

lemma uid_Return_leased:
  assumes "wf_uid_pool p" and "u \<in> leased p"
  shows "uid_Return u p = (None, p\<lparr>uid_ch := uid_ch p @ [u]\<rparr>)"
  using leased_room [OF assms] assms(2)
  by (auto simp: uid_Return_def leased_def uid_range_def)

lemma uid_Return_wf: "wf_uid_pool p \<Longrightarrow> u \<in> leased p \<Longrightarrow> wf_uid_pool (snd (uid_Return u p))"
  by (auto simp: uid_Return_leased wf_uid_pool_def leased_def uid_range_def subset_iff)

lemma uid_Return_unleases:
  "wf_uid_pool p \<Longrightarrow> u \<in> leased p \<Longrightarrow> leased (snd (uid_Return u p)) = leased p - {u}"
  by (auto simp: uid_Return_leased leased_def uid_range_def)

section \<open>The pool as an allocator\<close>

text \<open>The factory's view of the pool: a checkout that may fail, and a return.\<close>

definition uid_take :: "unit \<Rightarrow> uid_pool \<Rightarrow> (int \<times> uid_pool) option" where
  "uid_take _ p = (case uid_Checkout p of (Inl _, _) \<Rightarrow> None | (Inr u, p') \<Rightarrow> Some (u, p'))"

definition uid_give :: "int \<Rightarrow> uid_pool \<Rightarrow> uid_pool" where
  "uid_give u p = snd (uid_Return u p)"

lemma uid_take_Some: "uid_take r p = Some (u, p') \<longleftrightarrow> uid_Checkout p = (Inr u, p')"
  by (auto simp: uid_take_def split: prod.splits sum.splits)

interpretation uids: allocator wf_uid_pool leased uid_take uid_give
proof
  fix p r x p'
  assume wf: "wf_uid_pool p" and t: "uid_take r p = Some (x, p')"
  from t have c: "uid_Checkout p = (Inr x, p')" by (simp add: uid_take_Some)
  show "wf_uid_pool p'" using wf c by (rule uid_Checkout_wf)
  show "x \<notin> leased p" using uid_Checkout_leased [OF wf c] by simp
  show "leased p' = insert x (leased p)" using uid_Checkout_leased [OF wf c] by simp
next
  fix p x
  assume "wf_uid_pool p" and "x \<in> leased p"
  then show "wf_uid_pool (uid_give x p)" and "leased (uid_give x p) = leased p - {x}"
    by (simp_all add: uid_give_def uid_Return_wf uid_Return_unleases)
qed

section \<open>Properties\<close>

text \<open>
  UID isolation: over any history of checkouts and returns by clients that return only
  what they hold, the UIDs on lease at the same time are pairwise different, lie in the
  configured range, and are never UID 0.
\<close>

theorem uid_leases_exclusive:
  assumes "uid_NewPool start sz = Inr p" and "lease_run uid_take uid_give ops (p, []) = (q, held)"
  shows "distinct held \<and> set held \<subseteq> {start..<start + sz} \<and> 0 \<notin> set held \<and> set held = leased q"
proof -
  have pos: "0 < start" "1 \<le> sz" using assms(1) by (auto simp: uid_NewPool_def split: if_splits)
  then have p: "wf_uid_pool p" "leased p = {}" "uid_range p = {start..<start + sz}"
    using uid_NewPool_ok [OF pos] assms(1) by auto
  have inv: "wf_uid_pool q \<and> distinct held \<and> set held \<subseteq> leased q"
    using uids.lease_run_exclusive [OF p(1) _ _ assms(2)] by simp
  have "leased q = set held"
    by (rule uids.lease_run_exact [OF p(1) _ _ assms(2)]) (simp_all add: p)
  moreover have "uid_range q = uid_range p"
    by (rule lease_run_frame [OF _ _ assms(2)])
      (auto simp: uid_take_Some uid_Checkout_Inr uid_give_def uid_Return_def uid_range_def)
  ultimately have "set held \<subseteq> {start..<start + sz}" and "set held = leased q"
    using p by (auto simp: leased_def)
  moreover have "0 \<notin> {start..<start + sz}" using pos by simp
  ultimately show ?thesis using inv by blast
qed

theorem uid_leases_exclusive_witness:
  "\<exists>p q held. uid_NewPool 300000 3 = Inr p \<and>
     lease_run uid_take uid_give [Take (), Take (), Give 300000, Take ()] (p, []) = (q, held) \<and>
     distinct held \<and> set held \<subseteq> {300000..<300000 + 3} \<and> 0 \<notin> set held \<and> set held = leased q"
proof -
  obtain p where p: "uid_NewPool 300000 3 = Inr p" by (simp add: uid_NewPool_def)
  obtain q held where r: "lease_run uid_take uid_give [Take (), Take (), Give 300000, Take ()] (p, []) = (q, held)"
    by fastforce
  from uid_leases_exclusive [OF p r] p r show ?thesis by blast
qed

text \<open>
  Books balance: as long as the pool is used within its contract, the UIDs in the channel
  and those on lease add up to the capacity, and \<open>Checkout\<close> fails only when all are on lease.
\<close>

theorem uid_available_plus_leased:
  assumes "wf_uid_pool p"
  shows "uid_Available p + card (leased p) = uid_Capacity p \<and>
    (fst (uid_Checkout p) = Inl ErrPoolExhausted \<longleftrightarrow> card (leased p) = uid_Capacity p)"
proof -
  have "card (leased p) = card (uid_range p) - card (set (uid_ch p))"
    unfolding leased_def using assms by (intro card_Diff_subset) (auto simp: wf_uid_pool_def)
  moreover have "card (set (uid_ch p)) = length (uid_ch p)" "card (set (uid_ch p)) \<le> card (uid_range p)"
    using assms card_mono [of "uid_range p" "set (uid_ch p)"] by (auto simp: wf_uid_pool_def distinct_card)
  ultimately have eq: "uid_Available p + card (leased p) = uid_Capacity p"
    using card_uid_range [OF assms] by (simp add: uid_Available_def uid_Capacity_def)
  have "fst (uid_Checkout p) = Inl ErrPoolExhausted \<longleftrightarrow> uid_Available p = 0"
    by (auto simp: uid_Checkout_def uid_Available_def split: list.splits)
  with eq show ?thesis by auto
qed

theorem uid_available_plus_leased_witness:
  "let p = \<lparr>uid_ch = [300001], uid_cap = 2, uid_start = 300000, uid_end = 300002\<rparr> in
     uid_Available p + card (leased p) = uid_Capacity p \<and>
     (fst (uid_Checkout p) = Inl ErrPoolExhausted \<longleftrightarrow> card (leased p) = uid_Capacity p)"
  unfolding Let_def by (rule uid_available_plus_leased) (simp add: wf_uid_pool_def uid_range_def)

text \<open>
  A UID that is returned twice while another one is on lease goes into the channel twice
  without an error, and the next two checkouts lease it to two VMs at once.
\<close>

theorem uid_double_return_accepted:
  "\<exists>p p1 p2 p3 p4 p5. uid_NewPool 300000 2 = Inr p \<and>
     uid_Checkout p = (Inr 300000, p1) \<and> uid_Checkout p1 = (Inr 300001, p2) \<and>
     uid_Return 300000 p2 = (None, p3) \<and> uid_Return 300000 p3 = (None, p4) \<and>
     uid_Checkout p4 = (Inr 300000, p5) \<and> fst (uid_Checkout p5) = Inr 300000"
  by (simp add: uid_NewPool_def uid_Checkout_def uid_Return_def upt_rec)

end
