(* ===== verification/Ipam.thy ===== *)
theory Ipam
  imports Go_Strings
begin

text \<open>
  The IP address manager, \<open>internal/network/ipam.go\<close>: byte-wise increment of an address, the
  subnet and broadcast tests, and the wrap-around search of \<open>ipam_Acquire\<close>.  The search is a loop
  with no syntactic bound, so it is a \<open>partial_function\<close> into \<open>option\<close>; that it always returns
  is part of what is proved.
\<close>

section \<open>Model\<close>

record ipam =
  subnet_IP :: ip
  subnet_Mask :: ip
  usedIPs :: "string \<rightharpoonup> bool"
  nextIP :: ip

datatype ipam_error = InvalidCIDR string | IpPoolExhausted

text \<open>The loop of \<open>inc\<close>: \<open>inc_at (Suc j) a\<close> is the iteration that handles byte \<open>j\<close>.\<close>

fun inc_at :: "nat \<Rightarrow> ip \<Rightarrow> ip" where
  "inc_at 0 a = a"
| "inc_at (Suc j) a = (let a' = a[j := a ! j + 1] in if a' ! j > 0 then a' else inc_at j a')"

definition inc :: "ip \<Rightarrow> ip" where
  "inc a = inc_at (length a) a"

text \<open>\<open>IPNet.Contains\<close> on an address of the subnet's own length.\<close>

definition net_Contains :: "ip \<Rightarrow> ip \<Rightarrow> ip \<Rightarrow> bool" where
  "net_Contains base m a \<longleftrightarrow> length a = length base \<and>
     list_all (\<lambda>((n, k), x). n AND k = x AND k) (zip (zip base m) a)"

definition isBroadcast :: "ip \<Rightarrow> ip \<Rightarrow> bool" where
  "isBroadcast a m \<longleftrightarrow> length a = length m \<and> list_all (\<lambda>(x, k). x OR k = 255) (zip a m)"

text \<open>\<open>net.CIDRMask(n, 32)\<close>, and \<open>net.ParseCIDR\<close> on an IPv4 text.\<close>

fun cidr_mask :: "nat \<Rightarrow> nat \<Rightarrow> ip" where
  "cidr_mask 0 n = []"
| "cidr_mask (Suc l) n =
     (if 8 \<le> n then 255 # cidr_mask l (n - 8) else NOT (drop_bit n 255) # cidr_mask l 0)"

definition ParseCIDR :: "string \<Rightarrow> (ip \<times> ip) option" where
  "ParseCIDR s = (case split_on (CHR ''/'') s of
       [addr, msk] \<Rightarrow>
         (case (parse_ipv4 addr, parse_dec msk) of
            (Some a, Some n) \<Rightarrow>
              if n \<le> 32 then Some (map2 (AND) a (cidr_mask 4 n), cidr_mask 4 n) else None
          | _ \<Rightarrow> None)
     | _ \<Rightarrow> None)"

definition NewIPAM :: "string \<Rightarrow> ipam_error + ipam" where
  "NewIPAM cidr = (case ParseCIDR cidr of
       None \<Rightarrow> Inl (InvalidCIDR cidr)
     | Some (base, m) \<Rightarrow>
         Inr \<lparr>subnet_IP = base, subnet_Mask = m, usedIPs = Map.empty, nextIP = inc (inc base)\<rparr>)"

text \<open>
  The increment with wrap-around that both arms of the loop share: past the subnet or at the
  broadcast address the cursor goes back to the address after the gateway.
\<close>

definition advance :: "ipam \<Rightarrow> ipam" where
  "advance i = (let n = inc (nextIP i) in
     if \<not> net_Contains (subnet_IP i) (subnet_Mask i) n \<or> isBroadcast n (subnet_Mask i)
     then i\<lparr>nextIP := inc (inc (subnet_IP i))\<rparr>
     else i\<lparr>nextIP := n\<rparr>)"

partial_function (option) acquire_loop :: "ip \<Rightarrow> ipam \<Rightarrow> ((ipam_error + string) \<times> ipam) option" where
  "acquire_loop start i = (let s = ip_String (nextIP i) in
     if usedIPs i s \<noteq> Some True
     then Some (Inr s, advance (i\<lparr>usedIPs := (usedIPs i)(s \<mapsto> True)\<rparr>))
     else let i' = advance i in
       if nextIP i' = start then Some (Inl IpPoolExhausted, i') else acquire_loop start i')"

definition ipam_Acquire :: "ipam \<Rightarrow> ((ipam_error + string) \<times> ipam) option" where
  "ipam_Acquire i = acquire_loop (nextIP i) i"

definition ipam_Release :: "string \<Rightarrow> ipam \<Rightarrow> ipam" where
  "ipam_Release s i = i\<lparr>usedIPs := (usedIPs i)(s := None)\<rparr>"

section \<open>Addresses as numbers\<close>

fun ip_val :: "ip \<Rightarrow> nat" where
  "ip_val [] = 0"
| "ip_val (b # bs) = unat b * 256 ^ length bs + ip_val bs"

lemma unat_u8_lt [simp]: "unat (b :: u8) < 256"
proof -
  have "unat b < 2 ^ LENGTH(8)" by (rule unsigned_less)
  then show ?thesis by simp
qed

lemma unat_u8_le [simp]: "unat (b :: u8) \<le> 255"
  using unat_u8_lt [of b] by linarith

lemma ip_val_bound: "ip_val a < 256 ^ length a"
proof (induction a)
  case Nil
  then show ?case by simp
next
  case (Cons b bs)
  have "unat b * 256 ^ length bs + ip_val bs < unat b * 256 ^ length bs + 256 ^ length bs"
    using Cons by simp
  also have "\<dots> = Suc (unat b) * 256 ^ length bs" by simp
  also have "\<dots> \<le> 256 * 256 ^ length bs"
    by (intro mult_right_mono) (simp_all add: Suc_leI)
  finally show ?case by simp
qed

lemma ip_val_append: "ip_val (a @ b) = ip_val a * 256 ^ length b + ip_val b"
  by (induction a) (simp_all add: algebra_simps power_add)

lemma ip_val_Cons_div: "ip_val (b # bs) div 256 ^ length bs = unat b"
  using ip_val_bound [of bs] by simp

lemma ip_val_Cons_mod: "ip_val (b # bs) mod 256 ^ length bs = ip_val bs"
  using ip_val_bound [of bs] by simp

lemma ip_val_inject: "length a = length b \<Longrightarrow> ip_val a = ip_val b \<longleftrightarrow> a = b"
proof (induction a b rule: list_induct2)
  case Nil
  then show ?case by simp
next
  case (Cons x xs y ys)
  have "ip_val (x # xs) = ip_val (y # ys) \<longleftrightarrow> unat x = unat y \<and> ip_val xs = ip_val ys"
    using ip_val_Cons_div [of x xs] ip_val_Cons_div [of y ys]
      ip_val_Cons_mod [of x xs] ip_val_Cons_mod [of y ys] Cons.hyps
    by (metis ip_val.simps(2))
  then show ?case using Cons.IH by (auto intro: unsigned_word_eqI)
qed

section \<open>The byte-wise increment adds one\<close>

lemma length_inc_at [simp]: "length (inc_at j a) = length a"
  by (induction j arbitrary: a) (auto simp: Let_def)

lemma length_inc [simp]: "length (inc a) = length a"
  by (simp add: inc_def)

lemma inc_at_append: "j \<le> length a \<Longrightarrow> inc_at j (a @ b) = inc_at j a @ b"
proof (induction j arbitrary: a)
  case 0
  then show ?case by simp
next
  case (Suc j)
  then have "j < length a" by simp
  then have "(a @ b)[j := (a @ b) ! j + 1] = a[j := a ! j + 1] @ b"
    by (simp add: list_update_append nth_append)
  with Suc show ?case by (simp add: Let_def nth_append)
qed

lemma inc_snoc: "inc (a @ [b]) = (if b + 1 > 0 then a @ [b + 1] else inc a @ [0])"
proof -
  have "inc_at (length a) (a @ [b + 1]) = inc_at (length a) a @ [b + 1]"
    by (rule inc_at_append) simp
  moreover have "\<not> b + 1 > 0 \<Longrightarrow> b + 1 = 0"
    by (simp add: word_gt_0)
  ultimately show ?thesis by (simp add: inc_def Let_def list_update_append)
qed

lemma unat_inc_byte: "(b :: u8) + 1 > 0 \<Longrightarrow> unat (b + 1) = unat b + 1"
  by (simp add: unatSuc add.commute word_gt_0)

lemma unat_byte_wrap: "\<not> (b :: u8) + 1 > 0 \<Longrightarrow> unat b = 255"
proof -
  assume "\<not> b + 1 > 0"
  then have "b + 1 = 0" by (simp add: word_gt_0)
  then have "b = - 1" by (simp add: eq_neg_iff_add_eq_0)
  then show ?thesis by (simp add: unsigned_minus_1_eq_mask mask_eq_exp_minus_1)
qed

lemma inc_val: "ip_val (inc a) = (ip_val a + 1) mod 256 ^ length a"
proof (induction a rule: rev_induct)
  case Nil
  then show ?case by (simp add: inc_def)
next
  case (snoc b a)
  show ?case
  proof (cases "b + 1 > 0")
    case True
    then have v: "ip_val (inc (a @ [b])) = ip_val (a @ [b]) + 1"
      by (simp add: inc_snoc ip_val_append unat_inc_byte)
    moreover have "ip_val (inc (a @ [b])) < 256 ^ length (a @ [b])"
      using ip_val_bound [of "inc (a @ [b])"] by simp
    ultimately show ?thesis by simp
  next
    case False
    have "ip_val (inc (a @ [b])) = 256 * ((ip_val a + 1) mod 256 ^ length a)"
      using False snoc by (simp add: inc_snoc ip_val_append)
    also have "\<dots> = (256 * (ip_val a + 1)) mod (256 * 256 ^ length a)"
      by (simp add: mult_mod_right)
    also have "256 * (ip_val a + 1) = ip_val (a @ [b]) + 1"
      using unat_byte_wrap [OF False] by (simp add: ip_val_append)
    finally show ?thesis by simp
  qed
qed

section \<open>Subnets as intervals\<close>

lemma and_not_mask: "(x :: u8) AND NOT (mask k) = push_bit k (drop_bit k x)"
  by (rule bit_word_eqI) (auto simp: bit_simps)

lemma unat_and_not_mask: "unat ((x :: u8) AND NOT (mask k)) = unat x div 2 ^ k * 2 ^ k"
proof -
  have le: "unat x div 2 ^ k * 2 ^ k \<le> unat x" by simp
  have "take_bit 8 (unat x) = unat x" by (simp add: take_bit_nat_eq_self)
  then have "unat (push_bit k (drop_bit k x)) = take_bit 8 (push_bit k (drop_bit k (unat x)))"
    by (simp add: unsigned_push_bit_eq unsigned_drop_bit_eq take_bit_push_bit)
  also have "\<dots> = (unat x div 2 ^ k * 2 ^ k) mod 256"
    by (simp add: take_bit_eq_mod push_bit_eq_mult drop_bit_eq_div)
  also have "\<dots> = unat x div 2 ^ k * 2 ^ k"
    using le unat_u8_lt [of x] by (intro mod_less) linarith
  finally show ?thesis by (simp add: and_not_mask)
qed

text \<open>
  A mask whose one bits come first: full bytes, then one byte that clears its low \<open>k\<close> bits,
  then zero bytes.  \<open>cidr_mask\<close> produces only such masks.
\<close>

fun contig :: "ip \<Rightarrow> bool" where
  "contig [] = True"
| "contig (m # ms) = (if m = 255 then contig ms
     else (\<exists>k \<le> 8. m = NOT (mask k)) \<and> list_all (\<lambda>x. x = 0) ms)"

definition bcast :: "ip \<Rightarrow> ip \<Rightarrow> ip" where
  "bcast base m = map2 (\<lambda>b k. b OR NOT k) base m"

lemma drop_bit_255: "drop_bit n (255 :: u8) = mask (8 - n)"
proof -
  have "(255 :: u8) = mask 8" by (simp add: mask_eq_exp_minus_1)
  moreover have "drop_bit n (mask 8 :: u8) = mask (8 - n)"
    by (rule bit_word_eqI) (auto simp: bit_simps)
  ultimately show ?thesis by (simp only:)
qed

lemma cidr_mask_0: "list_all (\<lambda>x. x = 0) (cidr_mask l 0)"
proof (induction l)
  case (Suc l)
  have "NOT (mask 8) = (0 :: u8)" by (simp add: mask_eq_exp_minus_1)
  with Suc show ?case by (simp add: drop_bit_255)
qed simp

lemma contig_cidr_mask: "contig (cidr_mask l n)"
proof (induction l n rule: cidr_mask.induct)
  case (2 l n)
  then show ?case
    using cidr_mask_0 [of l] by (auto simp: drop_bit_255 intro!: exI [of _ "8 - n"])
qed simp

lemma length_cidr_mask [simp]: "length (cidr_mask l n) = l"
  by (induction l n rule: cidr_mask.induct) auto

text \<open>Within one byte: the values between a block's first and last value lie in the block.\<close>

lemma byte_block:
  assumes b: "(b :: u8) AND NOT (mask k) = b" and lo: "unat b \<le> unat x"
    and hi: "unat x \<le> unat (b OR mask k)"
  shows "x AND NOT (mask k) = b"
proof -
  have ub: "unat b = unat b div 2 ^ k * 2 ^ k"
    using b unat_and_not_mask [of b k] by simp
  have "(b OR mask k) AND NOT (mask k) = b AND NOT (mask k)"
    by (rule bit_word_eqI) (auto simp: bit_simps)
  with b have "unat (b OR mask k) div 2 ^ k * 2 ^ k = unat b"
    using unat_and_not_mask [of "b OR mask k" k] by simp
  with ub have top: "unat (b OR mask k) div 2 ^ k = unat b div 2 ^ k"
    by (metis mult_right_cancel power_not_zero zero_neq_numeral)
  have "unat b div 2 ^ k \<le> unat x div 2 ^ k" using lo by (rule div_le_mono)
  moreover have "unat x div 2 ^ k \<le> unat b div 2 ^ k" using div_le_mono [OF hi, of "2 ^ k"] top by simp
  ultimately have "unat x div 2 ^ k = unat b div 2 ^ k" by simp
  with ub have "unat (x AND NOT (mask k)) = unat b" by (simp add: unat_and_not_mask)
  then show ?thesis by (rule unsigned_word_eqI)
qed

lemma and_255 [simp]: "(x :: u8) AND 255 = x"
proof -
  have "(255 :: u8) = - 1" by simp
  then show ?thesis by (simp only: and.right_neutral)
qed

lemma minus_256 [simp]: "(- 256 :: u8) = 0"
  by simp

text \<open>Leading bytes decide comparisons.\<close>

lemma ip_val_le_hd: "length xs = length ys \<Longrightarrow> ip_val (x # xs) \<le> ip_val (y # ys) \<Longrightarrow> unat x \<le> unat y"
  using div_le_mono [of "ip_val (x # xs)" "ip_val (y # ys)" "256 ^ length xs"]
  by (metis ip_val_Cons_div)

lemma ip_val_le_tl: "length xs = length ys \<Longrightarrow> ip_val (x # xs) \<le> ip_val (x # ys) \<longleftrightarrow> ip_val xs \<le> ip_val ys"
  by simp

lemma zero_masks_contain:
  "length base = length m \<Longrightarrow> length a = length m \<Longrightarrow> list_all (\<lambda>x. x = 0) m \<Longrightarrow> net_Contains base m a"
proof (induction m arbitrary: base a)
  case Nil
  then show ?case by (simp add: net_Contains_def)
next
  case (Cons k m)
  then show ?case by (cases base; cases a) (simp_all add: net_Contains_def)
qed

lemma net_Contains_Cons [simp]:
  "net_Contains (b # bs) (k # ks) (x # xs) \<longleftrightarrow> b AND k = x AND k \<and> net_Contains bs ks xs"
  by (auto simp: net_Contains_def)

lemma between_contains:
  assumes "length base = length m" and "length a = length m" and "contig m"
    and "map2 (AND) base m = base" and "ip_val base \<le> ip_val a" and "ip_val a \<le> ip_val (bcast base m)"
  shows "net_Contains base m a"
  using assms
proof (induction m arbitrary: base a)
  case Nil
  then show ?case by (simp add: net_Contains_def)
next
  case (Cons k m)
  obtain b bs where base: "base = b # bs" using Cons.prems(1) by (cases base) auto
  obtain x xs where a: "a = x # xs" using Cons.prems(2) by (cases a) auto
  have len: "length bs = length xs" "length (bcast bs m) = length xs" "length bs = length m" "length xs = length m"
    using Cons.prems(1,2) base a by (simp_all add: bcast_def)
  have bk: "b AND k = b" and bsm: "map2 (AND) bs m = bs" using Cons.prems(4) base by simp_all
  have lo: "ip_val (b # bs) \<le> ip_val (x # xs)" using Cons.prems(5) base a by simp
  have hi: "ip_val (x # xs) \<le> ip_val ((b OR NOT k) # bcast bs m)"
    using Cons.prems(6) base a by (simp add: bcast_def)
  have ub: "unat b \<le> unat x" by (rule ip_val_le_hd [OF len(1) lo])
  have ux: "unat x \<le> unat (b OR NOT k)" by (rule ip_val_le_hd [OF len(2) [symmetric] hi])
  show ?case
  proof (cases "k = 255")
    case True
    with ub ux have "x = b" by (simp add: unsigned_word_eqI)
    have lo': "ip_val bs \<le> ip_val xs"
      using lo unfolding \<open>x = b\<close> ip_val_le_tl [OF len(1)] .
    have "ip_val (b # xs) \<le> ip_val (b # bcast bs m)" using hi \<open>x = b\<close> True by simp
    then have hi': "ip_val xs \<le> ip_val (bcast bs m)" unfolding ip_val_le_tl [OF len(2) [symmetric]] .
    have "contig m" using Cons.prems(3) True by simp
    from Cons.IH [OF len(3) len(4) this bsm lo' hi'] show ?thesis by (simp add: base a \<open>x = b\<close>)
  next
    case False
    with Cons.prems(3) obtain n where n: "k = NOT (mask n)" and z: "list_all (\<lambda>x. x = 0) m" by auto
    have "b AND NOT (mask n) = b" using bk unfolding n .
    moreover have "unat x \<le> unat (b OR mask n)" using ux unfolding n bit.double_compl .
    ultimately have "x AND NOT (mask n) = b" by (rule byte_block [OF _ ub])
    with bk n have "b AND k = x AND k" by metis
    moreover have "net_Contains bs m xs" by (rule zero_masks_contain [OF len(3,4) z])
    ultimately show ?thesis unfolding base a net_Contains_Cons by (rule conjI)
  qed
qed

text \<open>Inside the subnet, only the last address passes the broadcast test.\<close>

lemma byte_broadcast: "(b :: u8) AND k = b \<Longrightarrow> b = x AND k \<Longrightarrow> x OR k = 255 \<longleftrightarrow> x = b OR NOT k"
proof
  assume bk: "b AND k = b" and bx: "b = x AND k" and "x OR k = 255"
  moreover have "(255 :: u8) = - 1" by simp
  ultimately have "x OR k = - 1" by simp
  then have all: "\<And>n. n < 8 \<Longrightarrow> bit x n \<or> bit k n"
  proof -
    fix n :: nat assume "n < 8"
    then have "bit (- 1 :: u8) n" by (simp add: bit_simps)
    with \<open>x OR k = - 1\<close> have "bit (x OR k) n" by simp
    then show "bit x n \<or> bit k n" by (simp add: bit_simps)
  qed
  show "x = b OR NOT k"
    by (rule bit_word_eqI) (use all in \<open>auto simp: bx bit_simps\<close>)
next
  assume bx: "b = x AND k" and "x = b OR NOT k"
  moreover have "(b OR NOT k) OR k = - 1"
    by (rule bit_word_eqI) (auto simp: bit_simps)
  ultimately have "x OR k = - 1" by simp
  then show "x OR k = 255" by simp
qed

lemma broadcast_iff:
  assumes "length base = length m" and "length a = length m" and "map2 (AND) base m = base"
    and "net_Contains base m a"
  shows "isBroadcast a m \<longleftrightarrow> a = bcast base m"
  using assms
proof (induction m arbitrary: base a)
  case Nil
  then show ?case by (simp add: isBroadcast_def bcast_def)
next
  case (Cons k m)
  obtain b bs where base: "base = b # bs" using Cons.prems(1) by (cases base) auto
  obtain x xs where a: "a = x # xs" using Cons.prems(2) by (cases a) auto
  have "isBroadcast xs m \<longleftrightarrow> xs = bcast bs m"
    using Cons base a by simp
  moreover have "x OR k = 255 \<longleftrightarrow> x = b OR NOT k"
    using Cons.prems base a by (intro byte_broadcast) simp_all
  ultimately show ?case by (auto simp: base a isBroadcast_def bcast_def)
qed

section \<open>The invariant and the cursor\<close>

abbreviation first_host :: "ipam \<Rightarrow> nat" where
  "first_host i \<equiv> ip_val (subnet_IP i) + 2"

abbreviation broadcast_val :: "ipam \<Rightarrow> nat" where
  "broadcast_val i \<equiv> ip_val (bcast (subnet_IP i) (subnet_Mask i))"

text \<open>
  An IPv4 subnet with at least one address between the gateway and the broadcast address, and
  the cursor on one of these host addresses.
\<close>

definition host_val :: "ipam \<Rightarrow> nat \<Rightarrow> bool" where
  "host_val i v \<longleftrightarrow> first_host i \<le> v \<and> v < broadcast_val i"

definition wf_ipam :: "ipam \<Rightarrow> bool" where
  "wf_ipam i \<longleftrightarrow> length (subnet_IP i) = 4 \<and> length (subnet_Mask i) = 4 \<and> contig (subnet_Mask i) \<and>
     map2 (AND) (subnet_IP i) (subnet_Mask i) = subnet_IP i \<and>
     length (nextIP i) = 4 \<and> host_val i (ip_val (nextIP i))"

definition ipam_hosts :: "ipam \<Rightarrow> string set" where
  "ipam_hosts i = {ip_String a | a. length a = 4 \<and> host_val i (ip_val a)}"

definition ipam_used :: "ipam \<Rightarrow> string set" where
  "ipam_used i = {s. usedIPs i s = Some True}"

lemma length_bcast: "wf_ipam i \<Longrightarrow> length (bcast (subnet_IP i) (subnet_Mask i)) = 4"
  by (simp add: wf_ipam_def bcast_def)

lemma broadcast_val_bound: "wf_ipam i \<Longrightarrow> broadcast_val i < 256 ^ 4"
  using ip_val_bound [of "bcast (subnet_IP i) (subnet_Mask i)"] by (simp add: length_bcast)

lemma inc_no_wrap: "length a = 4 \<Longrightarrow> ip_val a + 1 < 256 ^ 4 \<Longrightarrow> ip_val (inc a) = ip_val a + 1"
  by (simp add: inc_val)

lemma gateway_next:
  assumes "wf_ipam i"
  shows "ip_val (inc (inc (subnet_IP i))) = first_host i"
proof -
  have len: "length (subnet_IP i) = 4" and "first_host i < 256 ^ 4"
    using assms broadcast_val_bound [OF assms] by (simp_all add: wf_ipam_def host_val_def)
  then show ?thesis by (simp add: inc_no_wrap)
qed

lemma advance_frame [simp]:
  "subnet_IP (advance i) = subnet_IP i" "subnet_Mask (advance i) = subnet_Mask i"
  "usedIPs (advance i) = usedIPs i"
  by (simp_all add: advance_def Let_def)

lemma advance_val:
  assumes "wf_ipam i"
  shows "length (nextIP (advance i)) = 4"
    and "ip_val (nextIP (advance i)) =
      (if ip_val (nextIP i) + 1 = broadcast_val i then first_host i else ip_val (nextIP i) + 1)"
proof -
  let ?n = "inc (nextIP i)"
  have wf: "length (subnet_IP i) = 4" "length (subnet_Mask i) = 4" "contig (subnet_Mask i)"
    "map2 (AND) (subnet_IP i) (subnet_Mask i) = subnet_IP i" "length (nextIP i) = 4"
    "host_val i (ip_val (nextIP i))"
    using assms by (simp_all add: wf_ipam_def)
  have len: "length ?n = 4" using wf by simp
  have v: "ip_val ?n = ip_val (nextIP i) + 1"
    using wf broadcast_val_bound [OF assms] by (intro inc_no_wrap) (auto simp: host_val_def)
  have c: "net_Contains (subnet_IP i) (subnet_Mask i) ?n"
    by (rule between_contains) (use wf len v in \<open>auto simp: host_val_def\<close>)
  have "isBroadcast ?n (subnet_Mask i) \<longleftrightarrow> ?n = bcast (subnet_IP i) (subnet_Mask i)"
    using wf len c by (intro broadcast_iff) simp_all
  also have "\<dots> \<longleftrightarrow> ip_val ?n = broadcast_val i"
    using len length_bcast [OF assms] by (simp add: ip_val_inject)
  finally have b: "isBroadcast ?n (subnet_Mask i) \<longleftrightarrow> ip_val (nextIP i) + 1 = broadcast_val i"
    by (simp add: v)
  show "length (nextIP (advance i)) = 4"
    using wf len by (simp add: advance_def Let_def)
  show "ip_val (nextIP (advance i)) =
      (if ip_val (nextIP i) + 1 = broadcast_val i then first_host i else ip_val (nextIP i) + 1)"
    using b c v gateway_next [OF assms] by (simp add: advance_def Let_def)
qed

lemma advance_wf: "wf_ipam i \<Longrightarrow> wf_ipam (advance i)"
  using advance_val [of i] by (auto simp: wf_ipam_def host_val_def)

lemma wf_ipam_used_irrelevant [simp]: "wf_ipam (i\<lparr>usedIPs := u\<rparr>) = wf_ipam i"
  by (simp add: wf_ipam_def host_val_def)

lemma host_val_cong:
  "subnet_IP j = subnet_IP i \<Longrightarrow> subnet_Mask j = subnet_Mask i \<Longrightarrow> host_val j = host_val i"
  by (simp add: host_val_def fun_eq_iff)

section \<open>The search\<close>

text \<open>Position \<open>k\<close> of the cyclic walk over the host addresses that starts at \<open>v\<close>.\<close>

definition walk :: "ipam \<Rightarrow> nat \<Rightarrow> nat \<Rightarrow> nat" where
  "walk i v k = first_host i + (v - first_host i + k) mod (broadcast_val i - first_host i)"

lemma walk_0: "host_val i v \<Longrightarrow> walk i v 0 = v"
proof -
  assume h: "host_val i v"
  then have "v - first_host i < broadcast_val i - first_host i" by (auto simp: host_val_def)
  then have "(v - first_host i + 0) mod (broadcast_val i - first_host i) = v - first_host i" by simp
  then show ?thesis using h unfolding walk_def host_val_def by linarith
qed

lemma walk_full: "host_val i v \<Longrightarrow> walk i v (broadcast_val i - first_host i) = v"
  using walk_0 [of i v] unfolding walk_def mod_add_self2 by simp

lemma walk_Suc:
  assumes "host_val i v"
  shows "walk i v (Suc k) =
    (if walk i v k + 1 = broadcast_val i then first_host i else walk i v k + 1)"
proof -
  let ?N = "broadcast_val i - first_host i"
  have N: "0 < ?N" using assms by (simp add: host_val_def)
  have "(v - first_host i + k) mod ?N < ?N" using N by simp
  moreover have "Suc (v - first_host i + k) mod ?N =
      (if Suc ((v - first_host i + k) mod ?N) = ?N then 0 else Suc ((v - first_host i + k) mod ?N))"
    by (rule mod_Suc)
  ultimately show ?thesis using assms by (auto simp: walk_def host_val_def)
qed

lemma walk_onto:
  assumes "host_val i v" and "host_val i w"
  shows "\<exists>k < broadcast_val i - first_host i. walk i v k = w"
proof -
  let ?N = "broadcast_val i - first_host i"
  let ?a = "v - first_host i" and ?b = "w - first_host i"
  have ab: "?a < ?N" "?b < ?N" using assms by (auto simp: host_val_def)
  define k where "k = (?b + ?N - ?a) mod ?N"
  have "(?a + k) mod ?N = (?a + (?b + ?N - ?a)) mod ?N" by (simp add: k_def mod_add_right_eq)
  also have "?a + (?b + ?N - ?a) = ?b + ?N" using ab by simp
  also have "(?b + ?N) mod ?N = ?b" using ab(2) by (metis mod_add_self2 mod_less)
  finally have "(?a + k) mod ?N = ?b" .
  then have "walk i v k = w" using assms(2) unfolding walk_def host_val_def by linarith
  moreover have "k < ?N" using ab by (simp add: k_def)
  ultimately show ?thesis by blast
qed

lemma walk_return:
  assumes "host_val i v" and "k < broadcast_val i - first_host i" and "walk i v (Suc k) = v"
  shows "Suc k = broadcast_val i - first_host i"
proof (rule ccontr)
  let ?N = "broadcast_val i - first_host i" and ?a = "v - first_host i"
  assume "Suc k \<noteq> ?N"
  with assms(2) have lt: "Suc k < ?N" by simp
  have a: "?a < ?N" using assms(1) by (auto simp: host_val_def)
  from assms have "(?a + Suc k) mod ?N = ?a mod ?N" using a by (auto simp: walk_def host_val_def)
  then have "?N dvd Suc k" by (metis add_diff_cancel_left' le_add1 mod_eq_dvd_iff_nat)
  with lt show False by (auto dest: dvd_imp_le)
qed

definition acquire_post :: "ipam \<Rightarrow> ipam_error + string \<Rightarrow> ipam \<Rightarrow> bool" where
  "acquire_post i r i' \<longleftrightarrow> wf_ipam i' \<and> subnet_IP i' = subnet_IP i \<and> subnet_Mask i' = subnet_Mask i \<and>
     (case r of
        Inr s \<Rightarrow> s \<in> ipam_hosts i \<and> s \<notin> ipam_used i \<and> usedIPs i' = (usedIPs i)(s \<mapsto> True)
      | Inl e \<Rightarrow> e = IpPoolExhausted \<and> usedIPs i' = usedIPs i \<and> ipam_hosts i \<subseteq> ipam_used i)"

lemma acquire_loop_returns:
  assumes "wf_ipam i" and start: "length start = 4" "host_val i (ip_val start)"
    and "k < broadcast_val i - first_host i" and "ip_val (nextIP i) = walk i (ip_val start) k"
    and "\<And>j a. j < k \<Longrightarrow> length a = 4 \<Longrightarrow> ip_val a = walk i (ip_val start) j \<Longrightarrow> ip_String a \<in> ipam_used i"
  shows "\<exists>r i'. acquire_loop start i = Some (r, i') \<and> acquire_post i r i'"
  using assms
proof (induction "broadcast_val i - first_host i - k" arbitrary: i k rule: less_induct)
  case less
  let ?s = "ip_String (nextIP i)" and ?v = "ip_val start"
  have wf: "length (nextIP i) = 4" "host_val i (ip_val (nextIP i))"
    using less.prems(1) by (simp_all add: wf_ipam_def)
  show ?case
  proof (cases "usedIPs i ?s = Some True")
    case False
    then have "acquire_loop start i = Some (Inr ?s, advance (i\<lparr>usedIPs := (usedIPs i)(?s \<mapsto> True)\<rparr>))"
      by (simp add: acquire_loop.simps Let_def)
    moreover have "acquire_post i (Inr ?s) (advance (i\<lparr>usedIPs := (usedIPs i)(?s \<mapsto> True)\<rparr>))"
      using False wf less.prems(1)
      by (auto simp: acquire_post_def ipam_used_def ipam_hosts_def advance_wf)
    ultimately show ?thesis by blast
  next
    case True
    let ?i = "advance i"
    have adv: "length (nextIP ?i) = 4" "ip_val (nextIP ?i) = walk i ?v (Suc k)"
      using advance_val [OF less.prems(1)] walk_Suc [OF less.prems(3), of k] less.prems(5) by simp_all
    have walk_eq: "walk ?i = walk i" by (simp add: walk_def fun_eq_iff)
    have used_eq: "ipam_used ?i = ipam_used i" by (simp add: ipam_used_def)
    have seen: "\<And>j a. j < Suc k \<Longrightarrow> length a = 4 \<Longrightarrow> ip_val a = walk i ?v j \<Longrightarrow> ip_String a \<in> ipam_used i"
    proof -
      fix j a assume j: "j < Suc k" and a: "length a = 4" "ip_val a = walk i ?v j"
      show "ip_String a \<in> ipam_used i"
      proof (cases "j = k")
        case True
        with a less.prems(5) have "ip_val a = ip_val (nextIP i)" by simp
        with a wf have "a = nextIP i" using ip_val_inject [of a "nextIP i"] by simp
        with \<open>usedIPs i ?s = Some True\<close> show ?thesis by (simp add: ipam_used_def)
      next
        case False
        with j a show ?thesis by (intro less.prems(6) [of j]) simp_all
      qed
    qed
    show ?thesis
    proof (cases "nextIP ?i = start")
      case ex: True
      then have "acquire_loop start i = Some (Inl IpPoolExhausted, ?i)"
        using True by (simp add: acquire_loop.simps Let_def)
      moreover have "Suc k = broadcast_val i - first_host i"
        by (rule walk_return [OF less.prems(3,4)]) (use ex adv in simp)
      then have "ipam_hosts i \<subseteq> ipam_used i"
        using seen walk_onto [OF less.prems(3)] by (force simp: ipam_hosts_def)
      then have "acquire_post i (Inl IpPoolExhausted) ?i"
        using advance_wf [OF less.prems(1)] by (simp add: acquire_post_def)
      ultimately show ?thesis by blast
    next
      case nex: False
      then have eq: "acquire_loop start i = acquire_loop start ?i"
        using True by (subst acquire_loop.simps) (simp add: Let_def)
      have "Suc k \<noteq> broadcast_val i - first_host i"
      proof
        assume "Suc k = broadcast_val i - first_host i"
        then have "walk i ?v (Suc k) = ?v" using walk_full [OF less.prems(3)] by simp
        with adv start have "nextIP ?i = start" by (simp add: ip_val_inject)
        with nex show False by simp
      qed
      with less.prems(4) have lt: "Suc k < broadcast_val i - first_host i" by simp
      have "\<exists>r i'. acquire_loop start ?i = Some (r, i') \<and> acquire_post ?i r i'"
      proof (rule less.hyps [of ?i "Suc k"])
        show "broadcast_val ?i - first_host ?i - Suc k < broadcast_val i - first_host i - k" using lt by simp
        show "host_val ?i ?v" using less.prems(3) by (simp add: host_val_def)
        show "ip_val (nextIP ?i) = walk ?i ?v (Suc k)" using adv walk_eq by simp
        show "ip_String a \<in> ipam_used ?i"
          if "j < Suc k" "length a = 4" "ip_val a = walk ?i ?v j" for j a
          using seen [of j a] that walk_eq used_eq by simp
      qed (use less.prems lt advance_wf in simp_all)
      moreover have "acquire_post ?i r i' = acquire_post i r i'" for r i'
        by (simp add: acquire_post_def ipam_hosts_def ipam_used_def host_val_def cong: sum.case_cong)
      ultimately show ?thesis by (simp add: eq)
    qed
  qed
qed

lemma ipam_Acquire_returns:
  assumes "wf_ipam i"
  shows "\<exists>r i'. ipam_Acquire i = Some (r, i') \<and> acquire_post i r i'"
proof -
  have h: "length (nextIP i) = 4" "host_val i (ip_val (nextIP i))"
    using assms by (simp_all add: wf_ipam_def)
  then have "0 < broadcast_val i - first_host i" by (simp add: host_val_def)
  then show ?thesis unfolding ipam_Acquire_def
    by (intro acquire_loop_returns [OF assms h, of 0]) (simp_all only: walk_0 h less_zeroE)
qed

section \<open>The address manager as an allocator\<close>

definition ipam_take :: "unit \<Rightarrow> ipam \<Rightarrow> (string \<times> ipam) option" where
  "ipam_take _ i = (case ipam_Acquire i of Some (Inr s, i') \<Rightarrow> Some (s, i') | _ \<Rightarrow> None)"

lemma ipam_take_Some: "ipam_take r i = Some (s, i') \<longleftrightarrow> ipam_Acquire i = Some (Inr s, i')"
  by (auto simp: ipam_take_def split: option.splits prod.splits sum.splits)

lemma ipam_Acquire_Inr_post:
  "wf_ipam i \<Longrightarrow> ipam_Acquire i = Some (r, i') \<Longrightarrow> acquire_post i r i'"
  using ipam_Acquire_returns [of i] by auto

interpretation ips: allocator wf_ipam ipam_used ipam_take ipam_Release
proof
  fix p r x p'
  assume "wf_ipam p" and "ipam_take r p = Some (x, p')"
  then have "acquire_post p (Inr x) p'" by (simp add: ipam_take_Some ipam_Acquire_Inr_post)
  then show "wf_ipam p'" and "x \<notin> ipam_used p" and "ipam_used p' = insert x (ipam_used p)"
    by (auto simp: acquire_post_def ipam_used_def)
next
  fix p x
  assume "wf_ipam p" and "x \<in> ipam_used p"
  then show "wf_ipam (ipam_Release x p)" and "ipam_used (ipam_Release x p) = ipam_used p - {x}"
    by (auto simp: ipam_Release_def ipam_used_def)
qed

section \<open>Construction from a CIDR\<close>

lemma byte_or_not: "(b :: u8) AND k = b \<Longrightarrow> unat (b OR NOT k) = unat b + unat (NOT k)"
proof -
  assume b: "b AND k = b"
  have "b AND NOT k = (b AND k) AND NOT k" by (simp only: b)
  also have "\<dots> = 0" by (rule bit_word_eqI) (auto simp: bit_simps)
  finally have "unat (b AND NOT k) = 0" by simp
  then have "unat b AND unat (NOT k) = 0" by (simp only: unsigned_and_eq)
  then have "unat b + unat (NOT k) = unat b OR unat (NOT k)"
    by (simp add: disjunctive_add_eq_or)
  then show ?thesis by (simp only: unsigned_or_eq)
qed

lemma bcast_val:
  "length base = length m \<Longrightarrow> map2 (AND) base m = base \<Longrightarrow>
     ip_val (bcast base m) = ip_val base + ip_val (map NOT m)"
proof (induction base m rule: list_induct2)
  case Nil
  then show ?case by (simp add: bcast_def)
next
  case (Cons b bs k ks)
  then show ?case by (simp add: bcast_def byte_or_not algebra_simps)
qed

lemma unat_mask_u8: "k \<le> 8 \<Longrightarrow> unat (mask k :: u8) = 2 ^ k - 1"
proof -
  assume k: "k \<le> 8"
  have "unat (mask k :: u8) = unat (of_nat (mask k) :: u8)" by (simp add: of_nat_mask_eq)
  also have "\<dots> = take_bit 8 (mask k)" by (simp only: unsigned_of_nat) simp
  also have "\<dots> = mask k" using k by (simp add: take_bit_of_mask min_def)
  finally show ?thesis by (simp add: mask_eq_exp_minus_1)
qed

lemma cidr_mask_room: "n + 2 \<le> 8 * l \<Longrightarrow> 2 < ip_val (map NOT (cidr_mask l n))"
proof (induction l n rule: cidr_mask.induct)
  case (2 l n)
  show ?case
  proof (cases "8 \<le> n")
    case True
    with 2 show ?thesis by simp
  next
    case False
    then have m: "unat (NOT (NOT (drop_bit n 255)) :: u8) = 2 ^ (8 - n) - 1"
      by (simp only: bit.double_compl drop_bit_255) (simp add: unat_mask_u8)
    have "2 < (2 ^ (8 - n) - 1) * (256 :: nat) ^ l"
    proof (cases l)
      case 0
      with "2.prems" have "(2 :: nat) ^ 2 \<le> 2 ^ (8 - n)" by (intro power_increasing) simp_all
      with 0 show ?thesis by simp
    next
      case (Suc l')
      have "(2 :: nat) ^ 1 \<le> 2 ^ (8 - n)" using False by (intro power_increasing) simp_all
      then have "1 \<le> (2 :: nat) ^ (8 - n) - 1" by simp
      then have "1 * 256 ^ l \<le> (2 ^ (8 - n) - 1) * (256 :: nat) ^ l" by (intro mult_right_mono) simp_all
      then have up: "256 ^ l \<le> (2 ^ (8 - n) - 1) * (256 :: nat) ^ l" by (simp only: mult_1)
      have "(256 :: nat) ^ 1 \<le> 256 ^ l" using Suc by (intro power_increasing) simp_all
      then have "256 \<le> (256 :: nat) ^ l" by simp
      then have "256 \<le> (2 ^ (8 - n) - 1) * (256 :: nat) ^ l" using up by (rule order_trans)
      then show ?thesis by (rule less_le_trans [rotated]) simp
    qed
    with False m show ?thesis by (simp only: cidr_mask.simps if_False list.map ip_val.simps length_map length_cidr_mask)
  qed
qed simp

lemma map2_and_idem: "length (a :: ip) = length m \<Longrightarrow> map2 (AND) (map2 (AND) a m) m = map2 (AND) a m"
  by (induction a m rule: list_induct2) (auto simp: and.assoc)

lemma NewIPAM_wf:
  assumes "split_on (CHR ''/'') cidr = [addr, msk]" and "parse_ipv4 addr = Some a"
    and "parse_dec msk = Some n" and "n \<le> 30" and "length a = 4"
  shows "\<exists>i. NewIPAM cidr = Inr i \<and> wf_ipam i \<and> ipam_used i = {} \<and>
    subnet_IP i = map2 (AND) a (cidr_mask 4 n) \<and> subnet_Mask i = cidr_mask 4 n"
proof -
  let ?m = "cidr_mask 4 n"
  let ?base = "map2 (AND) a ?m"
  let ?i = "\<lparr>subnet_IP = ?base, subnet_Mask = ?m, usedIPs = Map.empty, nextIP = inc (inc ?base)\<rparr>"
  have new: "NewIPAM cidr = Inr ?i" using assms by (simp add: NewIPAM_def ParseCIDR_def)
  have len: "length ?base = 4" using assms(5) by simp
  have idem: "map2 (AND) ?base ?m = ?base" using assms(5) by (simp add: map2_and_idem)
  have bc: "ip_val ?base + 2 < ip_val (bcast ?base ?m)"
    using bcast_val [OF _ idem] len cidr_mask_room [of n 4] assms(4) by simp
  moreover have "ip_val (bcast ?base ?m) < 256 ^ 4"
    using ip_val_bound [of "bcast ?base ?m"] len by (simp add: bcast_def)
  ultimately have "ip_val (inc (inc ?base)) = ip_val ?base + 2"
    using len inc_no_wrap [of ?base] inc_no_wrap [of "inc ?base"] by simp
  then have "wf_ipam ?i"
    using bc len idem contig_cidr_mask by (simp add: wf_ipam_def host_val_def)
  with new show ?thesis by (simp add: ipam_used_def)
qed

section \<open>Properties\<close>

text \<open>
  C26.  The byte-wise increment with carry is addition of one, modulo the size of the address
  space, for addresses of every length.
\<close>

theorem inc_adds_one: "ip_val (inc a) = (ip_val a + 1) mod 256 ^ length a"
  by (rule inc_val)

text \<open>
  C25.  \<open>IPAM.Acquire\<close> always returns.  It returns an address of the subnet that is neither the
  network address, nor the gateway, nor the broadcast address and that was not in use, and
  marks exactly this address; or it reports exhaustion, and then every host address is in use
  and the books are unchanged.
\<close>

theorem ipam_acquire_total:
  assumes "wf_ipam i"
  shows "\<exists>r i'. ipam_Acquire i = Some (r, i') \<and> wf_ipam i' \<and>
    (case r of
       Inr s \<Rightarrow> s \<in> ipam_hosts i \<and> s \<notin> ipam_used i \<and> usedIPs i' = (usedIPs i)(s \<mapsto> True)
     | Inl e \<Rightarrow> e = IpPoolExhausted \<and> usedIPs i' = usedIPs i \<and> ipam_hosts i \<subseteq> ipam_used i)"
  using ipam_Acquire_returns [OF assms] unfolding acquire_post_def by blast

text \<open>The address manager that the daemon builds, over the subnet of \<open>nat.go\<close>.\<close>

definition herd_ipam :: ipam where
  "herd_ipam = (case NewIPAM ''10.200.0.0/16'' of Inr i \<Rightarrow> i)"

lemma herd_ipam_ok:
  "NewIPAM ''10.200.0.0/16'' = Inr herd_ipam \<and> wf_ipam herd_ipam \<and> ipam_used herd_ipam = {}"
proof -
  have "split_on (CHR ''/'') ''10.200.0.0/16'' = [''10.200.0.0'', ''16'']" by simp
  moreover have "parse_ipv4 ''10.200.0.0'' = Some [10, 200, 0, 0]"
    by (simp add: parse_ipv4_def parse_octet_def parse_dec_def is_digit_def dec_val_def digit_val_def)
  moreover have "parse_dec ''16'' = Some 16"
    by (simp add: parse_dec_def is_digit_def dec_val_def digit_val_def)
  ultimately obtain i where "NewIPAM ''10.200.0.0/16'' = Inr i" "wf_ipam i" "ipam_used i = {}"
    using NewIPAM_wf [of "''10.200.0.0/16''" _ _ "[10, 200, 0, 0]" 16] by auto
  then show ?thesis by (simp add: herd_ipam_def)
qed

theorem ipam_acquire_total_witness:
  "\<exists>r i'. ipam_Acquire herd_ipam = Some (r, i') \<and> wf_ipam i' \<and>
    (case r of
       Inr s \<Rightarrow> s \<in> ipam_hosts herd_ipam \<and> s \<notin> ipam_used herd_ipam \<and>
         usedIPs i' = (usedIPs herd_ipam)(s \<mapsto> True)
     | Inl e \<Rightarrow> e = IpPoolExhausted \<and> usedIPs i' = usedIPs herd_ipam \<and>
         ipam_hosts herd_ipam \<subseteq> ipam_used herd_ipam)"
  by (rule ipam_acquire_total) (simp add: herd_ipam_ok)

text \<open>
  Address isolation: starting from the daemon's subnet, over any history of \<open>Acquire\<close> and
  \<open>Release\<close> calls by clients that release only what they hold, no address is held twice.
\<close>

theorem ipam_leases_exclusive:
  assumes "lease_run ipam_take ipam_Release ops (herd_ipam, []) = (j, held)"
  shows "distinct held \<and> set held \<subseteq> ipam_used j \<and> wf_ipam j"
  using ips.lease_run_exclusive [OF _ _ _ assms] herd_ipam_ok by simp

theorem ipam_leases_exclusive_witness:
  "\<exists>j held. lease_run ipam_take ipam_Release [Take (), Take ()] (herd_ipam, []) = (j, held) \<and>
     distinct held \<and> set held \<subseteq> ipam_used j \<and> wf_ipam j"
proof -
  obtain j held where r: "lease_run ipam_take ipam_Release [Take (), Take ()] (herd_ipam, []) = (j, held)"
    by fastforce
  from ipam_leases_exclusive [OF r] r show ?thesis by blast
qed

text \<open>
  Printing and parsing agree: the dotted decimal text that \<open>IP.String\<close> prints for an IPv4
  address is parsed back to the same address, so the keys of \<open>usedIPs\<close> identify addresses.
\<close>

theorem ip_String_roundtrip: "length a = 4 \<Longrightarrow> parse_ipv4 (ip_String a) = Some a"
  by (rule parse_ipv4_ip_String)

theorem ip_String_roundtrip_witness: "parse_ipv4 (ip_String [10, 200, 0, 2]) = Some [10, 200, 0, 2]"
  by (rule ip_String_roundtrip) simp

end
