(* ===== verification/Registry.thy ===== *)
theory Registry
  imports Herd_Prelude
begin

text \<open>
  The session registry, \<open>registry.go\<close>, and the data that \<open>worker.go\<close> declares.  The Go
  interface \<open>SessionRegistry\<close> is the locale \<open>session_registry\<close>: its methods are the
  parameters, the documented behaviour is the assumptions.  \<open>localRegistry\<close>, the only
  implementation in the repository, is a map, and the interpretation at the end shows that it
  meets the contract.
\<close>

section \<open>Workers and tenant configurations\<close>

text \<open>
  A worker is known to the pool by its \<open>ID()\<close>; the component \<open>worker_obj\<close> is the object behind
  the Go interface value (for the daemon, a \<open>FirecrackerWorker\<close>).
\<close>

record 'o worker =
  worker_ID :: string
  worker_obj :: 'o

record port_mapping =
  HostInterface :: string
  HostPort :: int
  GuestPort :: int
  Protocol :: string

text \<open>The environment is the list of the Go map's entries in iteration order.\<close>

record tenant_config =
  Image :: string
  Command :: "string list"
  Env :: "(string \<times> string) list"
  IdleTimeoutSeconds :: int
  TTLSeconds :: int
  HealthInterval :: string
  VCPUs :: int
  MemoryMB :: int
  PortMappings :: "port_mapping list"

section \<open>The local registry\<close>

type_synonym 'o local_registry = "sid \<rightharpoonup> 'o worker"

datatype registry_error = RegistryUnavailable

definition NewLocalRegistry :: "'o local_registry" where
  "NewLocalRegistry = Map.empty"

definition registry_Get :: "'o local_registry \<Rightarrow> sid \<Rightarrow> registry_error + 'o worker option" where
  "registry_Get r s = Inr (r s)"

definition registry_Put :: "'o local_registry \<Rightarrow> sid \<Rightarrow> 'o worker \<Rightarrow> registry_error option \<times> 'o local_registry" where
  "registry_Put r s w = (None, r(s \<mapsto> w))"

definition registry_Delete :: "'o local_registry \<Rightarrow> sid \<Rightarrow> registry_error option \<times> 'o local_registry" where
  "registry_Delete r s = (None, r(s := None))"

text \<open>\<open>List\<close> copies the entries into a new map.\<close>

definition registry_List :: "'o local_registry \<Rightarrow> registry_error + (sid \<rightharpoonup> 'o worker)" where
  "registry_List r = Inr (\<lambda>s. r s)"

definition registry_Len :: "'o local_registry \<Rightarrow> nat" where
  "registry_Len r = card (dom r)"

section \<open>The interface\<close>

locale session_registry =
  fixes empty :: 'r
    and inv :: "'r \<Rightarrow> bool"
    and Get :: "'r \<Rightarrow> sid \<Rightarrow> 'e + 'w option"
    and Put :: "'r \<Rightarrow> sid \<Rightarrow> 'w \<Rightarrow> 'e option \<times> 'r"
    and Delete :: "'r \<Rightarrow> sid \<Rightarrow> 'e option \<times> 'r"
    and List :: "'r \<Rightarrow> 'e + (sid \<rightharpoonup> 'w)"
    and Len :: "'r \<Rightarrow> nat"
  assumes inv_empty: "inv empty"
    and get_empty: "Get empty s = Inr None"
    and inv_put: "inv r \<Longrightarrow> Put r s w = (None, r') \<Longrightarrow> inv r'"
    and get_put: "inv r \<Longrightarrow> Put r s w = (None, r') \<Longrightarrow> Get r' t = (if t = s then Inr (Some w) else Get r t)"
    and inv_delete: "inv r \<Longrightarrow> Delete r s = (None, r') \<Longrightarrow> inv r'"
    and get_delete: "inv r \<Longrightarrow> Delete r s = (None, r') \<Longrightarrow> Get r' t = (if t = s then Inr None else Get r t)"
    and list_get: "List r = Inr m \<Longrightarrow> Get r s = Inr (m s)"
    and len_list: "inv r \<Longrightarrow> List r = Inr m \<Longrightarrow> Len r = card (dom m) \<and> finite (dom m)"
begin

text \<open>What a client may conclude: a pin is the whole effect of \<open>Put\<close>, and unpinning undoes it.\<close>

lemma put_delete_get:
  assumes "inv r" and "Put r s w = (None, r1)" and "Delete r1 s = (None, r2)" and "Get r s = Inr None"
  shows "Get r2 t = Get r t"
  using inv_put [OF assms(1,2)] get_put [OF assms(1,2)] get_delete [of r1 s r2 t] assms(3,4) by simp

lemma len_put_new:
  assumes "inv r" and "Get r s = Inr None" and "Put r s w = (None, r')"
    and "List r = Inr m" and "List r' = Inr m'"
  shows "Len r' = Suc (Len r)"
proof -
  have "m' = m(s \<mapsto> w)"
  proof
    fix t
    have "Inr (m' t) = (if t = s then Inr (Some w) else Inr (m t) :: 'e + 'w option)"
      using get_put [OF assms(1,3), of t] list_get [OF assms(4), of t] list_get [OF assms(5), of t] by simp
    then show "m' t = (m(s \<mapsto> w)) t" by (simp split: if_splits)
  qed
  moreover have "m s = None" using list_get [OF assms(4), of s] assms(2) by simp
  ultimately show ?thesis
    using len_list [OF assms(1,4)] len_list [OF inv_put [OF assms(1,3)] assms(5)]
    by (simp add: card_dom_upd_new del: dom_fun_upd)
qed

end

interpretation local_registry: session_registry NewLocalRegistry "\<lambda>r. finite (dom r)"
  registry_Get registry_Put registry_Delete registry_List registry_Len
  by unfold_locales
    (auto simp: NewLocalRegistry_def registry_Get_def registry_Put_def registry_Delete_def
      registry_List_def registry_Len_def)

end
