(* ===== verification/Host.thy ===== *)
theory Host
  imports Go_Strings
begin

text \<open>
  What the daemon asks of the machine it runs on.  Every call that leaves the program (a
  command, a netlink or file system operation, a containerd request, a process, a socket) is
  a value of \<open>call\<close>; the history of calls with their outcomes is the \<open>trace\<close>.  The outcomes
  come from an argument \<open>h\<close> of type \<open>host\<close>, which may answer differently each time as it sees
  the whole history.  \<open>bindE\<close> and its companions compose the model's actions the way Go code
  composes calls: test the error, return early, or go on.
\<close>

section \<open>Calls and outcomes\<close>

datatype host_err = NotFound | AlreadyExists | OtherErr string

datatype call =
    Cmd string "string list"
  | RouteList
  | LinkByIndex int
  | LinkAdd string int int
  | LinkByName string
  | LinkDel string
  | ParseAddr string
  | AddrAdd string string "string option"
  | LinkSetUp string
  | MkdirAll string
  | Mkdir string
  | Chown string int int
  | HardLink string string
  | StatFile string
  | Mknod string int
  | RemoveAll string
  | WriteFile string string
  | OpenLog string
  | OpenFile string
  | CreateFile string
  | CopyFile string string
  | CloseFile string
  | MkdirTemp
  | MountAll string string
  | Unmount string
  | StartProcess string "string list"
  | KillProcess string
  | DialVsock string nat
  | ConnClose string
  | GoExecute string "string list" "string list"
  | CancelWorker string
  | GetImage string
  | PullImage string
  | IsUnpacked string
  | UnpackImage string
  | ImageRootFS string
  | ImageConfigDesc string
  | ReadBlob string
  | LeaseCreate string
  | LeaseList string
  | LeaseDelete string
  | SnapStat string
  | SnapPrepare string string
  | SnapMounts string
  | SnapRemove string
  | MountFS string string string "string list" string
  | Symlink string string
  | RemoveFile string
  | ReadFile string
  | Truncate string int
  | RouteAdd string string
  | ListenVsock nat
  | AcceptVsock nat
  | RunWorkload string string "string list" "string list"
  | StartShell string string "string list"
  | WaitProcess string
  | PowerOff
  | DialUnix string
  | ConnWrite string string
  | ConnRead string
  | GrpcDial string string
  | GrpcConnect "(string \<times> string) list"
  | HttpGet string
  | ChmodFile string int
  | ListenUnix string
  | ListenTcp string
  | RawTerminal
  | RestoreTerminal

type_synonym trace = "(call \<times> host_err option) list"

text \<open>A route of the kernel's table: its destination (\<open>None\<close> for nil) and the link index.\<close>

record route =
  rt_Dst :: "ip option"
  rt_LinkIndex :: int

record mount =
  mnt_Source :: string
  mnt_Options :: "string list"

record image_config =
  ic_Entrypoint :: "string list"
  ic_Cmd :: "string list"
  ic_Env :: "string list"

text \<open>
  \<open>h_err\<close> gives the error of a call after a history, and each other field the data of one kind
  of call when it succeeds.
\<close>

record host =
  h_err :: "trace \<Rightarrow> call \<Rightarrow> host_err option"
  h_routes :: "trace \<Rightarrow> route list"
  h_linkName :: "trace \<Rightarrow> int \<Rightarrow> string"
  h_isDir :: "trace \<Rightarrow> string \<Rightarrow> bool"
  h_rdev :: "trace \<Rightarrow> string \<Rightarrow> int"
  h_tempDir :: "trace \<Rightarrow> string"
  h_unpacked :: "trace \<Rightarrow> string \<Rightarrow> bool"
  h_chainID :: "trace \<Rightarrow> string \<Rightarrow> string"
  h_imageConfig :: "trace \<Rightarrow> string \<Rightarrow> image_config option"
  h_leases :: "trace \<Rightarrow> string \<Rightarrow> string list"
  h_mounts :: "trace \<Rightarrow> string \<Rightarrow> mount list"

section \<open>Actions\<close>

type_synonym ('s, 'e, 'a) action = "'s \<Rightarrow> ('e + 'a) \<times> 's"

definition returnE :: "'a \<Rightarrow> ('s, 'e, 'a) action" where
  "returnE x s = (Inr x, s)"

definition failE :: "'e \<Rightarrow> ('s, 'e, 'a) action" where
  "failE e s = (Inl e, s)"

definition bindE :: "('s, 'e, 'a) action \<Rightarrow> ('a \<Rightarrow> ('s, 'e, 'b) action) \<Rightarrow> ('s, 'e, 'b) action" where
  "bindE m k s = (case m s of (Inl e, s') \<Rightarrow> (Inl e, s') | (Inr x, s') \<Rightarrow> k x s')"

definition thenE :: "('s, 'e, 'a) action \<Rightarrow> ('s, 'e, 'b) action \<Rightarrow> ('s, 'e, 'b) action" where
  "thenE m k = bindE m (\<lambda>_. k)"

text \<open>\<open>_ = f()\<close>: the error is dropped.\<close>

definition ignoreE :: "('s, 'd, 'a) action \<Rightarrow> ('s, 'e, unit) action" where
  "ignoreE m s = (Inr (), snd (m s))"

text \<open>The result and the error of a call as a value, for code that looks at the error itself.\<close>

definition tryE :: "('s, 'd, 'a) action \<Rightarrow> ('s, 'e, 'd + 'a) action" where
  "tryE m s = (case m s of (r, s') \<Rightarrow> (Inr r, s'))"

text \<open>\<open>fmt.Errorf\<close> around an error.\<close>

definition wrapE :: "('d \<Rightarrow> 'e) \<Rightarrow> ('s, 'd, 'a) action \<Rightarrow> ('s, 'e, 'a) action" where
  "wrapE f m s = (case m s of (Inl e, s') \<Rightarrow> (Inl (f e), s') | (Inr x, s') \<Rightarrow> (Inr x, s'))"

text \<open>Code that runs \<open>d\<close> on every way out of \<open>m\<close>.\<close>

definition deferE :: "('s, 'd, 'b) action \<Rightarrow> ('s, 'e, 'a) action \<Rightarrow> ('s, 'e, 'a) action" where
  "deferE d m s = (case m s of (r, s') \<Rightarrow> (r, snd (d s')))"

primrec forE :: "'x list \<Rightarrow> ('x \<Rightarrow> ('s, 'e, unit) action) \<Rightarrow> ('s, 'e, unit) action" where
  "forE [] f = returnE ()"
| "forE (x # xs) f = thenE (f x) (forE xs f)"

definition perform :: "host \<Rightarrow> call \<Rightarrow> (trace, host_err, unit) action" where
  "perform h c tr = (case h_err h tr c of
       None \<Rightarrow> (Inr (), tr @ [(c, None)])
     | Some e \<Rightarrow> (Inl e, tr @ [(c, Some e)]))"

text \<open>A call whose data is read from the host at the time of the call.\<close>

definition performG :: "host \<Rightarrow> call \<Rightarrow> (trace \<Rightarrow> 'a) \<Rightarrow> (trace, host_err, 'a) action" where
  "performG h c get tr = (case perform h c tr of (Inl e, tr') \<Rightarrow> (Inl e, tr') | (Inr _, tr') \<Rightarrow> (Inr (get tr), tr'))"

text \<open>The same equations by the two components of the result.\<close>

lemma bindE_alt: "bindE m k s = (case fst (m s) of Inl e \<Rightarrow> (Inl e, snd (m s)) | Inr x \<Rightarrow> k x (snd (m s)))"
  by (simp add: bindE_def split: prod.splits sum.splits)

lemma tryE_alt: "tryE m s = (Inr (fst (m s)), snd (m s))"
  by (simp add: tryE_def split: prod.splits)

lemma wrapE_alt: "wrapE f m s = (case fst (m s) of Inl e \<Rightarrow> (Inl (f e), snd (m s)) | Inr x \<Rightarrow> (Inr x, snd (m s)))"
  by (simp add: wrapE_def split: prod.splits sum.splits)

lemma deferE_alt: "deferE d m s = (fst (m s), snd (d (snd (m s))))"
  by (simp add: deferE_def split: prod.splits)

lemma thenE_assoc: "thenE (thenE a b) c = thenE a (thenE b c)"
  by (rule ext) (simp add: thenE_def bindE_def split: prod.splits sum.splits)

lemmas action_alts = bindE_alt tryE_alt wrapE_alt deferE_alt

lemmas action_defs = returnE_def failE_def bindE_def thenE_def ignoreE_def tryE_def wrapE_def deferE_def

text \<open>
  A command with its combined output, and a file with its contents; \<open>out\<close> gives the text that a
  call produces, also when it fails.
\<close>

definition run_out :: "host \<Rightarrow> (trace \<Rightarrow> call \<Rightarrow> string) \<Rightarrow> call \<Rightarrow> (trace, 'e, string \<times> host_err option) action" where
  "run_out h out c tr = (Inr (out tr c, h_err h tr c), tr @ [(c, h_err h tr c)])"

text \<open>At most \<open>n\<close> attempts of an action; the error of the last one.\<close>

fun retryE :: "nat \<Rightarrow> ('s, 'e, 'a) action \<Rightarrow> ('s, 'e, 'a) action" where
  "retryE 0 m = m"
| "retryE (Suc n) m = (\<lambda>s. case m s of (Inr x, s') \<Rightarrow> (Inr x, s') | (Inl e, s') \<Rightarrow> retryE n m s')"

section \<open>Histories only grow\<close>

text \<open>
  \<open>emits pr P m\<close>: whatever its outcome, the action only appends to the trace (\<open>pr\<close> selects it in
  the state), and the calls it appends all satisfy \<open>P\<close>.
\<close>

definition emits :: "('s \<Rightarrow> trace) \<Rightarrow> (call \<Rightarrow> bool) \<Rightarrow> ('s, 'e, 'a) action \<Rightarrow> bool" where
  "emits pr P m \<longleftrightarrow> (\<forall>s. \<exists>new. pr (snd (m s)) = pr s @ new \<and> list_all (\<lambda>x. P (fst x)) new)"

named_theorems emits_intros "closure rules of emits"

lemma emitsI: "(\<And>s. \<exists>new. pr (snd (m s)) = pr s @ new \<and> list_all (\<lambda>x. P (fst x)) new) \<Longrightarrow> emits pr P m"
  by (simp add: emits_def)

lemma emitsE:
  assumes "emits pr P m"
  obtains new where "pr (snd (m s)) = pr s @ new" "list_all (\<lambda>x. P (fst x)) new"
  using assms unfolding emits_def by blast

lemma emits_perform [emits_intros]: "P c \<Longrightarrow> emits (\<lambda>t. t) P (perform h c)"
  by (auto simp: emits_def perform_def split: option.splits)

lemma emits_performG [emits_intros]: "P c \<Longrightarrow> emits (\<lambda>t. t) P (performG h c get)"
  by (auto simp: emits_def perform_def performG_def split: option.splits)

lemma emits_run_out [emits_intros]: "P c \<Longrightarrow> emits (\<lambda>t. t) P (run_out h out c)"
  by (simp add: emits_def run_out_def)

lemma emits_retry [emits_intros]: "emits pr P m \<Longrightarrow> emits pr P (retryE n m)"
proof (induction n)
  case (Suc n)
  show ?case
  proof (rule emitsI)
    fix s
    obtain r s1 where m: "m s = (r, s1)" by (cases "m s")
    from Suc.prems obtain a where a: "pr s1 = pr s @ a" "list_all (\<lambda>x. P (fst x)) a"
      using m by (auto elim: emitsE [where s = s])
    from Suc obtain b where "pr (snd (retryE n m s1)) = pr s1 @ b" "list_all (\<lambda>x. P (fst x)) b"
      by (auto elim: emitsE [where s = s1])
    with m a show "\<exists>new. pr (snd (retryE (Suc n) m s)) = pr s @ new \<and> list_all (\<lambda>x. P (fst x)) new"
      by (cases r) simp_all
  qed
qed simp

lemma emits_return [emits_intros]: "emits pr P (returnE x)" "emits pr P (failE e)"
  by (simp_all add: emits_def returnE_def failE_def)

lemma emits_bind [emits_intros]:
  assumes "emits pr P m" and "\<And>x. emits pr P (k x)"
  shows "emits pr P (bindE m k)"
proof (rule emitsI)
  fix s
  obtain r s1 where m: "m s = (r, s1)" by (cases "m s")
  with assms(1) obtain a where a: "pr s1 = pr s @ a" "list_all (\<lambda>x. P (fst x)) a"
    by (auto elim: emitsE [where s = s])
  show "\<exists>new. pr (snd (bindE m k s)) = pr s @ new \<and> list_all (\<lambda>x. P (fst x)) new"
  proof (cases r)
    case (Inl e)
    with m a show ?thesis by (simp add: bindE_def)
  next
    case (Inr x)
    from assms(2) [of x] obtain b where "pr (snd (k x s1)) = pr s1 @ b" "list_all (\<lambda>x. P (fst x)) b"
      by (rule emitsE [where s = s1])
    with Inr m a show ?thesis by (simp add: bindE_def)
  qed
qed

lemma emits_then [emits_intros]: "emits pr P m \<Longrightarrow> emits pr P k \<Longrightarrow> emits pr P (thenE m k)"
  by (simp add: thenE_def emits_bind)

lemma emits_ignore [emits_intros]: "emits pr P m \<Longrightarrow> emits pr P (ignoreE m)"
  by (simp add: emits_def ignoreE_def)

lemma snd_tryE [simp]: "snd (tryE m s) = snd (m s)"
  by (simp add: tryE_def split: prod.splits)

lemma snd_wrapE [simp]: "snd (wrapE f m s) = snd (m s)"
  by (simp add: wrapE_def split: prod.splits sum.splits)

lemma emits_try [emits_intros]: "emits pr P m \<Longrightarrow> emits pr P (tryE m)"
  by (simp add: emits_def)

lemma emits_wrap [emits_intros]: "emits pr P m \<Longrightarrow> emits pr P (wrapE f m)"
  by (simp add: emits_def)

lemma emits_defer [emits_intros]:
  assumes "emits pr P d" and "emits pr P m"
  shows "emits pr P (deferE d m)"
proof (rule emitsI)
  fix s
  obtain r s1 where m: "m s = (r, s1)" by (cases "m s")
  from assms(2) obtain a where a: "pr s1 = pr s @ a" "list_all (\<lambda>x. P (fst x)) a"
    using m by (auto elim: emitsE [where s = s])
  from assms(1) obtain b where "pr (snd (d s1)) = pr s1 @ b" "list_all (\<lambda>x. P (fst x)) b"
    by (rule emitsE [where s = s1])
  with m a show "\<exists>new. pr (snd (deferE d m s)) = pr s @ new \<and> list_all (\<lambda>x. P (fst x)) new"
    by (simp add: deferE_def)
qed

lemma emits_for [emits_intros]: "(\<And>x. emits pr P (f x)) \<Longrightarrow> emits pr P (forE xs f)"
  by (induction xs) (auto intro: emits_intros)

lemma emits_if [emits_intros]: "(b \<Longrightarrow> emits pr P m) \<Longrightarrow> (\<not> b \<Longrightarrow> emits pr P n) \<Longrightarrow> emits pr P (if b then m else n)"
  by simp

lemma emits_option [emits_intros]:
  "emits pr P m \<Longrightarrow> (\<And>x. emits pr P (k x)) \<Longrightarrow> emits pr P (case v of None \<Rightarrow> m | Some x \<Rightarrow> k x)"
  by (simp split: option.splits)

lemma emits_sum [emits_intros]:
  "(\<And>x. emits pr P (m x)) \<Longrightarrow> (\<And>x. emits pr P (k x)) \<Longrightarrow> emits pr P (case v of Inl x \<Rightarrow> m x | Inr x \<Rightarrow> k x)"
  by (simp split: sum.splits)

lemma emits_let [emits_intros]: "(\<And>x. emits pr P (f x)) \<Longrightarrow> emits pr P (let x = v in f x)"
  by (simp add: Let_def)

end
