(* ===== verification/Host_Nat.thy ===== *)
theory Host_Nat
  imports Host
begin

text \<open>
  Host networking, \<open>internal/network/nat.go\<close>: NAT bootstrap and teardown, TAP devices, and the
  iptables rules of port mappings.  The rule a command appends or deletes is read off its
  arguments; \<open>balance\<close> counts, over a trace, the successful appends of a rule less its
  successful deletes.
\<close>

section \<open>Model\<close>

datatype nat_error =
    NetlinkListRoutes host_err
  | NetlinkLinkByIndex int host_err
  | NoDefaultRoute
  | DetectInterface nat_error
  | CmdFailed string "string list" host_err
  | AddTap string host_err
  | FindTap string host_err
  | ParseTapAddr string host_err
  | InvalidIPs string string
  | TapAddrAdd string string host_err
  | SetTapUp string host_err
  | DnatAdd nat_error
  | ForwardAdd nat_error

definition Subnet :: string where
  "Subnet = ''10.200.0.0/16''"

definition runCmd :: "host \<Rightarrow> string \<Rightarrow> string list \<Rightarrow> (trace, nat_error, unit) action" where
  "runCmd h name args = wrapE (CmdFailed name args) (perform h (Cmd name args))"

fun default_route :: "host \<Rightarrow> route list \<Rightarrow> (trace, nat_error, string) action" where
  "default_route h [] = failE NoDefaultRoute"
| "default_route h (r # routes) =
     (if (case rt_Dst r of None \<Rightarrow> True | Some a \<Rightarrow> To4 a = Some [0, 0, 0, 0]) \<and> rt_LinkIndex r \<noteq> 0 then
        wrapE (NetlinkLinkByIndex (rt_LinkIndex r))
          (performG h (LinkByIndex (rt_LinkIndex r)) (\<lambda>tr. h_linkName h tr (rt_LinkIndex r)))
      else default_route h routes)"

definition getDefaultInterface :: "host \<Rightarrow> (trace, nat_error, string) action" where
  "getDefaultInterface h =
     bindE (wrapE NetlinkListRoutes (performG h RouteList (h_routes h))) (default_route h)"

definition privNets :: "string list" where
  "privNets = [''10.0.0.0/8'', ''172.16.0.0/12'', ''192.168.0.0/16'']"

definition Bootstrap :: "host \<Rightarrow> (trace, nat_error, unit) action" where
  "Bootstrap h =
     bindE (wrapE DetectInterface (getDefaultInterface h)) (\<lambda>iface.
     thenE (runCmd h ''sysctl'' [''-w'', ''net.ipv4.ip_forward=1''])
    (thenE (runCmd h ''sysctl'' [''-w'', ''net.ipv4.conf.all.route_localnet=1''])
    (thenE (runCmd h ''iptables'' [''-t'', ''nat'', ''-A'', ''POSTROUTING'', ''-o'', iface, ''-s'', Subnet, ''-j'', ''MASQUERADE''])
    (thenE (runCmd h ''iptables'' [''-A'', ''FORWARD'', ''-m'', ''conntrack'', ''--ctstate'', ''RELATED,ESTABLISHED'', ''-j'', ''ACCEPT''])
    (thenE (runCmd h ''iptables'' [''-t'', ''nat'', ''-A'', ''POSTROUTING'', ''-d'', Subnet, ''-m'', ''addrtype'', ''--src-type'', ''LOCAL'', ''-j'', ''MASQUERADE''])
    (thenE (forE privNets (\<lambda>privNet. runCmd h ''iptables'' [''-A'', ''FORWARD'', ''-s'', Subnet, ''-d'', privNet, ''-j'', ''DROP'']))
           (runCmd h ''iptables'' [''-A'', ''FORWARD'', ''-s'', Subnet, ''-o'', iface, ''-j'', ''ACCEPT''])))))))"

definition Teardown :: "host \<Rightarrow> (trace, nat_error, unit) action" where
  "Teardown h =
     bindE (wrapE DetectInterface (getDefaultInterface h)) (\<lambda>iface.
     thenE (ignoreE (runCmd h ''iptables'' [''-t'', ''nat'', ''-D'', ''POSTROUTING'', ''-o'', iface, ''-s'', Subnet, ''-j'', ''MASQUERADE'']))
    (thenE (ignoreE (runCmd h ''iptables'' [''-t'', ''nat'', ''-D'', ''POSTROUTING'', ''-d'', Subnet, ''-m'', ''addrtype'', ''--src-type'', ''LOCAL'', ''-j'', ''MASQUERADE'']))
    (thenE (ignoreE (runCmd h ''iptables'' [''-D'', ''FORWARD'', ''-m'', ''conntrack'', ''--ctstate'', ''RELATED,ESTABLISHED'', ''-j'', ''ACCEPT'']))
    (thenE (forE privNets (\<lambda>privNet. ignoreE (runCmd h ''iptables'' [''-D'', ''FORWARD'', ''-s'', Subnet, ''-d'', privNet, ''-j'', ''DROP''])))
           (ignoreE (runCmd h ''iptables'' [''-D'', ''FORWARD'', ''-s'', Subnet, ''-o'', iface, ''-j'', ''ACCEPT'']))))))"

text \<open>On an error after the link was found, the link is deleted again.\<close>

definition orDelete :: "host \<Rightarrow> string \<Rightarrow> (trace, nat_error, unit) action \<Rightarrow> (trace, nat_error, unit) action" where
  "orDelete h name m = bindE (tryE m) (\<lambda>r. case r of
       Inl e \<Rightarrow> thenE (ignoreE (perform h (LinkDel name))) (failE e) | Inr _ \<Rightarrow> returnE ())"

definition CreateTap :: "host \<Rightarrow> string \<Rightarrow> string \<Rightarrow> (trace, nat_error, unit) action" where
  "CreateTap h name ipAddr =
     thenE (wrapE (AddTap name) (perform h (LinkAdd name 0 0)))
    (thenE (wrapE (FindTap name) (perform h (LinkByName name)))
    (thenE (orDelete h name (wrapE (ParseTapAddr ipAddr) (perform h (ParseAddr ipAddr))))
    (thenE (orDelete h name (wrapE (TapAddrAdd ipAddr name) (perform h (AddrAdd name ipAddr None))))
           (orDelete h name (wrapE (SetTapUp name) (perform h (LinkSetUp name)))))))"

definition CreatePointToPointTap :: "host \<Rightarrow> string \<Rightarrow> string \<Rightarrow> string \<Rightarrow> int \<Rightarrow> int \<Rightarrow> (trace, nat_error, unit) action" where
  "CreatePointToPointTap h name hostIP guestIP uid gid =
     thenE (wrapE (AddTap name) (perform h (LinkAdd name (uid mod 2 ^ 32) (gid mod 2 ^ 32))))
    (thenE (wrapE (FindTap name) (perform h (LinkByName name)))
    (thenE (orDelete h name (if ParseIP hostIP = None \<or> ParseIP guestIP = None then failE (InvalidIPs hostIP guestIP) else returnE ()))
    (thenE (orDelete h name (wrapE (TapAddrAdd hostIP name) (perform h (AddrAdd name hostIP (Some guestIP)))))
           (orDelete h name (wrapE (SetTapUp name) (perform h (LinkSetUp name)))))))"

definition DeleteTap :: "host \<Rightarrow> string \<Rightarrow> (trace, host_err, unit) action" where
  "DeleteTap h name = bindE (tryE (perform h (LinkByName name))) (\<lambda>r. case r of
       Inl _ \<Rightarrow> returnE () | Inr _ \<Rightarrow> perform h (LinkDel name))"

section \<open>Port mappings\<close>

definition any_interface :: "string \<Rightarrow> bool" where
  "any_interface iface \<longleftrightarrow> \<not> (iface \<noteq> '''' \<and> iface \<noteq> ''0.0.0.0'')"

definition dnatArgs :: "string \<Rightarrow> string \<Rightarrow> int \<Rightarrow> string \<Rightarrow> int \<Rightarrow> string \<Rightarrow> string list" where
  "dnatArgs oper hostInterface hostPort guestIP guestPort protocol =
     [''-t'', ''nat'', oper, ''PREROUTING'', ''-p'', protocol] @
     (if \<not> any_interface hostInterface
      then (if ParseIP hostInterface \<noteq> None then [''-d'', hostInterface] else [''-i'', hostInterface])
      else [''-m'', ''addrtype'', ''--dst-type'', ''LOCAL'']) @
     [''--dport'', itoa hostPort, ''-j'', ''DNAT'', ''--to-destination'', guestIP @ '':'' @ itoa guestPort]"

definition outputArgs :: "string \<Rightarrow> int \<Rightarrow> string \<Rightarrow> int \<Rightarrow> string \<Rightarrow> string list" where
  "outputArgs oper hostPort guestIP guestPort protocol =
     [''-t'', ''nat'', oper, ''OUTPUT'', ''-p'', protocol, ''-m'', ''addrtype'', ''--dst-type'', ''LOCAL'',
      ''--dport'', itoa hostPort, ''-j'', ''DNAT'', ''--to-destination'', guestIP @ '':'' @ itoa guestPort]"

definition fwdArgs :: "string \<Rightarrow> string \<Rightarrow> int \<Rightarrow> string \<Rightarrow> string list" where
  "fwdArgs oper guestIP guestPort protocol =
     [oper, ''FORWARD'', ''-p'', protocol, ''!'', ''-s'', Subnet, ''-d'', guestIP, ''--dport'', itoa guestPort, ''-j'', ''ACCEPT'']"

definition local_interface :: "string \<Rightarrow> bool" where
  "local_interface iface \<longleftrightarrow> iface = '''' \<or> iface = ''0.0.0.0'' \<or> iface = ''127.0.0.1''"

definition default_protocol :: "string \<Rightarrow> string" where
  "default_protocol p = (if p = '''' then ''tcp'' else p)"

definition AddPortMapping :: "host \<Rightarrow> string \<Rightarrow> int \<Rightarrow> string \<Rightarrow> int \<Rightarrow> string \<Rightarrow> (trace, nat_error, unit) action" where
  "AddPortMapping h hostInterface hostPort guestIP guestPort protocol0 =
     (let protocol = default_protocol protocol0;
          dnat = dnatArgs ''-A'' hostInterface hostPort guestIP guestPort protocol
      in thenE (wrapE DnatAdd (runCmd h ''iptables'' dnat))
        (thenE (if local_interface hostInterface
                then ignoreE (runCmd h ''iptables'' (outputArgs ''-A'' hostPort guestIP guestPort protocol))
                else returnE ())
        (bindE (tryE (runCmd h ''iptables'' (fwdArgs ''-A'' guestIP guestPort protocol))) (\<lambda>r. case r of
            Inl e \<Rightarrow>
              thenE (ignoreE (runCmd h ''iptables'' (dnat[2 := ''-D''])))
             (thenE (ignoreE (runCmd h ''iptables'' (outputArgs ''-D'' hostPort guestIP guestPort protocol)))
                    (failE (ForwardAdd e)))
          | Inr _ \<Rightarrow> returnE ()))))"

definition RemovePortMapping :: "host \<Rightarrow> string \<Rightarrow> int \<Rightarrow> string \<Rightarrow> int \<Rightarrow> string \<Rightarrow> (trace, nat_error, unit) action" where
  "RemovePortMapping h hostInterface hostPort guestIP guestPort protocol0 =
     (let protocol = default_protocol protocol0
      in thenE (ignoreE (runCmd h ''iptables'' (dnatArgs ''-D'' hostInterface hostPort guestIP guestPort protocol)))
        (thenE (if local_interface hostInterface
                then ignoreE (runCmd h ''iptables'' (outputArgs ''-D'' hostPort guestIP guestPort protocol))
                else returnE ())
        (thenE (ignoreE (runCmd h ''iptables'' (fwdArgs ''-D'' guestIP guestPort protocol)))
               (returnE ()))))"

section \<open>Rules\<close>

text \<open>A rule: its table, and its chain with the match and the target.\<close>

type_synonym rule = "string \<times> string list"

text \<open>The operation (\<open>-A\<close> or \<open>-D\<close>) and the rule of an iptables command line as herd writes it.\<close>

definition ipt_op :: "string list \<Rightarrow> string \<times> rule" where
  "ipt_op args = (if hd args = ''-t'' then (args ! 2, (args ! 1, drop 3 args))
     else (hd args, (''filter'', tl args)))"

fun delta :: "rule \<Rightarrow> call \<times> host_err option \<Rightarrow> int" where
  "delta r (Cmd name args, None) =
     (if name = ''iptables'' \<and> ipt_op args = (''-A'', r) then 1
      else if name = ''iptables'' \<and> ipt_op args = (''-D'', r) then - 1 else 0)"
| "delta r _ = 0"

definition balance :: "trace \<Rightarrow> rule \<Rightarrow> int" where
  "balance tr r = sum_list (map (delta r) tr)"

text \<open>
  What herd relies on of iptables: \<open>-D\<close> deletes one copy of a rule that is in the table and
  fails when there is none.  \<open>base\<close> counts the copies in the tables before the trace starts.
\<close>

definition iptables_deletes :: "(rule \<Rightarrow> int) \<Rightarrow> host \<Rightarrow> bool" where
  "iptables_deletes base h \<longleftrightarrow> (\<forall>tr args r. ipt_op args = (''-D'', r) \<longrightarrow>
     (h_err h tr (Cmd ''iptables'' args) = None \<longleftrightarrow> 0 < base r + balance tr r))"

lemma iptables_deletesD:
  "iptables_deletes base h \<Longrightarrow> ipt_op args = (''-D'', r) \<Longrightarrow>
     h_err h tr (Cmd ''iptables'' args) = None \<longleftrightarrow> 0 < base r + balance tr r"
  unfolding iptables_deletes_def by blast

lemma balance_append [simp]: "balance (tr @ tr') r = balance tr r + balance tr' r"
  by (simp add: balance_def)

lemma balance_single [simp]: "balance [x] r = delta r x"
  by (simp add: balance_def)

lemma balance_runCmd:
  "balance (snd (runCmd h ''iptables'' args tr)) r =
     balance tr r + (if h_err h tr (Cmd ''iptables'' args) = None then delta r (Cmd ''iptables'' args, None) else 0)"
  by (simp add: runCmd_def perform_def split: option.splits)

lemma fst_runCmd: "(fst (runCmd h n args tr) = Inr ()) \<longleftrightarrow> h_err h tr (Cmd n args) = None"
  by (simp add: runCmd_def wrapE_def perform_def split: option.splits)

lemma fst_runCmd_cases:
  "h_err h tr (Cmd n args) = None \<Longrightarrow> fst (runCmd h n args tr) = Inr ()"
  "h_err h tr (Cmd n args) = Some e \<Longrightarrow> fst (runCmd h n args tr) = Inl (CmdFailed n args e)"
  by (simp_all add: runCmd_def wrapE_def perform_def)

text \<open>Running deletes whose rules are all there takes each of them out once.\<close>

lemma balance_deletes:
  assumes "iptables_deletes base h"
    and "list_all (\<lambda>a. fst (ipt_op a) = ''-D'') dels"
    and "\<And>r. int (count (mset (map (\<lambda>a. snd (ipt_op a)) dels)) r) \<le> base r + balance tr r"
  shows "balance (snd (forE dels (\<lambda>a. ignoreE (runCmd h ''iptables'' a)) tr)) r =
    balance tr r - int (count (mset (map (\<lambda>a. snd (ipt_op a)) dels)) r)"
  using assms(2,3)
proof (induction dels arbitrary: tr)
  case Nil
  then show ?case by (simp add: returnE_def)
next
  case (Cons a dels)
  obtain q where q: "ipt_op a = (''-D'', q)" using Cons.prems(1) by (cases "ipt_op a") simp
  have "0 < base q + balance tr q" using Cons.prems(2) [of q] q by simp
  then have ok: "h_err h tr (Cmd ''iptables'' a) = None"
    using iptables_deletesD [OF assms(1) q] by simp
  let ?tr = "snd (runCmd h ''iptables'' a tr)"
  have b: "balance ?tr r = balance tr r - (if r = q then 1 else 0)" for r
    using ok q by (auto simp: balance_runCmd)
  have "list_all (\<lambda>a. fst (ipt_op a) = ''-D'') dels" using Cons.prems(1) by simp
  moreover have "int (count (mset (map (\<lambda>a. snd (ipt_op a)) dels)) r) \<le> base r + balance ?tr r" for r
    using Cons.prems(2) [of r] b [of r] q by (simp split: if_splits)
  ultimately show ?case
    using Cons.IH [of ?tr] b [of r] q by (simp add: thenE_def bindE_def ignoreE_def)
qed

text \<open>Running commands until one fails: when none did, all of them count.\<close>

lemma balance_adds:
  assumes "fst (forE adds (\<lambda>a. runCmd h ''iptables'' a) tr) = Inr ()"
    and "list_all (\<lambda>a. fst (ipt_op a) = ''-A'') adds"
  shows "balance (snd (forE adds (\<lambda>a. runCmd h ''iptables'' a) tr)) r =
    balance tr r + int (count (mset (map (\<lambda>a. snd (ipt_op a)) adds)) r)"
  using assms
proof (induction adds arbitrary: tr)
  case Nil
  then show ?case by (simp add: returnE_def)
next
  case (Cons a adds)
  obtain q where q: "ipt_op a = (''-A'', q)" using Cons.prems(2) by (cases "ipt_op a") simp
  obtain x tr1 where r: "runCmd h ''iptables'' a tr = (x, tr1)" by (cases "runCmd h ''iptables'' a tr")
  with Cons.prems(1) have x: "x = Inr ()" by (cases x) (simp_all add: thenE_def bindE_def)
  then have "h_err h tr (Cmd ''iptables'' a) = None" using r fst_runCmd [of h "''iptables''" a tr] by simp
  then have "balance tr1 r = balance tr r + (if r = q then 1 else 0)" for r
    using balance_runCmd [of h a tr r] r q by auto
  moreover have "balance (snd (forE adds (\<lambda>a. runCmd h ''iptables'' a) tr1)) r =
      balance tr1 r + int (count (mset (map (\<lambda>a. snd (ipt_op a)) adds)) r)"
    by (rule Cons.IH) (use Cons.prems r x in \<open>simp_all add: thenE_def bindE_def\<close>)
  ultimately show ?case using r x q by (simp add: thenE_def bindE_def)
qed

lemma thenE_return: "thenE (returnE ()) m = m" "thenE n (returnE ()) = n"
  by (rule ext, simp add: thenE_def bindE_def returnE_def split: prod.splits sum.splits)+

lemma forE_append: "forE (xs @ ys) f = thenE (forE xs f) (forE ys f)"
  by (induction xs) (simp_all add: thenE_assoc thenE_return)

lemma forE_map: "forE (map g xs) f = forE xs (\<lambda>x. f (g x))"
  by (induction xs) simp_all

text \<open>The iptables part of \<open>Bootstrap\<close> and of \<open>Teardown\<close> as lists of commands.\<close>

definition bootstrap_rules :: "string \<Rightarrow> string list list" where
  "bootstrap_rules iface =
     [[''-t'', ''nat'', ''-A'', ''POSTROUTING'', ''-o'', iface, ''-s'', Subnet, ''-j'', ''MASQUERADE''],
      [''-A'', ''FORWARD'', ''-m'', ''conntrack'', ''--ctstate'', ''RELATED,ESTABLISHED'', ''-j'', ''ACCEPT''],
      [''-t'', ''nat'', ''-A'', ''POSTROUTING'', ''-d'', Subnet, ''-m'', ''addrtype'', ''--src-type'', ''LOCAL'', ''-j'', ''MASQUERADE'']] @
     map (\<lambda>privNet. [''-A'', ''FORWARD'', ''-s'', Subnet, ''-d'', privNet, ''-j'', ''DROP'']) privNets @
     [[''-A'', ''FORWARD'', ''-s'', Subnet, ''-o'', iface, ''-j'', ''ACCEPT'']]"

definition teardown_rules :: "string \<Rightarrow> string list list" where
  "teardown_rules iface =
     [[''-t'', ''nat'', ''-D'', ''POSTROUTING'', ''-o'', iface, ''-s'', Subnet, ''-j'', ''MASQUERADE''],
      [''-t'', ''nat'', ''-D'', ''POSTROUTING'', ''-d'', Subnet, ''-m'', ''addrtype'', ''--src-type'', ''LOCAL'', ''-j'', ''MASQUERADE''],
      [''-D'', ''FORWARD'', ''-m'', ''conntrack'', ''--ctstate'', ''RELATED,ESTABLISHED'', ''-j'', ''ACCEPT'']] @
     map (\<lambda>privNet. [''-D'', ''FORWARD'', ''-s'', Subnet, ''-d'', privNet, ''-j'', ''DROP'']) privNets @
     [[''-D'', ''FORWARD'', ''-s'', Subnet, ''-o'', iface, ''-j'', ''ACCEPT'']]"

lemma Bootstrap_alt:
  "Bootstrap h = bindE (wrapE DetectInterface (getDefaultInterface h)) (\<lambda>iface.
     thenE (runCmd h ''sysctl'' [''-w'', ''net.ipv4.ip_forward=1''])
    (thenE (runCmd h ''sysctl'' [''-w'', ''net.ipv4.conf.all.route_localnet=1''])
    (forE (bootstrap_rules iface) (\<lambda>a. runCmd h ''iptables'' a))))"
  unfolding Bootstrap_def bootstrap_rules_def forE_append forE_map forE.simps(2)
  by (simp add: thenE_assoc thenE_return)

lemma Teardown_alt:
  "Teardown h = bindE (wrapE DetectInterface (getDefaultInterface h)) (\<lambda>iface.
     forE (teardown_rules iface) (\<lambda>a. ignoreE (runCmd h ''iptables'' a)))"
  unfolding Teardown_def teardown_rules_def forE_append forE_map forE.simps(2)
  by (simp add: thenE_assoc thenE_return)

text \<open>\<open>Teardown\<close> deletes exactly the rules that \<open>Bootstrap\<close> appends.\<close>

lemma teardown_mirrors_bootstrap:
  "mset (map (\<lambda>a. snd (ipt_op a)) (teardown_rules iface)) =
   mset (map (\<lambda>a. snd (ipt_op a)) (bootstrap_rules iface))"
  by (simp add: teardown_rules_def bootstrap_rules_def ipt_op_def privNets_def)

lemma bootstrap_ops: "list_all (\<lambda>a. fst (ipt_op a) = ''-A'') (bootstrap_rules iface)"
  by (simp add: bootstrap_rules_def ipt_op_def privNets_def)

lemma teardown_ops: "list_all (\<lambda>a. fst (ipt_op a) = ''-D'') (teardown_rules iface)"
  by (simp add: teardown_rules_def ipt_op_def privNets_def)

lemma Inr_bindE:
  "fst (bindE m k s) = Inr y \<longleftrightarrow> (\<exists>x s'. m s = (Inr x, s') \<and> fst (k x s') = Inr y)"
  by (auto simp: bindE_def split: prod.splits sum.splits)


lemma balance_no_iptables:
  "list_all (\<lambda>x. \<forall>args. fst x \<noteq> Cmd ''iptables'' args) new \<Longrightarrow> balance new r = 0"
proof (induction new)
  case (Cons x new)
  have "delta r x = 0" using Cons.prems by (cases "(r, x)" rule: delta.cases) auto
  with Cons show ?case by (simp add: balance_def)
qed (simp add: balance_def)

definition not_iptables :: "call \<Rightarrow> bool" where
  "not_iptables c \<longleftrightarrow> (\<forall>args. c \<noteq> Cmd ''iptables'' args)"

lemma emits_balance: "emits (\<lambda>t. t) not_iptables m \<Longrightarrow> balance (snd (m tr)) r = balance tr r"
  by (auto elim!: emitsE [where s = tr] simp: not_iptables_def balance_no_iptables)

lemma emits_default_route [emits_intros]: "emits (\<lambda>t. t) not_iptables (default_route h routes)"
  by (induction h routes rule: default_route.induct) (auto simp: not_iptables_def intro!: emits_intros)

lemma emits_getDefaultInterface [emits_intros]: "emits (\<lambda>t. t) not_iptables (getDefaultInterface h)"
  unfolding getDefaultInterface_def by (intro emits_intros) (simp add: not_iptables_def)

lemma emits_sysctl [emits_intros]: "emits (\<lambda>t. t) not_iptables (runCmd h ''sysctl'' args)"
  unfolding runCmd_def by (intro emits_intros) (simp add: not_iptables_def)

lemma Bootstrap_balance:
  assumes "fst (Bootstrap h tr) = Inr ()"
  shows "\<exists>iface tr0. fst (getDefaultInterface h tr0) = Inr iface \<and>
    (\<forall>r. balance (snd (Bootstrap h tr)) r =
      balance tr r + int (count (mset (map (\<lambda>a. snd (ipt_op a)) (bootstrap_rules iface))) r))"
proof -
  let ?g = "wrapE DetectInterface (getDefaultInterface h)"
  let ?c1 = "runCmd h ''sysctl'' [''-w'', ''net.ipv4.ip_forward=1'']"
  let ?c2 = "runCmd h ''sysctl'' [''-w'', ''net.ipv4.conf.all.route_localnet=1'']"
  let ?f = "\<lambda>iface. forE (bootstrap_rules iface) (\<lambda>a. runCmd h ''iptables'' a)"
  obtain iface t1 t2 t3 where g: "?g tr = (Inr iface, t1)" and c1: "?c1 t1 = (Inr (), t2)"
    and c2: "?c2 t2 = (Inr (), t3)" and f: "fst (?f iface t3) = Inr ()"
    using assms unfolding Bootstrap_alt thenE_def Inr_bindE by auto
  have b: "balance t1 r = balance tr r" "balance t2 r = balance t1 r" "balance t3 r = balance t2 r" for r
    using emits_balance [of ?g tr r] emits_balance [of ?c1 t1 r] emits_balance [of ?c2 t2 r] g c1 c2
    by (auto intro!: emits_intros)
  have "snd (Bootstrap h tr) = snd (?f iface t3)"
    using g c1 c2 by (simp add: Bootstrap_alt thenE_def bindE_def)
  moreover have "balance (snd (?f iface t3)) r =
      balance t3 r + int (count (mset (map (\<lambda>a. snd (ipt_op a)) (bootstrap_rules iface))) r)" for r
    by (rule balance_adds [OF f bootstrap_ops])
  moreover have "fst (getDefaultInterface h tr) = Inr iface"
    using g by (auto simp: wrapE_def split: prod.splits sum.splits)
  ultimately show ?thesis using b by auto
qed

section \<open>Rules of a port mapping\<close>

lemma ipt_op_args:
  "ipt_op (dnatArgs oper i p g gp pr) = (oper, (''nat'', drop 3 (dnatArgs ''-A'' i p g gp pr)))"
  "ipt_op (outputArgs oper p g gp pr) = (oper, (''nat'', drop 3 (outputArgs ''-A'' p g gp pr)))"
  "ipt_op (fwdArgs ''-A'' g gp pr) = (''-A'', (''filter'', tl (fwdArgs ''-A'' g gp pr)))"
  "ipt_op (fwdArgs ''-D'' g gp pr) = (''-D'', (''filter'', tl (fwdArgs ''-A'' g gp pr)))"
  by (simp_all add: ipt_op_def dnatArgs_def outputArgs_def fwdArgs_def)

lemma dnat_rollback_args: "(dnatArgs oper i p g gp pr)[2 := ''-D''] = dnatArgs ''-D'' i p g gp pr"
  by (simp add: dnatArgs_def numeral_2_eq_2)

abbreviation dnat_rule where "dnat_rule i p g gp pr \<equiv> (''nat'', drop 3 (dnatArgs ''-A'' i p g gp pr))"
abbreviation output_rule where "output_rule p g gp pr \<equiv> (''nat'', drop 3 (outputArgs ''-A'' p g gp pr))"
abbreviation fwd_rule where "fwd_rule g gp pr \<equiv> (''filter'', tl (fwdArgs ''-A'' g gp pr))"

lemma mapping_rules_differ: "dnat_rule i p g gp pr \<noteq> output_rule p' g' gp' pr'"
  by (simp add: dnatArgs_def outputArgs_def)

text \<open>The change that one append or delete command makes to the balance of a rule.\<close>

lemma balance_op:
  "ipt_op args = (''-A'', q) \<Longrightarrow> balance (snd (runCmd h ''iptables'' args tr)) r =
     balance tr r + (if r = q \<and> h_err h tr (Cmd ''iptables'' args) = None then 1 else 0)"
  "iptables_deletes base h \<Longrightarrow> ipt_op args = (''-D'', q) \<Longrightarrow> balance (snd (runCmd h ''iptables'' args tr)) r =
     balance tr r - (if r = q \<and> 0 < base q + balance tr q then 1 else 0)"
  using iptables_deletesD [of base h args q tr] by (auto simp: balance_runCmd)

text \<open>\<open>AddPortMapping\<close> after its first command succeeded, and \<open>RemovePortMapping\<close>, as chains of traces.\<close>

definition add_output :: "host \<Rightarrow> string \<Rightarrow> int \<Rightarrow> string \<Rightarrow> int \<Rightarrow> string \<Rightarrow> string \<Rightarrow> trace \<Rightarrow> trace" where
  "add_output h i p g gp pr oper tr =
     (if local_interface i then snd (runCmd h ''iptables'' (outputArgs oper p g gp pr) tr) else tr)"

lemma AddPortMapping_run:
  fixes h i p g gp pr0 tr
  defines "pr \<equiv> default_protocol pr0"
  defines "t1 \<equiv> snd (runCmd h ''iptables'' (dnatArgs ''-A'' i p g gp pr) tr)"
  defines "t2 \<equiv> add_output h i p g gp pr ''-A'' t1"
  defines "t3 \<equiv> snd (runCmd h ''iptables'' (fwdArgs ''-A'' g gp pr) t2)"
  defines "t4 \<equiv> snd (runCmd h ''iptables'' (dnatArgs ''-D'' i p g gp pr) t3)"
  shows "h_err h tr (Cmd ''iptables'' (dnatArgs ''-A'' i p g gp pr)) = None \<Longrightarrow>
      h_err h t2 (Cmd ''iptables'' (fwdArgs ''-A'' g gp pr)) = None \<Longrightarrow>
      AddPortMapping h i p g gp pr0 tr = (Inr (), t3)"
    and "h_err h tr (Cmd ''iptables'' (dnatArgs ''-A'' i p g gp pr)) = None \<Longrightarrow>
      h_err h t2 (Cmd ''iptables'' (fwdArgs ''-A'' g gp pr)) = Some e \<Longrightarrow>
      AddPortMapping h i p g gp pr0 tr =
        (Inl (ForwardAdd (CmdFailed ''iptables'' (fwdArgs ''-A'' g gp pr) e)),
         snd (runCmd h ''iptables'' (outputArgs ''-D'' p g gp pr) t4))"
    and "h_err h tr (Cmd ''iptables'' (dnatArgs ''-A'' i p g gp pr)) = Some e \<Longrightarrow>
      AddPortMapping h i p g gp pr0 tr =
        (Inl (DnatAdd (CmdFailed ''iptables'' (dnatArgs ''-A'' i p g gp pr) e)), t1)"
  by (cases "local_interface i"; simp add: AddPortMapping_def Let_def thenE_def returnE_def failE_def ignoreE_def
      action_alts fst_runCmd_cases dnat_rollback_args add_output_def assms)+

lemma RemovePortMapping_run:
  fixes h i p g gp pr0 tr
  defines "pr \<equiv> default_protocol pr0"
  defines "t1 \<equiv> snd (runCmd h ''iptables'' (dnatArgs ''-D'' i p g gp pr) tr)"
  shows "RemovePortMapping h i p g gp pr0 tr =
    (Inr (), snd (runCmd h ''iptables'' (fwdArgs ''-D'' g gp pr) (add_output h i p g gp pr ''-D'' t1)))"
  by (simp add: RemovePortMapping_def Let_def action_defs add_output_def assms)

lemma balance_add_output:
  "balance (add_output h i p g gp pr ''-A'' tr) r = balance tr r +
     (if local_interface i \<and> r = output_rule p g gp pr \<and>
         h_err h tr (Cmd ''iptables'' (outputArgs ''-A'' p g gp pr)) = None then 1 else 0)"
  "iptables_deletes base h \<Longrightarrow> balance (add_output h i p g gp pr ''-D'' tr) r = balance tr r -
     (if local_interface i \<and> r = output_rule p g gp pr \<and> 0 < base (output_rule p g gp pr) + balance tr (output_rule p g gp pr)
      then 1 else 0)"
  by (auto simp: add_output_def balance_op(1) [OF ipt_op_args(2)] balance_op(2) [OF _ ipt_op_args(2)])

lemmas mapping_balance = balance_add_output balance_op(1) [OF ipt_op_args(1)] balance_op(1) [OF ipt_op_args(2)]
  balance_op(1) [OF ipt_op_args(3)] balance_op(2) [OF _ ipt_op_args(1)] balance_op(2) [OF _ ipt_op_args(2)]
  balance_op(2) [OF _ ipt_op_args(4)] mapping_rules_differ mapping_rules_differ [symmetric]

section \<open>Properties\<close>


text \<open>
  A host for concrete runs: it keeps the rules of the trace, fails the calls of \<open>bad\<close>, and
  answers the rest.
\<close>

definition demo_host :: "call list \<Rightarrow> host" where
  "demo_host bad =
     \<lparr>h_err = (\<lambda>tr c. case c of
        Cmd n args \<Rightarrow>
          if n = ''iptables'' \<and> fst (ipt_op args) = ''-D''
          then (if 0 < balance tr (snd (ipt_op args)) then None else Some (OtherErr ''no such rule''))
          else if c \<in> set bad then Some (OtherErr ''refused'') else None
      | _ \<Rightarrow> if c \<in> set bad then Some (OtherErr ''refused'') else None),
      h_routes = (\<lambda>_. [\<lparr>rt_Dst = None, rt_LinkIndex = 2\<rparr>]), h_linkName = (\<lambda>_ _. ''eth0''),
      h_isDir = (\<lambda>_ _. False), h_rdev = (\<lambda>_ _. 0), h_tempDir = (\<lambda>_. ''/tmp/herd-inject-1''),
      h_unpacked = (\<lambda>_ _. True), h_chainID = (\<lambda>_ _. ''sha256:0''),
      h_imageConfig = (\<lambda>_ _. Some \<lparr>ic_Entrypoint = [], ic_Cmd = [''sh''], ic_Env = []\<rparr>),
      h_leases = (\<lambda>_ _. []), h_mounts = (\<lambda>_ _. [\<lparr>mnt_Source = ''/dev/dm-3'', mnt_Options = []\<rparr>])\<rparr>"

lemma demo_host_deletes: "iptables_deletes (\<lambda>_. 0) (demo_host bad)"
  by (auto simp: iptables_deletes_def demo_host_def)

lemma demo_dnat_ok:
  "h_err (demo_host [Cmd ''iptables'' (fwdArgs ''-A'' g gp pr)]) tr
     (Cmd ''iptables'' (dnatArgs ''-A'' i p g' gp' pr')) = None"
proof -
  have "hd (dnatArgs ''-A'' i p g' gp' pr') \<noteq> hd (fwdArgs ''-A'' g gp pr)"
    by (simp add: dnatArgs_def fwdArgs_def)
  then have "dnatArgs ''-A'' i p g' gp' pr' \<noteq> fwdArgs ''-A'' g gp pr" by metis
  then show ?thesis by (simp add: demo_host_def ipt_op_args)
qed



lemma demo_add_ok:
  "AddPortMapping (demo_host []) i p g gp pr tr = (Inr (), snd (AddPortMapping (demo_host []) i p g gp pr tr))"
proof -
  let ?h = "demo_host []" and ?pr = "default_protocol pr"
  have "h_err ?h t (Cmd ''iptables'' (dnatArgs ''-A'' i p g gp ?pr)) = None"
    "h_err ?h t (Cmd ''iptables'' (fwdArgs ''-A'' g gp ?pr)) = None" for t
    by (simp_all add: demo_host_def ipt_op_args)
  then show ?thesis by (simp add: AddPortMapping_run(1))
qed


text \<open>
  The rollback of \<open>AddPortMapping\<close> deletes a loopback rule that the call did not add: on an
  interface address, a failing FORWARD rule takes away the rule that an earlier mapping of the
  same ports put into the OUTPUT chain.
\<close>

theorem rollback_deletes_foreign_rule:
  "\<exists>h tr e tr'. iptables_deletes (\<lambda>_. 0) h \<and>
     balance tr (output_rule 8080 ''10.200.0.2'' 80 ''tcp'') = 1 \<and>
     AddPortMapping h ''192.168.0.7'' 8080 ''10.200.0.2'' 80 ''tcp'' tr = (Inl (ForwardAdd e), tr') \<and>
     balance tr' (output_rule 8080 ''10.200.0.2'' 80 ''tcp'') = 0"
proof -
  let ?h = "demo_host [Cmd ''iptables'' (fwdArgs ''-A'' ''10.200.0.2'' 80 ''tcp'')]"
  let ?tr = "[(Cmd ''iptables'' (outputArgs ''-A'' 8080 ''10.200.0.2'' 80 ''tcp''), None)]"
  let ?add = "AddPortMapping ?h ''192.168.0.7'' 8080 ''10.200.0.2'' 80 ''tcp'' ?tr"
  have one: "balance ?tr (output_rule 8080 ''10.200.0.2'' 80 ''tcp'') = 1"
    by (simp add: ipt_op_args)
  have del: "iptables_deletes (\<lambda>_. 0) ?h" by (rule demo_host_deletes)
  have nl: "\<not> local_interface ''192.168.0.7''" by (simp add: local_interface_def)
  have "h_err ?h ?tr (Cmd ''iptables'' (dnatArgs ''-A'' ''192.168.0.7'' 8080 ''10.200.0.2'' 80 ''tcp'')) = None"
    by (rule demo_dnat_ok)
  moreover have "h_err ?h t (Cmd ''iptables'' (fwdArgs ''-A'' ''10.200.0.2'' 80 ''tcp'')) = Some (OtherErr ''refused'')" for t
    by (simp add: demo_host_def ipt_op_args)
  ultimately have "fst ?add = Inl (ForwardAdd (CmdFailed ''iptables'' (fwdArgs ''-A'' ''10.200.0.2'' 80 ''tcp'') (OtherErr ''refused'')))"
    and "balance (snd ?add) (output_rule 8080 ''10.200.0.2'' 80 ''tcp'') = 0"
    using del by (simp_all add: AddPortMapping_run(2) default_protocol_def mapping_balance nl ipt_op_args)
  then show ?thesis using one del by (metis prod.collapse)
qed


lemma demo_iface: "fst (getDefaultInterface (demo_host []) t) = Inr ''eth0''"
  by (simp add: getDefaultInterface_def action_defs performG_def perform_def demo_host_def)

lemma demo_runCmd: "fst (ipt_op args) \<noteq> ''-D'' \<Longrightarrow> fst (runCmd (demo_host []) n args t) = Inr ()"
  by (rule fst_runCmd_cases) (simp add: demo_host_def)

lemma demo_bootstrap: "fst (Bootstrap (demo_host []) t) = Inr ()"
proof -
  have "list_all (\<lambda>a. fst (ipt_op a) = ''-A'') xs \<Longrightarrow>
      fst (forE xs (\<lambda>a. runCmd (demo_host []) ''iptables'' a) t) = Inr ()" for xs t
    by (induction xs arbitrary: t) (simp_all add: returnE_def thenE_def bindE_alt demo_runCmd)
  from this [OF bootstrap_ops] show ?thesis
    by (simp add: Bootstrap_alt thenE_def bindE_alt wrapE_alt demo_iface demo_runCmd ipt_op_def)
qed


end
