(* ===== verification/Go_Paths.thy ===== *)
theory Go_Paths
  imports Go_Strings
begin

text \<open>
  The lexical path functions of Go's \<open>path/filepath\<close> on Unix that herd uses: \<open>Clean\<close>, \<open>Join\<close>
  and \<open>Dir\<close>.  The lemmas describe joins of path components that are plain file names.
\<close>

section \<open>Model\<close>

text \<open>One element of the path, read from the left, onto the elements kept so far.\<close>

definition clean_step :: "bool \<Rightarrow> string list \<Rightarrow> string \<Rightarrow> string list" where
  "clean_step rooted kept p =
     (if p = '''' \<or> p = ''.'' then kept
      else if p = ''..'' then
        (if kept \<noteq> [] \<and> last kept \<noteq> ''..'' then butlast kept
         else if rooted then kept else kept @ [p])
      else kept @ [p])"

definition rooted :: "string \<Rightarrow> bool" where
  "rooted s \<longleftrightarrow> s \<noteq> [] \<and> hd s = CHR ''/''"

definition clean_elems :: "string \<Rightarrow> string list" where
  "clean_elems s = foldl (clean_step (rooted s)) [] (split_on (CHR ''/'') s)"

definition path_Clean :: "string \<Rightarrow> string" where
  "path_Clean s =
     (let out = join ''/'' (clean_elems s)
      in if rooted s then ''/'' @ out else if out = '''' then ''.'' else out)"

fun path_Join :: "string list \<Rightarrow> string" where
  "path_Join [] = ''''"
| "path_Join (e # es) = (if e = '''' then path_Join es else path_Clean (join ''/'' (e # es)))"

definition path_Dir :: "string \<Rightarrow> string" where
  "path_Dir s = path_Clean (rev (dropWhile (\<lambda>c. c \<noteq> CHR ''/'') (rev s)))"

section \<open>Plain file names\<close>

definition plain_name :: "string \<Rightarrow> bool" where
  "plain_name s \<longleftrightarrow> s \<noteq> '''' \<and> s \<noteq> ''.'' \<and> s \<noteq> ''..'' \<and> CHR ''/'' \<notin> set s"

lemma split_on_append2: "split_on c (a @ c # b) = split_on c a @ split_on c b"
proof (induction a)
  case (Cons x a)
  obtain y ys where "split_on c a = y # ys" by (cases "split_on c a") auto
  with Cons show ?case by simp
qed simp

lemma split_on_join2:
  "es \<noteq> [] \<Longrightarrow> split_on c (join [c] es) = concat (map (split_on c) es)"
proof (induction es)
  case (Cons x es)
  then show ?case by (cases "es = []") (simp_all add: join_Cons split_on_append2)
qed simp

lemma foldl_clean_plain: "list_all plain_name es \<Longrightarrow> foldl (clean_step r) kept es = kept @ es"
  by (induction es arbitrary: kept) (auto simp: clean_step_def plain_name_def)

lemma rooted_join: "base \<noteq> [] \<Longrightarrow> rooted (join ''/'' (base # es)) = rooted base"
  by (cases es) (simp_all add: rooted_def)

lemma clean_elems_join:
  assumes "base \<noteq> []" and "list_all plain_name es"
  shows "clean_elems (join ''/'' (base # es)) = clean_elems base @ es"
proof -
  have "concat (map (split_on (CHR ''/'')) es) = es"
    using assms(2) by (induction es) (auto simp: plain_name_def split_on_no_sep)
  then have "split_on (CHR ''/'') (join ''/'' (base # es)) = split_on (CHR ''/'') base @ es"
    by (simp add: split_on_join2)
  with assms show ?thesis by (simp add: clean_elems_def rooted_join foldl_clean_plain)
qed

text \<open>A join of plain names stays below its base, which keeps its own elements.\<close>

lemma path_Join_plain:
  assumes "rooted base" and "list_all plain_name es"
  shows "path_Join (base # es) = ''/'' @ join ''/'' (clean_elems base @ es)"
proof -
  have "base \<noteq> []" using assms(1) by (simp add: rooted_def)
  with assms show ?thesis by (simp add: path_Clean_def clean_elems_join rooted_join)
qed

lemma clean_step_elems:
  assumes "rooted s" and "list_all plain_name kept" and "CHR ''/'' \<notin> set p"
  shows "list_all plain_name (clean_step True kept p)"
proof -
  have "list_all plain_name (butlast kept)"
    using assms(2) by (auto simp: list_all_iff dest: in_set_butlastD)
  with assms show ?thesis by (auto simp: clean_step_def plain_name_def)
qed

lemma clean_elems_plain:
  assumes "rooted s"
  shows "list_all plain_name (clean_elems s)"
proof -
  have "list_all plain_name kept \<Longrightarrow> (\<And>p. p \<in> set ps \<Longrightarrow> CHR ''/'' \<notin> set p) \<Longrightarrow>
      list_all plain_name (foldl (clean_step True) kept ps)" for kept ps
    by (induction ps arbitrary: kept) (simp_all add: clean_step_elems [OF assms])
  then show ?thesis using assms split_on_parts by (simp add: clean_elems_def)
qed

lemma join_inject:
  assumes "list_all plain_name xs" and "list_all plain_name ys" and "join ''/'' xs = join ''/'' ys"
    and "xs \<noteq> []" and "ys \<noteq> []"
  shows "xs = ys"
proof -
  have "split_on (CHR ''/'') (join ''/'' zs) = zs" if "list_all plain_name zs" "zs \<noteq> []" for zs
    by (rule split_on_join) (use that in \<open>auto simp: list_all_iff plain_name_def\<close>)
  then show ?thesis using assms by metis
qed

end
