(* ===== verification/Storage.thy ===== *)
theory Storage
  imports Host Go_Paths
begin

text \<open>
  Rootfs provisioning through containerd, \<open>internal/storage/containerd.go\<close>.  Containerd and the
  file system are the host of the trace; the manager's own state is the cache \<open>parents\<close> of
  chain IDs, filled by \<open>WarmImage\<close> and read by \<open>Snapshot\<close>.
\<close>

section \<open>Model\<close>

record storage =
  st_parents :: "string \<rightharpoonup> string"
  st_trace :: trace

datatype storage_error =
    CheckLocalImage string host_err
  | PullFailed string host_err
  | CheckUnpack string host_err
  | UnpackFailed string host_err
  | ReadRootFS string host_err
  | GetImageFailed string host_err
  | GetImageConfigDesc string host_err
  | ReadConfigBlob host_err
  | UnmarshalOCI string
  | NotWarmed string
  | CreateLease string host_err
  | PrepareSnapshot string host_err
  | StatSnapshot string host_err
  | GetMounts string host_err
  | NoBlockDevice string
  | StatAgent string host_err
  | AgentIsDir string
  | NoMounts string
  | MkTemp host_err
  | MountInject host_err
  | MkGuestDirs host_err
  | OpenAgent host_err
  | CreateAgent host_err
  | CopyAgent host_err
  | CloseAgent host_err
  | DeleteLease string host_err

text \<open>A host call made by the manager.\<close>

definition st_do :: "(trace, host_err, 'a) action \<Rightarrow> (storage, host_err, 'a) action" where
  "st_do m s = (case m (st_trace s) of (r, tr) \<Rightarrow> (r, s\<lparr>st_trace := tr\<rparr>))"

definition contains_any :: "string \<Rightarrow> string \<Rightarrow> bool" where
  "contains_any s chars = list_ex (\<lambda>c. c \<in> set chars) s"

definition normalizeImageRef :: "string \<Rightarrow> string" where
  "normalizeImageRef ref =
     (let parts = split_on (CHR ''/'') ref in
      if length parts = 1 then ''docker.io/library/'' @ ref
      else if \<not> contains_any (parts ! 0) ''.:'' \<and> parts ! 0 \<noteq> ''localhost'' then ''docker.io/'' @ ref
      else ref)"

definition snapshotKey :: "string \<Rightarrow> string" where
  "snapshotKey vmID = ''herd-vm-'' @ vmID"

definition leaseID :: "string \<Rightarrow> string" where
  "leaseID vmID = ''lease-vm-'' @ vmID"

definition first_device_opt :: "string list \<Rightarrow> string option" where
  "first_device_opt opts = (case filter (has_prefix ''device=/dev/'') opts of
       [] \<Rightarrow> None | opt # _ \<Rightarrow> Some (trim_prefix ''device='' opt))"

fun device_of_mounts :: "mount list \<Rightarrow> string option" where
  "device_of_mounts [] = None"
| "device_of_mounts (mnt # mounts) =
     (if has_prefix ''/dev/'' (mnt_Source mnt) then Some (mnt_Source mnt)
      else (case first_device_opt (mnt_Options mnt) of
          Some d \<Rightarrow> Some d
        | None \<Rightarrow> device_of_mounts mounts))"

definition extractBlockDeviceFromMounts :: "mount list \<Rightarrow> string option" where
  "extractBlockDeviceFromMounts mounts = (case device_of_mounts mounts of
       Some d \<Rightarrow> Some d
     | None \<Rightarrow> (case filter (\<lambda>mnt. mnt_Source mnt \<noteq> '''') mounts of
         [] \<Rightarrow> None | mnt # _ \<Rightarrow> Some (mnt_Source mnt)))"

text \<open>The lease of a VM: created, or the existing one when creation fails.\<close>

definition withLease :: "host \<Rightarrow> string \<Rightarrow> (storage, host_err, string) action" where
  "withLease h vmID =
     bindE (tryE (st_do (perform h (LeaseCreate (leaseID vmID))))) (\<lambda>r. case r of
         Inr _ \<Rightarrow> returnE (leaseID vmID)
       | Inl err \<Rightarrow>
           bindE (tryE (st_do (performG h (LeaseList (''id=='' @ leaseID vmID))
               (\<lambda>tr. h_leases h tr (''id=='' @ leaseID vmID))))) (\<lambda>l. case l of
             Inr (existing # _) \<Rightarrow> returnE existing
           | _ \<Rightarrow> failE err))"

definition WarmImage :: "host \<Rightarrow> string \<Rightarrow> (storage, storage_error, unit) action" where
  "WarmImage h imageRef0 =
     (let imageRef = normalizeImageRef imageRef0 in
      bindE (tryE (st_do (perform h (GetImage imageRef)))) (\<lambda>r.
      thenE (case r of
          Inl NotFound \<Rightarrow> wrapE (PullFailed imageRef) (st_do (perform h (PullImage imageRef)))
        | Inl err \<Rightarrow> failE (CheckLocalImage imageRef err)
        | Inr _ \<Rightarrow> returnE ())
     (bindE (wrapE (CheckUnpack imageRef) (st_do (performG h (IsUnpacked imageRef) (\<lambda>tr. h_unpacked h tr imageRef)))) (\<lambda>unpacked.
      thenE (if \<not> unpacked then wrapE (UnpackFailed imageRef) (st_do (perform h (UnpackImage imageRef))) else returnE ())
     (bindE (wrapE (ReadRootFS imageRef) (st_do (performG h (ImageRootFS imageRef) (\<lambda>tr. h_chainID h tr imageRef)))) (\<lambda>chainID.
      \<lambda>s. (Inr (), s\<lparr>st_parents := (st_parents s)(imageRef \<mapsto> chainID)\<rparr>)))))))"

definition ExtractImageConfig :: "host \<Rightarrow> string \<Rightarrow> (storage, storage_error, image_config) action" where
  "ExtractImageConfig h imageRef0 =
     (let imageRef = normalizeImageRef imageRef0 in
      thenE (wrapE (GetImageFailed imageRef) (st_do (perform h (GetImage imageRef))))
     (thenE (wrapE (GetImageConfigDesc imageRef) (st_do (perform h (ImageConfigDesc imageRef))))
     (bindE (wrapE ReadConfigBlob (st_do (performG h (ReadBlob imageRef) (\<lambda>tr. h_imageConfig h tr imageRef)))) (\<lambda>img.
        case img of None \<Rightarrow> failE (UnmarshalOCI imageRef) | Some c \<Rightarrow> returnE c))))"

definition snapshot_mounts :: "host \<Rightarrow> string \<Rightarrow> (storage, host_err, mount list) action" where
  "snapshot_mounts h key = st_do (performG h (SnapMounts key) (\<lambda>tr. h_mounts h tr key))"

definition Snapshot :: "host \<Rightarrow> string \<Rightarrow> string \<Rightarrow> (storage, storage_error, string) action" where
  "Snapshot h vmID imageRef0 s =
     (let imageRef = normalizeImageRef imageRef0; key = snapshotKey vmID in
      case st_parents s imageRef of
        None \<Rightarrow> (Inl (NotWarmed imageRef), s)
      | Some parentChainID \<Rightarrow>
          thenE (wrapE (CreateLease vmID) (withLease h vmID))
         (bindE (tryE (st_do (perform h (SnapStat key)))) (\<lambda>statErr.
          bindE (case statErr of
              Inl NotFound \<Rightarrow> wrapE (PrepareSnapshot key)
                (st_do (performG h (SnapPrepare key parentChainID) (\<lambda>tr. h_mounts h tr key)))
            | Inl err \<Rightarrow> failE (StatSnapshot key err)
            | Inr _ \<Rightarrow> wrapE (GetMounts key) (snapshot_mounts h key)) (\<lambda>mounts.
          case extractBlockDeviceFromMounts mounts of
            None \<Rightarrow> failE (NoBlockDevice key)
          | Some devPath \<Rightarrow> returnE devPath))) s)"

definition DefaultGuestAgentPath :: string where
  "DefaultGuestAgentPath = ''/usr/local/bin/herd-guest-agent''"

text \<open>The copy of the agent binary, from opening the source on; the source is closed on every way out.\<close>

definition copy_agent :: "host \<Rightarrow> string \<Rightarrow> string \<Rightarrow> (storage, storage_error, unit) action" where
  "copy_agent h hostBinaryPath dstPath =
     thenE (wrapE OpenAgent (st_do (perform h (OpenFile hostBinaryPath))))
     (deferE (st_do (perform h (CloseFile hostBinaryPath)))
       (thenE (wrapE CreateAgent (st_do (perform h (CreateFile dstPath))))
       (bindE (tryE (st_do (perform h (CopyFile hostBinaryPath dstPath)))) (\<lambda>r. case r of
           Inl err \<Rightarrow> thenE (ignoreE (st_do (perform h (CloseFile dstPath)))) (failE (CopyAgent err))
         | Inr _ \<Rightarrow> wrapE CloseAgent (st_do (perform h (CloseFile dstPath)))))))"

text \<open>The deferred clean-up of the injection directory; both errors are dropped.\<close>

definition unmount_temp :: "host \<Rightarrow> string \<Rightarrow> (storage, storage_error, unit) action" where
  "unmount_temp h tmpDir =
     thenE (ignoreE (st_do (perform h (Unmount tmpDir)))) (ignoreE (st_do (perform h (RemoveAll tmpDir))))"

definition InjectGuestAgent :: "host \<Rightarrow> string \<Rightarrow> string \<Rightarrow> string \<Rightarrow> (storage, storage_error, unit) action" where
  "InjectGuestAgent h vmID hostBinaryPath guestPath0 =
     (let guestPath = (if guestPath0 = '''' then DefaultGuestAgentPath else guestPath0);
          key = snapshotKey vmID in
      bindE (wrapE (StatAgent hostBinaryPath) (st_do (performG h (StatFile hostBinaryPath) (\<lambda>tr. h_isDir h tr hostBinaryPath)))) (\<lambda>isDir.
      if isDir then failE (AgentIsDir hostBinaryPath)
      else
        thenE (wrapE (CreateLease vmID) (withLease h vmID))
       (bindE (wrapE (GetMounts key) (snapshot_mounts h key)) (\<lambda>mounts.
        if mounts = [] then failE (NoMounts key)
        else
          bindE (wrapE MkTemp (st_do (performG h MkdirTemp (h_tempDir h)))) (\<lambda>tmpDir.
          deferE (unmount_temp h tmpDir)
           (thenE (wrapE MountInject (st_do (perform h (MountAll key tmpDir))))
           (let dstPath = path_Join [tmpDir, trim_prefix ''/'' guestPath] in
            thenE (wrapE MkGuestDirs (st_do (perform h (MkdirAll (path_Dir dstPath)))))
                  (copy_agent h hostBinaryPath dstPath))))))))"

definition storage_Teardown :: "host \<Rightarrow> string \<Rightarrow> (storage, storage_error, unit) action" where
  "storage_Teardown h vmID =
     thenE (ignoreE (st_do (perform h (SnapRemove (snapshotKey vmID)))))
    (bindE (tryE (withLease h vmID)) (\<lambda>l. case l of
        Inl _ \<Rightarrow> returnE ()
      | Inr lease \<Rightarrow> wrapE (DeleteLease lease) (st_do (perform h (LeaseDelete lease)))))"

section \<open>Traces\<close>

lemma emits_st_do [emits_intros]: "emits (\<lambda>t. t) P m \<Longrightarrow> emits st_trace P (st_do m)"
  unfolding emits_def st_do_def by (auto split: prod.splits) (metis snd_conv)

text \<open>What an action other than \<open>WarmImage\<close> keeps: the cache of chain IDs.\<close>

definition keeps_parents :: "(storage, 'e, 'a) action \<Rightarrow> bool" where
  "keeps_parents m \<longleftrightarrow> (\<forall>s. st_parents (snd (m s)) = st_parents s)"

named_theorems keeps_intros

lemma keeps_bind [keeps_intros]: "keeps_parents m \<Longrightarrow> (\<And>x. keeps_parents (k x)) \<Longrightarrow> keeps_parents (bindE m k)"
  by (simp add: keeps_parents_def bindE_alt split: sum.splits)

lemma keeps_basic [keeps_intros]:
  "keeps_parents (st_do a)" "keeps_parents (returnE x)" "keeps_parents (failE e)"
  "keeps_parents m \<Longrightarrow> keeps_parents (wrapE f m)" "keeps_parents m \<Longrightarrow> keeps_parents (tryE m)"
  "keeps_parents m \<Longrightarrow> keeps_parents (ignoreE m)"
  by (simp_all add: keeps_parents_def st_do_def returnE_def failE_def ignoreE_def split: prod.splits)

lemma keeps_then [keeps_intros]: "keeps_parents m \<Longrightarrow> keeps_parents k \<Longrightarrow> keeps_parents (thenE m k)"
  by (simp add: thenE_def keeps_bind)

lemma keeps_ExtractImageConfig: "keeps_parents (ExtractImageConfig h ref)"
  unfolding ExtractImageConfig_def Let_def
  by (intro keeps_intros) (auto intro!: keeps_intros split: option.splits)

lemma WarmImage_parents:
  assumes "WarmImage h ref s = (Inr (), s')"
  shows "st_parents s' (normalizeImageRef ref) \<noteq> None"
  using assms by (auto simp: WarmImage_def Let_def thenE_def bindE_alt split: sum.splits)

section \<open>Properties\<close>

text \<open>
  Normalising an image reference is idempotent, so the key under which \<open>WarmImage\<close> caches
  the chain ID is the key under which \<open>Snapshot\<close> looks it up, normalised or not.
\<close>

theorem normalizeImageRef_idem: "normalizeImageRef (normalizeImageRef ref) = normalizeImageRef ref"
proof -
  have d: "split_on (CHR ''/'') (''docker.io'' @ ''/'' @ s) = ''docker.io'' # split_on (CHR ''/'') s" for s
    using split_on_append [of "CHR ''/''" "''docker.io''" s] by simp
  have n: "normalizeImageRef (''docker.io'' @ ''/'' @ s) = ''docker.io'' @ ''/'' @ s" for s
    unfolding normalizeImageRef_def d Let_def by (simp add: contains_any_def)
  show ?thesis
    using n [of "''library/'' @ ref"] n [of ref]
    by (auto simp: normalizeImageRef_def [of ref] Let_def)
qed

text \<open>
  After a successful \<open>WarmImage\<close>, reading the image configuration and then taking a
  snapshot of the same image, as \<open>Spawn\<close> does, never fails for want of a cached parent.
\<close>

theorem warm_then_snapshot:
  assumes "WarmImage h ref s = (Inr (), s1)"
  shows "fst (Snapshot h vmID ref (snd (ExtractImageConfig h ref s1))) \<noteq> Inl (NotWarmed (normalizeImageRef ref))"
proof -
  let ?s2 = "snd (ExtractImageConfig h ref s1)"
  have "st_parents ?s2 = st_parents s1"
    using keeps_ExtractImageConfig by (simp add: keeps_parents_def)
  with WarmImage_parents [OF assms] obtain c where "st_parents ?s2 (normalizeImageRef ref) = Some c" by auto
  then show ?thesis
    by (auto simp: Snapshot_def Let_def thenE_def bindE_alt wrapE_alt tryE_alt failE_def returnE_def
        split: sum.splits option.splits host_err.splits)
qed

text \<open>A host on which every call of \<open>WarmImage\<close> succeeds.\<close>

definition ok_host :: "mount list \<Rightarrow> host" where
  "ok_host mounts =
     \<lparr>h_err = (\<lambda>_ _. None), h_routes = (\<lambda>_. []), h_linkName = (\<lambda>_ _. ''eth0''), h_isDir = (\<lambda>_ _. False),
      h_rdev = (\<lambda>_ _. 0), h_tempDir = (\<lambda>_. ''/tmp/herd-inject-1''), h_unpacked = (\<lambda>_ _. False),
      h_chainID = (\<lambda>_ _. ''sha256:0''), h_imageConfig = (\<lambda>_ _. None), h_leases = (\<lambda>_ _. []),
      h_mounts = (\<lambda>_ _. mounts)\<rparr>"

lemma ok_host_perform: "perform (ok_host m) c tr = (Inr (), tr @ [(c, None)])"
  by (simp add: perform_def ok_host_def)

theorem warm_then_snapshot_witness:
  "fst (Snapshot (ok_host []) ''vm1'' ''alpine'' (snd (ExtractImageConfig (ok_host []) ''alpine''
     (snd (WarmImage (ok_host []) ''alpine'' \<lparr>st_parents = Map.empty, st_trace = []\<rparr>))))) \<noteq>
   Inl (NotWarmed (normalizeImageRef ''alpine''))"
proof (rule warm_then_snapshot)
  let ?s = "\<lparr>st_parents = Map.empty, st_trace = []\<rparr>"
  have "fst (WarmImage (ok_host []) ''alpine'' ?s) = Inr ()"
    by (simp add: WarmImage_def Let_def thenE_def bindE_alt wrapE_alt tryE_alt returnE_def st_do_def
        performG_def ok_host_perform)
  then show "WarmImage (ok_host []) ''alpine'' ?s = (Inr (), snd (WarmImage (ok_host []) ''alpine'' ?s))"
    by (simp add: prod_eq_iff)
qed

text \<open>The calls that mount and unmount the injection directory.\<close>

definition no_mount :: "call \<Rightarrow> bool" where
  "no_mount c \<longleftrightarrow> (\<forall>src dst. c \<noteq> MountAll src dst)"

lemma emits_withLease: "(\<And>c. c = LeaseCreate (leaseID vmID) \<or> c = LeaseList (''id=='' @ leaseID vmID) \<Longrightarrow> P c) \<Longrightarrow>
    emits st_trace P (withLease h vmID)"
  unfolding withLease_def by (intro emits_intros) (auto intro!: emits_intros split: sum.splits list.splits)

lemma emitsD:
  assumes "emits pr P m" and "m s = (r, s')"
  obtains new where "pr s' = pr s @ new" "list_all (\<lambda>x. P (fst x)) new"
  using assms by (metis emitsE snd_conv)

lemma unmount_temp_trace:
  "\<exists>u r. st_trace (snd (unmount_temp h d s)) = st_trace s @ [(Unmount d, u), (RemoveAll d, r)]"
  by (simp add: unmount_temp_def thenE_def bindE_def ignoreE_def st_do_def perform_def split: option.splits prod.splits)

lemma emits_trans:
  "emits pr P m \<Longrightarrow> m s = (r, s1) \<Longrightarrow> \<exists>new. pr s1 = pr s @ new \<and> list_all (\<lambda>x. P (fst x)) new"
  by (metis emitsE snd_conv)

text \<open>
  The shape of \<open>InjectGuestAgent\<close>: calls that do not mount, and then either nothing, or the
  mount with the work on it in the scope of the deferred clean-up.
\<close>

definition inject_prefix :: "host \<Rightarrow> string \<Rightarrow> string \<Rightarrow> (storage, storage_error, string) action" where
  "inject_prefix h vmID agent =
     bindE (wrapE (StatAgent agent) (st_do (performG h (StatFile agent) (\<lambda>tr. h_isDir h tr agent)))) (\<lambda>isDir.
      if isDir then failE (AgentIsDir agent)
      else
        thenE (wrapE (CreateLease vmID) (withLease h vmID))
       (bindE (wrapE (GetMounts (snapshotKey vmID)) (snapshot_mounts h (snapshotKey vmID))) (\<lambda>mounts.
        if mounts = [] then failE (NoMounts (snapshotKey vmID))
        else wrapE MkTemp (st_do (performG h MkdirTemp (h_tempDir h))))))"

definition inject_body :: "host \<Rightarrow> string \<Rightarrow> string \<Rightarrow> string \<Rightarrow> string \<Rightarrow> (storage, storage_error, unit) action" where
  "inject_body h vmID agent guestPath tmpDir =
     thenE (wrapE MountInject (st_do (perform h (MountAll (snapshotKey vmID) tmpDir))))
     (let dstPath = path_Join [tmpDir, trim_prefix ''/'' guestPath] in
      thenE (wrapE MkGuestDirs (st_do (perform h (MkdirAll (path_Dir dstPath)))))
            (copy_agent h agent dstPath))"

lemma bindE_assoc: "bindE (bindE m k) l = bindE m (\<lambda>x. bindE (k x) l)"
  by (rule ext) (simp add: bindE_def split: prod.splits sum.splits)

lemma bindE_fail: "bindE (failE e) k = failE e"
  by (rule ext) (simp add: bindE_def failE_def)

lemma if_bind: "bindE (if b then m else n) k = (if b then bindE m k else bindE n k)"
  by simp

lemma InjectGuestAgent_alt:
  "InjectGuestAgent h vmID agent gpath =
     bindE (inject_prefix h vmID agent) (\<lambda>tmpDir. deferE (unmount_temp h tmpDir)
       (inject_body h vmID agent (if gpath = '''' then DefaultGuestAgentPath else gpath) tmpDir))"
  unfolding InjectGuestAgent_def inject_prefix_def inject_body_def thenE_def Let_def bindE_assoc bindE_fail if_bind ..

lemma emits_inject_prefix: "emits st_trace no_mount (inject_prefix h vmID agent)"
  unfolding inject_prefix_def snapshot_mounts_def
  by (intro emits_intros emits_withLease) (auto simp: no_mount_def)

lemma emits_inject_body:
  "emits st_trace (\<lambda>c. \<forall>src dst. c = MountAll src dst \<longrightarrow> dst = d) (inject_body h vmID agent gpath d)"
  unfolding inject_body_def copy_agent_def Let_def
  by (intro emits_intros) (auto intro!: emits_intros split: sum.splits)

text \<open>
  C33.  \<open>InjectGuestAgent\<close> never leaves the snapshot mounted on the host: whenever it asked for
  the mount, its last two calls are the unmount and the removal of that directory, whatever
  failed in between.
\<close>

theorem inject_always_unmounts:
  assumes "(MountAll src d, x) \<in> set (drop (length (st_trace s)) (st_trace (snd (InjectGuestAgent h vmID agent gpath s))))"
  shows "\<exists>pre u r. st_trace (snd (InjectGuestAgent h vmID agent gpath s)) = pre @ [(Unmount d, u), (RemoveAll d, r)]"
proof -
  let ?gp = "if gpath = '''' then DefaultGuestAgentPath else gpath"
  obtain p s1 where p: "inject_prefix h vmID agent s = (p, s1)" by fastforce
  obtain a where a: "st_trace s1 = st_trace s @ a" "list_all (\<lambda>x. no_mount (fst x)) a"
    using emits_trans [OF emits_inject_prefix p] by blast
  show ?thesis
  proof (cases p)
    case (Inl e)
    then have "snd (InjectGuestAgent h vmID agent gpath s) = s1" by (simp add: InjectGuestAgent_alt bindE_def p)
    with assms a show ?thesis by (auto simp: list_all_iff no_mount_def)
  next
    case (Inr tmpDir)
    obtain q s2 where q: "inject_body h vmID agent ?gp tmpDir s1 = (q, s2)" by fastforce
    obtain b where b: "st_trace s2 = st_trace s1 @ b"
      "list_all (\<lambda>x. \<forall>src dst. fst x = MountAll src dst \<longrightarrow> dst = tmpDir) b"
      using emits_trans [OF emits_inject_body q] by blast
    obtain u r where ur: "st_trace (snd (unmount_temp h tmpDir s2)) = st_trace s2 @ [(Unmount tmpDir, u), (RemoveAll tmpDir, r)]"
      using unmount_temp_trace by blast
    have t: "snd (InjectGuestAgent h vmID agent gpath s) = snd (unmount_temp h tmpDir s2)"
      using Inr p q by (simp add: InjectGuestAgent_alt bindE_def deferE_def)
    then have "(MountAll src d, x) \<in> set (a @ b @ [(Unmount tmpDir, u), (RemoveAll tmpDir, r)])"
      using assms a(1) b(1) ur by simp
    then have "d = tmpDir" using a(2) b(2) by (fastforce simp: list_all_iff no_mount_def)
    with t ur show ?thesis by auto
  qed
qed

theorem inject_always_unmounts_witness:
  "\<exists>pre u r. st_trace (snd (InjectGuestAgent (ok_host [\<lparr>mnt_Source = ''/dev/dm-3'', mnt_Options = []\<rparr>]) ''vm1'' ''/agent'' ''''
     \<lparr>st_parents = Map.empty, st_trace = []\<rparr>)) = pre @ [(Unmount ''/tmp/herd-inject-1'', u), (RemoveAll ''/tmp/herd-inject-1'', r)]"
proof (rule inject_always_unmounts)
  show "(MountAll (snapshotKey ''vm1'') ''/tmp/herd-inject-1'', None) \<in>
      set (drop (length (st_trace \<lparr>st_parents = Map.empty, st_trace = []\<rparr>))
        (st_trace (snd (InjectGuestAgent (ok_host [\<lparr>mnt_Source = ''/dev/dm-3'', mnt_Options = []\<rparr>]) ''vm1'' ''/agent'' ''''
          \<lparr>st_parents = Map.empty, st_trace = []\<rparr>))))"
    by (simp add: InjectGuestAgent_alt inject_prefix_def inject_body_def unmount_temp_def copy_agent_def snapshot_mounts_def
        withLease_def Let_def thenE_def bindE_alt wrapE_alt tryE_alt deferE_alt ignoreE_def returnE_def st_do_def
        performG_def ok_host_perform)
      (simp add: ok_host_def)
qed

end
