(* ===== verification/Factory.thy ===== *)
theory Factory
  imports Uid_Pool Ipam Port_Manager Registry Host_Nat Storage
begin

text \<open>
  The Firecracker worker factory, \<open>firecracker_factory.go\<close>: \<open>Spawn\<close> with its undo stack, and
  \<open>FirecrackerWorker\<close> with its \<open>Close\<close>.  \<open>Spawn\<close> is split into the phases that the source
  separates by comments; each phase pushes its undo actions onto \<open>fs_undo\<close>, and a failing
  phase makes \<open>Spawn\<close> run them in reverse order.  The answers of the host (\<open>h\<close>), whether a port
  can be bound (\<open>listen\<close>), how many connection attempts fit before the deadline (\<open>attempts\<close>)
  and the clock reading behind the guest MAC (\<open>nano\<close>) are arguments.
\<close>

section \<open>State\<close>

record fc_config =
  FirecrackerPath :: string
  JailerPath :: string
  KernelImagePath :: string
  GuestAgentPath :: string
  JailerChrootBaseDir :: string

datatype undo =
    UndoUID int
  | UndoTeardown string
  | UndoRemoveAll string
  | UndoIP string
  | UndoTap string
  | UndoKill string
  | UndoConn string
  | UndoCancel string
  | UndoPort int
  | UndoMapping string int string int string

text \<open>The managers a factory shares between its workers; \<open>fs_ports = None\<close> is a nil \<open>PortManager\<close>.\<close>

record fc_state =
  fs_uids :: uid_pool
  fs_ipam :: ipam
  fs_ports :: "port_manager option"
  fs_store :: storage
  fs_undo :: "undo list"

record fc_worker =
  fw_id :: string
  fw_socketPath :: string
  fw_tapName :: string
  fw_guestIP :: string
  fw_chrootDir :: string
  fw_leasedUID :: int
  fw_portMappings :: "port_mapping list"

datatype spawn_error =
    UidCheckout uid_error
  | SpawnWarm storage_error
  | SpawnImageConfig storage_error
  | NoCommand string
  | SpawnSnapshot storage_error
  | SpawnInject storage_error
  | JailBaseDir host_err
  | ChrootRoot host_err
  | ChownChroot string host_err
  | ChrootDir string host_err
  | LinkKernel host_err
  | BindDevice bind_dev_error
  | AcquireIP ipam_error
  | AcquireDiverges
  | CreateTapFailed nat_error
  | WriteConfig host_err
  | StartJailer host_err
  | GuestUnreachable
  | PortAllocation int int port_error
  | IptablesSetup int int nat_error
and bind_dev_error = StatSource string host_err | MknodDevice string host_err | ChownDevice string host_err

section \<open>Lifting\<close>

definition fs_st :: "(storage, 'e, 'a) action \<Rightarrow> (fc_state, 'e, 'a) action" where
  "fs_st m s = (case m (fs_store s) of (r, st) \<Rightarrow> (r, s\<lparr>fs_store := st\<rparr>))"

definition fs_tr :: "(trace, 'e, 'a) action \<Rightarrow> (fc_state, 'e, 'a) action" where
  "fs_tr m = fs_st (\<lambda>st. case m (st_trace st) of (r, tr) \<Rightarrow> (r, st\<lparr>st_trace := tr\<rparr>))"

definition fs_call :: "host \<Rightarrow> call \<Rightarrow> (fc_state, host_err, unit) action" where
  "fs_call h c = fs_tr (perform h c)"

definition push :: "undo \<Rightarrow> (fc_state, 'e, unit) action" where
  "push u s = (Inr (), s\<lparr>fs_undo := fs_undo s @ [u]\<rparr>)"

section \<open>Accessors\<close>

definition fc_ID :: "fc_worker \<Rightarrow> string" where
  "fc_ID w = fw_id w"

definition fc_GuestIP :: "fc_worker \<Rightarrow> string" where
  "fc_GuestIP w = fw_guestIP w"

definition fc_Address :: "fc_worker \<Rightarrow> string" where
  "fc_Address w = ''http://'' @ fw_guestIP w @ '':80''"

definition fc_VsockUDSPath :: "fc_worker \<Rightarrow> string" where
  "fc_VsockUDSPath w = fw_socketPath w"

definition fc_PortMappings :: "fc_worker \<Rightarrow> port_mapping list" where
  "fc_PortMappings w = fw_portMappings w"

text \<open>\<open>OnCrash\<close> drops the callback.\<close>

definition fc_OnCrash :: "(string \<Rightarrow> 'a) \<Rightarrow> fc_worker \<Rightarrow> fc_worker" where
  "fc_OnCrash fn w = w"

definition chrootRoot :: "fc_config \<Rightarrow> string \<Rightarrow> string" where
  "chrootRoot f vmID = path_Join [JailerChrootBaseDir f, ''firecracker'', vmID, ''root'']"

section \<open>Undo actions\<close>

definition uids_give :: "int \<Rightarrow> fc_state \<Rightarrow> fc_state" where
  "uids_give u s = s\<lparr>fs_uids := snd (uid_Return u (fs_uids s))\<rparr>"

definition ip_give :: "string \<Rightarrow> fc_state \<Rightarrow> fc_state" where
  "ip_give a s = s\<lparr>fs_ipam := ipam_Release a (fs_ipam s)\<rparr>"

definition port_give :: "int \<Rightarrow> fc_state \<Rightarrow> fc_state" where
  "port_give p s = s\<lparr>fs_ports := map_option (port_Release p) (fs_ports s)\<rparr>"

definition run_undo :: "host \<Rightarrow> undo \<Rightarrow> fc_state \<Rightarrow> fc_state" where
  "run_undo h u s = (case u of
       UndoUID u \<Rightarrow> uids_give u s
     | UndoTeardown vm \<Rightarrow> snd (fs_st (storage_Teardown h vm) s)
     | UndoRemoveAll d \<Rightarrow> snd (fs_call h (RemoveAll d) s)
     | UndoIP a \<Rightarrow> ip_give a s
     | UndoTap t \<Rightarrow> snd (fs_tr (DeleteTap h t) s)
     | UndoKill vm \<Rightarrow> snd (fs_call h (KillProcess vm) s)
     | UndoConn vm \<Rightarrow> snd (fs_call h (ConnClose vm) s)
     | UndoCancel vm \<Rightarrow> snd (fs_call h (CancelWorker vm) s)
     | UndoPort p \<Rightarrow> port_give p s
     | UndoMapping i hp g gp pr \<Rightarrow> snd (fs_tr (RemovePortMapping h i hp g gp pr) s))"

definition rollback :: "host \<Rightarrow> fc_state \<Rightarrow> fc_state" where
  "rollback h s = fold (run_undo h) (rev (fs_undo s)) s"

section \<open>The phases of Spawn\<close>

definition checkout_uid :: "(fc_state, spawn_error, int) action" where
  "checkout_uid s = (case uid_Checkout (fs_uids s) of
       (Inl e, p) \<Rightarrow> (Inl (UidCheckout e), s\<lparr>fs_uids := p\<rparr>)
     | (Inr u, p) \<Rightarrow> (Inr u, s\<lparr>fs_uids := p\<rparr>))"

definition final_command :: "image_config \<Rightarrow> string list \<Rightarrow> string list" where
  "final_command img cmd =
     (let finalCmd = (if cmd \<noteq> [] then cmd else ic_Cmd img)
      in if ic_Entrypoint img \<noteq> [] then
           (if cmd = [] then ic_Entrypoint img @ finalCmd else ic_Entrypoint img @ cmd)
         else finalCmd)"

definition prepare_rootfs :: "host \<Rightarrow> fc_config \<Rightarrow> string \<Rightarrow> tenant_config \<Rightarrow>
    (fc_state, spawn_error, image_config \<times> string list \<times> string) action" where
  "prepare_rootfs h f workerID cfg =
     thenE (wrapE SpawnWarm (fs_st (WarmImage h (Image cfg))))
    (bindE (wrapE SpawnImageConfig (fs_st (ExtractImageConfig h (Image cfg)))) (\<lambda>imgConfig.
     let finalCmd = final_command imgConfig (Command cfg) in
     if finalCmd = [] then failE (NoCommand (Image cfg))
     else
       bindE (wrapE SpawnSnapshot (fs_st (Snapshot h workerID (Image cfg)))) (\<lambda>rootfsPath.
       thenE (push (UndoTeardown workerID))
      (thenE (wrapE SpawnInject (fs_st (InjectGuestAgent h workerID (GuestAgentPath f) DefaultGuestAgentPath)))
             (returnE (imgConfig, finalCmd, rootfsPath))))))"

text \<open>A directory that may exist already; the result says whether it was made.\<close>

definition mkdir_exist_ok :: "host \<Rightarrow> (host_err \<Rightarrow> spawn_error) \<Rightarrow> string \<Rightarrow> (fc_state, spawn_error, bool) action" where
  "mkdir_exist_ok h err d = bindE (tryE (fs_call h (Mkdir d))) (\<lambda>r. case r of
       Inr _ \<Rightarrow> returnE True
     | Inl AlreadyExists \<Rightarrow> returnE False
     | Inl e \<Rightarrow> failE (err e))"

definition bindDeviceIntoChroot :: "host \<Rightarrow> string \<Rightarrow> string \<Rightarrow> int \<Rightarrow> int \<Rightarrow> (fc_state, bind_dev_error, unit) action" where
  "bindDeviceIntoChroot h srcPath dstPath uid gid =
     bindE (wrapE (StatSource srcPath) (fs_tr (performG h (StatFile srcPath) (\<lambda>tr. h_rdev h tr srcPath)))) (\<lambda>rdev.
     thenE (wrapE (MknodDevice dstPath) (fs_call h (Mknod dstPath rdev)))
           (wrapE (ChownDevice dstPath) (fs_call h (Chown dstPath uid gid))))"

definition build_chroot :: "host \<Rightarrow> fc_config \<Rightarrow> string \<Rightarrow> int \<Rightarrow> string \<Rightarrow> (fc_state, spawn_error, unit) action" where
  "build_chroot h f workerID leasedUID rootfsPath =
     (let root = chrootRoot f workerID; runDir = path_Join [root, ''run'']; devDir = path_Join [root, ''dev''] in
      thenE (wrapE JailBaseDir (fs_call h (MkdirAll (path_Dir root))))
     (bindE (mkdir_exist_ok h ChrootRoot root) (\<lambda>made.
      thenE (if made then push (UndoRemoveAll root) else returnE ())
     (thenE (wrapE (ChownChroot root) (fs_call h (Chown root leasedUID leasedUID)))
     (thenE (mkdir_exist_ok h (ChrootDir runDir) runDir)
     (thenE (wrapE (ChownChroot runDir) (fs_call h (Chown runDir leasedUID leasedUID)))
     (thenE (mkdir_exist_ok h (ChrootDir devDir) devDir)
     (thenE (wrapE (ChownChroot devDir) (fs_call h (Chown devDir leasedUID leasedUID)))
     (thenE (wrapE LinkKernel (fs_call h (HardLink (KernelImagePath f) (path_Join [runDir, ''vmlinux'']))))
            (wrapE BindDevice (bindDeviceIntoChroot h rootfsPath (path_Join [devDir, ''vda'']) leasedUID leasedUID))))))))))) "

definition acquire_ip :: "(fc_state, spawn_error, string) action" where
  "acquire_ip s = (case ipam_Acquire (fs_ipam s) of
       None \<Rightarrow> (Inl AcquireDiverges, s)
     | Some (Inl e, i) \<Rightarrow> (Inl (AcquireIP e), s\<lparr>fs_ipam := i\<rparr>)
     | Some (Inr a, i) \<Rightarrow> (Inr a, s\<lparr>fs_ipam := i\<rparr>))"

definition hostIP :: string where
  "hostIP = ''10.200.0.1''"

definition tap_name :: "string \<Rightarrow> string" where
  "tap_name workerID = ''tap-'' @ drop (length workerID - min (length workerID) 8) workerID"

definition setup_network :: "host \<Rightarrow> string \<Rightarrow> int \<Rightarrow> (fc_state, spawn_error, string) action" where
  "setup_network h workerID leasedUID =
     bindE acquire_ip (\<lambda>guestIP.
     thenE (push (UndoIP guestIP))
    (thenE (ignoreE (fs_tr (DeleteTap h (tap_name workerID))))
    (thenE (wrapE CreateTapFailed (fs_tr (CreatePointToPointTap h (tap_name workerID) hostIP guestIP leasedUID leasedUID)))
    (thenE (push (UndoTap (tap_name workerID)))
           (returnE guestIP)))))"

definition hex2 :: "nat \<Rightarrow> string" where
  "hex2 n = [''0123456789abcdef'' ! (n div 16 mod 16), ''0123456789abcdef'' ! (n mod 16)]"

text \<open>The Firecracker configuration; \<open>line k s\<close> is a line of the template with \<open>k\<close> tabs.\<close>

definition line :: "nat \<Rightarrow> string \<Rightarrow> string" where
  "line k s = replicate k (CHR 0x09) @ s"

definition boot_args :: "string \<Rightarrow> string \<Rightarrow> string" where
  "boot_args initPath guestIP =
     ''console=ttyS0 reboot=k panic=1 pci=off quiet mitigations=off i8042.nokbd i8042.noaux tsc=reliable random.trust_cpu=on random.trust_bootloader=on root=/dev/vda rw rootfstype=ext4 rootflags=noload,noinit_itable init=''
     @ initPath @ '' herd_rootfs=1 herd_ip='' @ guestIP @ '' herd_gw='' @ hostIP"

definition vm_config :: "string \<Rightarrow> string \<Rightarrow> string \<Rightarrow> string \<Rightarrow> int \<Rightarrow> int \<Rightarrow> string" where
  "vm_config initPath guestIP macByte tapName vcpu mem = join [CHR 0x0A]
     [''{'',
      line 2 ''\"boot-source\": {'',
      line 3 ''\"kernel_image_path\": \"/run/vmlinux\",'',
      line 3 (''\"boot_args\": \"'' @ boot_args initPath guestIP @ ''\"''),
      line 2 ''},'',
      line 2 ''\"drives\": ['',
      line 3 ''{'',
      line 4 ''\"drive_id\": \"rootfs\",'',
      line 4 ''\"path_on_host\": \"/dev/vda\",'',
      line 4 ''\"is_root_device\": true,'',
      line 4 ''\"is_read_only\": false'',
      line 3 ''}'',
      line 2 ''],'',
      line 2 ''\"network-interfaces\": ['',
      line 3 ''{'',
      line 4 ''\"iface_id\": \"eth0\",'',
      line 4 (''\"guest_mac\": \"AA:FC:00:00:00:'' @ macByte @ ''\",''),
      line 4 (''\"host_dev_name\": \"'' @ tapName @ ''\"''),
      line 3 ''}'',
      line 2 ''],'',
      line 2 ''\"machine-config\": {'',
      line 3 (''\"vcpu_count\": '' @ itoa vcpu @ '',''),
      line 3 (''\"mem_size_mib\": '' @ itoa mem),
      line 2 ''},'',
      line 2 ''\"vsock\": {'',
      line 3 ''\"guest_cid\": 3,'',
      line 3 ''\"uds_path\": \"/run/v.sock\"'',
      line 2 ''},'',
      line 2 ''\"entropy\": {}'',
      line 1 ''}'']"

definition jailer_args :: "fc_config \<Rightarrow> string \<Rightarrow> int \<Rightarrow> string list" where
  "jailer_args f workerID leasedUID =
     [''--id'', workerID, ''--exec-file'', FirecrackerPath f, ''--uid'', itoa leasedUID, ''--gid'', itoa leasedUID,
      ''--chroot-base-dir'', JailerChrootBaseDir f, ''--'', ''--no-api'', ''--config-file'', ''/run/'' @ workerID @ ''.json'']"

definition launch_vm :: "host \<Rightarrow> int \<Rightarrow> fc_config \<Rightarrow> string \<Rightarrow> tenant_config \<Rightarrow> int \<Rightarrow> string \<Rightarrow> (fc_state, spawn_error, unit) action" where
  "launch_vm h nano f workerID cfg leasedUID guestIP =
     (let macByte = hex2 (nat (nano mod 256));
          vcpu = (if VCPUs cfg \<le> 0 then 1 else VCPUs cfg);
          mem = (if MemoryMB cfg \<le> 0 then 512 else MemoryMB cfg);
          configPath = path_Join [path_Join [chrootRoot f workerID, ''run''], workerID @ ''.json'']
      in thenE (wrapE WriteConfig (fs_call h (WriteFile configPath
             (vm_config DefaultGuestAgentPath guestIP macByte (tap_name workerID) vcpu mem))))
        (thenE (wrapE StartJailer (fs_call h (StartProcess (JailerPath f) (jailer_args f workerID leasedUID))))
               (push (UndoKill workerID))))"

text \<open>The dial loop: at most as many attempts as the clock lets start before the deadline.\<close>

primrec dial_loop :: "host \<Rightarrow> string \<Rightarrow> nat \<Rightarrow> (fc_state, spawn_error, unit) action" where
  "dial_loop h socketPath 0 = failE GuestUnreachable"
| "dial_loop h socketPath (Suc n) = bindE (tryE (fs_call h (DialVsock socketPath 5000))) (\<lambda>r. case r of
       Inr _ \<Rightarrow> returnE () | Inl _ \<Rightarrow> dial_loop h socketPath n)"

definition final_env :: "image_config \<Rightarrow> (string \<times> string) list \<Rightarrow> string list" where
  "final_env img env = ic_Env img @ map (\<lambda>(k, v). k @ ''='' @ v) env"

definition connect_guest :: "host \<Rightarrow> nat \<Rightarrow> fc_config \<Rightarrow> string \<Rightarrow> tenant_config \<Rightarrow> image_config \<Rightarrow> string list \<Rightarrow>
    (fc_state, spawn_error, string) action" where
  "connect_guest h attempts f workerID cfg imgConfig finalCmd =
     (let socketPath = path_Join [path_Join [chrootRoot f workerID, ''run''], ''v.sock''];
          logPath = path_Join [chrootRoot f workerID, workerID @ ''.log'']
      in thenE (dial_loop h socketPath attempts)
        (thenE (push (UndoConn workerID))
        (thenE (push (UndoCancel workerID))
        (thenE (ignoreE (fs_call h (OpenLog logPath)))
        (thenE (ignoreE (fs_call h (GoExecute workerID finalCmd (final_env imgConfig (Env cfg)))))
               (returnE socketPath))))))"

definition allocate_port :: "(string \<Rightarrow> string \<Rightarrow> bool) \<Rightarrow> string \<Rightarrow> port_mapping \<Rightarrow> (fc_state, spawn_error, int) action" where
  "allocate_port listen workerID pm s = (case fs_ports s of
       None \<Rightarrow> (Inr (HostPort pm), s)
     | Some m \<Rightarrow> (case port_Allocate listen (HostPort pm) (Protocol pm) (HostInterface pm) workerID m of
         (Inl e, m') \<Rightarrow> (Inl (PortAllocation (HostPort pm) (GuestPort pm) e), s\<lparr>fs_ports := Some m'\<rparr>)
       | (Inr p, m') \<Rightarrow> (Inr p, s\<lparr>fs_ports := Some m', fs_undo := fs_undo s @ [UndoPort p]\<rparr>)))"

primrec apply_mappings :: "host \<Rightarrow> (string \<Rightarrow> string \<Rightarrow> bool) \<Rightarrow> string \<Rightarrow> string \<Rightarrow> port_mapping list \<Rightarrow>
    (fc_state, spawn_error, port_mapping list) action" where
  "apply_mappings h listen workerID guestIP [] = returnE []"
| "apply_mappings h listen workerID guestIP (pm # pms) =
     bindE (allocate_port listen workerID pm) (\<lambda>hostPort.
     thenE (wrapE (IptablesSetup (HostPort pm) (GuestPort pm))
         (fs_tr (AddPortMapping h (HostInterface pm) hostPort guestIP (GuestPort pm) (Protocol pm))))
    (thenE (push (UndoMapping (HostInterface pm) hostPort guestIP (GuestPort pm) (Protocol pm)))
    (bindE (apply_mappings h listen workerID guestIP pms) (\<lambda>active.
     returnE (pm\<lparr>HostPort := hostPort\<rparr> # active)))))"

section \<open>Spawn and Close\<close>

definition spawn_body :: "host \<Rightarrow> (string \<Rightarrow> string \<Rightarrow> bool) \<Rightarrow> nat \<Rightarrow> int \<Rightarrow> fc_config \<Rightarrow> string \<Rightarrow> tenant_config \<Rightarrow>
    (fc_state, spawn_error, fc_worker) action" where
  "spawn_body h listen attempts nano f workerID cfg =
     bindE checkout_uid (\<lambda>leasedUID.
     thenE (push (UndoUID leasedUID))
    (bindE (prepare_rootfs h f workerID cfg) (\<lambda>(imgConfig, finalCmd, rootfsPath).
     thenE (build_chroot h f workerID leasedUID rootfsPath)
    (bindE (setup_network h workerID leasedUID) (\<lambda>guestIP.
     thenE (launch_vm h nano f workerID cfg leasedUID guestIP)
    (bindE (connect_guest h attempts f workerID cfg imgConfig finalCmd) (\<lambda>socketPath.
     bindE (apply_mappings h listen workerID guestIP (PortMappings cfg)) (\<lambda>activeMappings.
     returnE \<lparr>fw_id = workerID, fw_socketPath = socketPath, fw_tapName = tap_name workerID, fw_guestIP = guestIP,
       fw_chrootDir = chrootRoot f workerID, fw_leasedUID = leasedUID, fw_portMappings = activeMappings\<rparr>))))))))"

definition Spawn :: "host \<Rightarrow> (string \<Rightarrow> string \<Rightarrow> bool) \<Rightarrow> nat \<Rightarrow> int \<Rightarrow> fc_config \<Rightarrow> string \<Rightarrow> tenant_config \<Rightarrow>
    (fc_state, spawn_error, fc_worker) action" where
  "Spawn h listen attempts nano f sessionID cfg s =
     (case spawn_body h listen attempts nano f sessionID cfg (s\<lparr>fs_undo := []\<rparr>) of
        (Inr w, s') \<Rightarrow> (Inr w, s')
      | (Inl e, s') \<Rightarrow> (Inl e, rollback h s'))"

definition close_mapping :: "host \<Rightarrow> fc_worker \<Rightarrow> port_mapping \<Rightarrow> fc_state \<Rightarrow> fc_state" where
  "close_mapping h w pm s = port_give (HostPort pm)
     (snd (fs_tr (RemovePortMapping h (HostInterface pm) (HostPort pm) (fw_guestIP w) (GuestPort pm) (Protocol pm)) s))"

definition fc_Close :: "host \<Rightarrow> fc_worker \<Rightarrow> fc_state \<Rightarrow> fc_state" where
  "fc_Close h w s =
     (let s1 = snd (fs_call h (CancelWorker (fw_id w)) s);
          s2 = snd (fs_call h (KillProcess (fw_id w)) s1);
          s3 = (if fw_chrootDir w \<noteq> '''' then snd (fs_call h (RemoveAll (fw_chrootDir w)) s2) else s2);
          s4 = snd (fs_tr (DeleteTap h (fw_tapName w)) s3);
          s5 = (if fw_guestIP w \<noteq> '''' then ip_give (fw_guestIP w) s4 else s4);
          s6 = snd (fs_st (storage_Teardown h (fw_id w)) s5);
          s7 = (if fw_leasedUID w \<noteq> 0 then uids_give (fw_leasedUID w) s6 else s6)
      in fold (close_mapping h w) (fw_portMappings w) s7)"

definition fc_WarmImage :: "host \<Rightarrow> string \<Rightarrow> (fc_state, storage_error, unit) action" where
  "fc_WarmImage h imageRef = fs_st (WarmImage h imageRef)"

end
