(* ===== verification/Go_Text.thy ===== *)
theory Go_Text
  imports Go_Strings
begin

text \<open>
  Text that comes from files and commands: what the code uses of \<open>strings.Fields\<close>,
  \<open>strings.TrimSpace\<close>, \<open>strings.Contains\<close>, \<open>strconv.ParseInt\<close> and \<open>bufio.Scanner\<close>.  White
  space is ASCII white space; the files and command outputs concerned are ASCII.
\<close>

section \<open>White space\<close>

definition is_space :: "char \<Rightarrow> bool" where
  "is_space c \<longleftrightarrow> (of_char c :: nat) \<in> {9, 10, 11, 12, 13, 32}"

fun split_by :: "(char \<Rightarrow> bool) \<Rightarrow> string \<Rightarrow> string list" where
  "split_by p [] = [[]]"
| "split_by p (x # xs) =
     (if p x then [] # split_by p xs
      else (case split_by p xs of [] \<Rightarrow> [[x]] | y # ys \<Rightarrow> (x # y) # ys))"

text \<open>\<open>strings.Fields\<close>.\<close>

definition go_fields :: "string \<Rightarrow> string list" where
  "go_fields s = filter (\<lambda>w. w \<noteq> []) (split_by is_space s)"

text \<open>\<open>strings.TrimSpace\<close> and \<open>strings.TrimSuffix\<close>.\<close>

definition trim_space :: "string \<Rightarrow> string" where
  "trim_space s = rev (dropWhile is_space (rev (dropWhile is_space s)))"

definition trim_suffix :: "string \<Rightarrow> string \<Rightarrow> string" where
  "trim_suffix suf s = (if suf = drop (length s - length suf) s then take (length s - length suf) s else s)"

text \<open>\<open>strings.Contains\<close>.\<close>

fun contains_str :: "string \<Rightarrow> string \<Rightarrow> bool" where
  "contains_str sub [] = (sub = [])"
| "contains_str sub (x # xs) = (has_prefix sub (x # xs) \<or> contains_str sub xs)"

lemma split_by_ne [simp]: "split_by p s \<noteq> []"
  by (induction s) (auto split: list.splits)

lemma split_by_plain: "(\<And>c. c \<in> set s \<Longrightarrow> \<not> p c) \<Longrightarrow> split_by p s = [s]"
  by (induction s) auto

lemma split_by_append: "(\<And>c. c \<in> set a \<Longrightarrow> \<not> p c) \<Longrightarrow> p x \<Longrightarrow> split_by p (a @ x # b) = a # split_by p b"
  by (induction a) auto

text \<open>A word: not empty and without white space.\<close>

definition is_word :: "string \<Rightarrow> bool" where
  "is_word w \<longleftrightarrow> w \<noteq> [] \<and> (\<forall>c \<in> set w. \<not> is_space c)"

lemma go_fields_word: "is_word w \<Longrightarrow> go_fields w = [w]"
  by (simp add: go_fields_def is_word_def split_by_plain)

lemma go_fields_Cons: "is_word w \<Longrightarrow> is_space x \<Longrightarrow> go_fields (w @ x # s) = w # go_fields s"
  by (simp add: go_fields_def is_word_def split_by_append)

lemma go_fields_space: "is_space x \<Longrightarrow> go_fields (x # s) = go_fields s"
  by (simp add: go_fields_def)

lemma is_space_simps [simp]: "is_space (CHR '' '')" "is_space (CHR 0x0A)" "is_space (CHR 0x09)"
  by (simp_all add: is_space_def)

lemma digit_not_space: "is_digit c \<Longrightarrow> \<not> is_space c"
  by (auto simp: is_digit_def is_space_def)

lemma is_word_itoa [simp]: "is_word (itoa_nat n)"
  using itoa_nat_digits [of n] itoa_nat_nonempty [of n] by (auto simp: is_word_def list_all_iff digit_not_space)

lemma trim_space_plain:
  assumes "s \<noteq> [] \<Longrightarrow> \<not> is_space (hd s) \<and> \<not> is_space (last s)"
  shows "trim_space s = s"
proof (cases "s = []")
  case False
  then have "dropWhile is_space s = s" using assms by (cases s) auto
  moreover have "dropWhile is_space (rev s) = rev s" using assms False by (cases s rule: rev_cases) auto
  ultimately show ?thesis by (simp add: trim_space_def)
qed (simp add: trim_space_def)

lemma trim_space_word: "is_word w \<Longrightarrow> trim_space w = w"
  by (rule trim_space_plain) (auto simp: is_word_def)

lemma trim_space_newline: "is_word w \<Longrightarrow> trim_space (w @ [CHR 0x0A]) = w"
proof -
  assume w: "is_word w"
  then have "dropWhile is_space (w @ [CHR 0x0A]) = w @ [CHR 0x0A]" by (cases w) (auto simp: is_word_def)
  moreover have "dropWhile is_space (rev w) = rev w" using w by (cases w rule: rev_cases) (auto simp: is_word_def)
  ultimately show "trim_space (w @ [CHR 0x0A]) = w" by (simp add: trim_space_def)
qed

lemma contains_append: "contains_str sub (a @ sub @ b)"
proof (induction a)
  case Nil
  show ?case
  proof (cases "sub @ b")
    case (Cons a l)
    with has_prefix_append [of sub b] show ?thesis by simp
  qed simp
qed simp

section \<open>Numbers\<close>

text \<open>
  \<open>strconv.ParseInt(s, 10, 64)\<close> with both results: whether it succeeds, and the value, which on a
  range error is the nearest 64-bit integer and on a syntax error zero.
\<close>

definition ParseInt64 :: "string \<Rightarrow> bool \<times> int" where
  "ParseInt64 s =
     (let digits = (if s \<noteq> [] \<and> hd s \<in> {CHR ''+'', CHR ''-''} then tl s else s) in
      case parse_dec digits of
        None \<Rightarrow> (False, 0)
      | Some n \<Rightarrow> (let i = (if s \<noteq> [] \<and> hd s = CHR ''-'' then - int n else int n) in
          if i < - (2 ^ 63) then (False, - (2 ^ 63))
          else if 2 ^ 63 \<le> i then (False, 2 ^ 63 - 1) else (True, i)))"

lemma ParseInt64_atoi: "atoi s = (case ParseInt64 s of (ok, i) \<Rightarrow> if ok then Some i else None)"
  by (simp add: ParseInt64_def atoi_def Let_def split: option.splits)

lemma ParseInt64_itoa: "int n < 2 ^ 63 \<Longrightarrow> ParseInt64 (itoa_nat n) = (True, int n)"
  using ParseInt64_atoi [of "itoa_nat n"] atoi_itoa_nat [of n] by (auto split: prod.splits if_splits)

section \<open>Lines\<close>

text \<open>
  \<open>bufio.Scanner\<close> with its default split function and buffer: the lines without their line feed
  and one carriage return before it, up to the first line that does not fit the buffer of 64 KiB;
  the flag says whether the scan ended with that error.
\<close>

definition drop_cr :: "string \<Rightarrow> string" where
  "drop_cr l = trim_suffix [CHR 0x0D] l"

fun scan :: "string list \<Rightarrow> string list \<times> bool" where
  "scan [] = ([], False)"
| "scan [l] = (if l = [] then ([], False) else if 65536 \<le> length l then ([], True) else ([drop_cr l], False))"
| "scan (l # m # ls) = (if 65536 \<le> length l then ([], True) else (case scan (m # ls) of (xs, e) \<Rightarrow> (drop_cr l # xs, e)))"

definition scan_lines :: "string \<Rightarrow> string list \<times> bool" where
  "scan_lines s = scan (split_on (CHR 0x0A) s)"

lemma drop_cr_plain: "CHR 0x0D \<notin> set l \<Longrightarrow> drop_cr l = l"
  by (cases l rule: rev_cases) (auto simp: drop_cr_def trim_suffix_def)

text \<open>A text of lines, each ended by a line feed, is scanned into these lines.\<close>

lemma scan_lines_text:
  assumes "\<And>l. l \<in> set ls \<Longrightarrow> length l < 65536 \<and> CHR 0x0A \<notin> set l \<and> CHR 0x0D \<notin> set l"
  shows "scan_lines (concat (map (\<lambda>l. l @ [CHR 0x0A]) ls)) = (ls, False)"
  using assms
proof (induction ls)
  case (Cons l ls)
  have "l \<in> set (l # ls)" by simp
  from Cons.prems [OF this] have l: "length l < 65536" "CHR 0x0A \<notin> set l" "drop_cr l = l" by (simp_all add: drop_cr_plain)
  let ?rest = "concat (map (\<lambda>l. l @ [CHR 0x0A]) ls)"
  obtain m ms where m: "split_on (CHR 0x0A) ?rest = m # ms" by (cases "split_on (CHR 0x0A) ?rest") auto
  have "scan_lines ?rest = (ls, False)" using Cons by simp
  with l m show ?case by (simp add: scan_lines_def split_on_append)
qed (simp add: scan_lines_def)

end
