(* ===== verification/Guest_Agent.thy ===== *)
theory Guest_Agent
  imports Factory Go_Text
begin

text \<open>
  The agent that boots as the first process of a guest, \<open>cmd/herd-guest-agent/main.go\<close>: the
  mounts, the network set-up from the kernel command line, the execution bridge and the
  interactive shells, and the three goroutines of \<open>main\<close> as a step relation.  The kernel of the
  guest is a \<open>host\<close> of its own (\<open>h\<close>), and \<open>out\<close> gives the contents of the files that are read.
\<close>

section \<open>Errors and constants\<close>

datatype guest_error =
    MountFailed string host_err
  | SymlinkRemove string host_err
  | SymlinkCreate string host_err
  | FindLo host_err
  | UpLo host_err
  | ReadCmdline host_err
  | MissingAddress string
  | InvalidAddress string string
  | AddAddress host_err
  | UpEth0 host_err
  | AddRoute host_err
  | WriteResolv string host_err
  | DecodePayload
  | EmptyCommand
  | NotInPath string
  | WorkloadFailed host_err
  | PtyStart host_err
  | ShellFailed host_err

type_synonym 'a guest_action = "(trace, guest_error, 'a) action"

definition EBUSY :: host_err where
  "EBUSY = OtherErr ''device or resource busy''"

definition containerRoot :: string where
  "containerRoot = ''/mnt/container''"

definition cmdline_path :: string where
  "cmdline_path = ''/proc/cmdline''"

section \<open>Mounts\<close>

definition mount_busy_ok :: "host \<Rightarrow> string \<Rightarrow> string \<Rightarrow> string \<Rightarrow> string list \<Rightarrow> string \<Rightarrow> unit guest_action" where
  "mount_busy_ok h src dst fs flags data =
     bindE (tryE (perform h (MountFS src dst fs flags data))) (\<lambda>r. case r of
         Inr _ \<Rightarrow> returnE ()
       | Inl e \<Rightarrow> if e = EBUSY then returnE () else failE (MountFailed dst e))"

definition mountBaseFilesystems :: "host \<Rightarrow> unit guest_action" where
  "mountBaseFilesystems h =
     thenE (ignoreE (perform h (MkdirAll ''/proc'')))
    (thenE (mount_busy_ok h ''proc'' ''/proc'' ''proc'' [''nodev'', ''noexec'', ''nosuid''] '''')
    (thenE (ignoreE (perform h (MkdirAll ''/sys'')))
    (thenE (mount_busy_ok h ''sysfs'' ''/sys'' ''sysfs'' [''nodev'', ''noexec'', ''nosuid''] '''')
    (thenE (ignoreE (perform h (MkdirAll ''/dev'')))
    (thenE (mount_busy_ok h ''devtmpfs'' ''/dev'' ''devtmpfs'' [''nosuid''] '''')
    (thenE (ignoreE (perform h (MkdirAll ''/dev/shm'')))
           (mount_busy_ok h ''tmpfs'' ''/dev/shm'' ''tmpfs'' [''nosuid'', ''nodev''] ''size=100m,mode=1777'')))))))"

text \<open>Fifty attempts with a pause between them, and a last one whose error is returned.\<close>

definition listenVsock :: "host \<Rightarrow> nat \<Rightarrow> (trace, host_err, unit) action" where
  "listenVsock h port = retryE 50 (perform h (ListenVsock port))"

definition cmdlineHasHerdRootfs :: "host \<Rightarrow> (trace \<Rightarrow> call \<Rightarrow> string) \<Rightarrow> bool guest_action" where
  "cmdlineHasHerdRootfs h out = bindE (run_out h out (ReadFile cmdline_path)) (\<lambda>(b, err).
     returnE (err = None \<and> contains_str ''herd_rootfs=1'' b))"

definition replaceSymlink :: "host \<Rightarrow> string \<Rightarrow> string \<Rightarrow> unit guest_action" where
  "replaceSymlink h oldname newname =
     bindE (tryE (perform h (RemoveFile newname))) (\<lambda>r. case r of
         Inl e \<Rightarrow> if e = NotFound then wrapE (SymlinkCreate newname) (perform h (Symlink oldname newname))
                  else failE (SymlinkRemove newname e)
       | Inr _ \<Rightarrow> wrapE (SymlinkCreate newname) (perform h (Symlink oldname newname)))"

definition bind_mount :: "host \<Rightarrow> string \<Rightarrow> string \<Rightarrow> unit guest_action" where
  "bind_mount h src dst = wrapE (MountFailed dst) (perform h (MountFS src dst '''' [''bind'', ''rec''] ''''))"

definition container_tmpfs :: "host \<Rightarrow> string \<Rightarrow> string \<Rightarrow> unit guest_action" where
  "container_tmpfs h dir data =
     thenE (ignoreE (perform h (MkdirAll (containerRoot @ dir))))
           (wrapE (MountFailed (containerRoot @ dir))
             (perform h (MountFS ''tmpfs'' (containerRoot @ dir) ''tmpfs'' [''nosuid'', ''nodev''] data)))"

definition mount_rootfs :: "host \<Rightarrow> (trace \<Rightarrow> call \<Rightarrow> string) \<Rightarrow> unit guest_action" where
  "mount_rootfs h out = bindE (cmdlineHasHerdRootfs h out) (\<lambda>b.
     if b then bind_mount h ''/'' containerRoot
     else wrapE (MountFailed containerRoot)
            (retryE 19 (perform h (MountFS ''/dev/vda'' containerRoot ''ext4'' [''noatime''] ''''))))"

definition devSymlinks :: "(string \<times> string) list" where
  "devSymlinks =
     [(''/proc/self/fd'', containerRoot @ ''/dev/fd''), (''/proc/self/fd/0'', containerRoot @ ''/dev/stdin''),
      (''/proc/self/fd/1'', containerRoot @ ''/dev/stdout''), (''/proc/self/fd/2'', containerRoot @ ''/dev/stderr'')]"

definition mount_devpts :: "host \<Rightarrow> unit guest_action" where
  "mount_devpts h =
     thenE (ignoreE (perform h (MkdirAll ''/dev/pts'')))
    (thenE (wrapE (MountFailed ''/dev/pts'')
       (retryE 9 (perform h (MountFS ''devpts'' ''/dev/pts'' ''devpts'' [''nosuid'', ''noexec''] ''ptmxmode=0666''))))
    (bindE (tryE (perform h (StatFile ''/dev/ptmx''))) (\<lambda>r.
       if r = Inl NotFound then ignoreE (perform h (Symlink ''/dev/pts/ptmx'' ''/dev/ptmx'')) else returnE ())))"

definition mountContainerFilesystems :: "host \<Rightarrow> (trace \<Rightarrow> call \<Rightarrow> string) \<Rightarrow> unit guest_action" where
  "mountContainerFilesystems h out =
     thenE (ignoreE (retryE 199 (perform h (StatFile ''/dev/vda''))))
    (thenE (mount_devpts h)
    (thenE (ignoreE (perform h (MkdirAll containerRoot)))
    (thenE (mount_rootfs h out)
    (thenE (forE [''/proc'', ''/sys'', ''/dev''] (\<lambda>m.
        thenE (ignoreE (perform h (MkdirAll (containerRoot @ m)))) (bind_mount h m (containerRoot @ m))))
    (thenE (container_tmpfs h ''/dev/shm'' ''size=64m,mode=1777'')
    (thenE (container_tmpfs h ''/tmp'' ''size=64m,mode=1777'')
    (thenE (container_tmpfs h ''/run'' ''size=16m,mode=0755'')
    (thenE (replaceSymlink h ''/run'' (containerRoot @ ''/var/run''))
           (forE devSymlinks (\<lambda>(a, b). replaceSymlink h a b))))))))))"

section \<open>Networking\<close>

text \<open>The last \<open>herd_ip=\<close> and \<open>herd_gw=\<close> fields of the kernel command line.\<close>

definition cmdline_step :: "string \<times> string \<Rightarrow> string \<Rightarrow> string \<times> string" where
  "cmdline_step acc p =
     (if has_prefix ''herd_ip='' p then (trim_prefix ''herd_ip='' p, snd acc)
      else if has_prefix ''herd_gw='' p then (fst acc, trim_prefix ''herd_gw='' p)
      else acc)"

definition cmdline_addresses :: "string \<Rightarrow> string \<times> string" where
  "cmdline_addresses cmdline = foldl cmdline_step ('''', '''') (go_fields cmdline)"

definition dnsConfig :: string where
  "dnsConfig = ''nameserver 8.8.8.8'' @ [CHR 0x0A] @ ''nameserver 1.1.1.1'' @ [CHR 0x0A]"

definition configure_dns :: "host \<Rightarrow> unit guest_action" where
  "configure_dns h =
     thenE (ignoreE (perform h (MkdirAll ''/etc'')))
    (thenE (wrapE (WriteResolv ''/etc/resolv.conf'') (perform h (WriteFile ''/etc/resolv.conf'' dnsConfig)))
    (thenE (ignoreE (perform h (MkdirAll ''/mnt/container/etc'')))
    (thenE (ignoreE (perform h (RemoveFile ''/mnt/container/etc/resolv.conf'')))
           (wrapE (WriteResolv ''/mnt/container/etc/resolv.conf'')
             (perform h (WriteFile ''/mnt/container/etc/resolv.conf'' dnsConfig))))))"

text \<open>The address of \<open>eth0\<close> with the gateway as its peer (both with a mask of 32 bits), and the default route.\<close>

definition configure_eth0 :: "host \<Rightarrow> (trace \<Rightarrow> call \<Rightarrow> string) \<Rightarrow> unit guest_action" where
  "configure_eth0 h out =
     bindE (run_out h out (ReadFile cmdline_path)) (\<lambda>(cmdline, err). case err of
       Some e \<Rightarrow> failE (ReadCmdline e)
     | None \<Rightarrow> (let (ipStr, gwStr) = cmdline_addresses cmdline in
         if ipStr = '''' \<or> gwStr = '''' then failE (MissingAddress cmdline)
         else if ParseIP ipStr = None \<or> ParseIP gwStr = None then failE (InvalidAddress ipStr gwStr)
         else
           thenE (wrapE AddAddress (perform h (AddrAdd ''eth0'' ipStr (Some gwStr))))
          (thenE (wrapE UpEth0 (perform h (LinkSetUp ''eth0'')))
          (thenE (wrapE AddRoute (perform h (RouteAdd ''0.0.0.0/0'' gwStr)))
                 (configure_dns h)))))"

definition configureNetworking :: "host \<Rightarrow> (trace \<Rightarrow> call \<Rightarrow> string) \<Rightarrow> unit guest_action" where
  "configureNetworking h out =
     thenE (wrapE FindLo (perform h (LinkByName ''lo'')))
    (thenE (wrapE UpLo (perform h (LinkSetUp ''lo'')))
    (bindE (tryE (perform h (LinkByName ''eth0''))) (\<lambda>r. case r of
         Inl _ \<Rightarrow> returnE ()
       | Inr _ \<Rightarrow> configure_eth0 h out)))"

section \<open>Execution\<close>

record exec_payload =
  ep_Command :: "string list"
  ep_Env :: "string list"

definition search_paths :: "string list" where
  "search_paths = [''/usr/local/bin'', ''/usr/bin'', ''/bin'', ''/usr/local/sbin'', ''/usr/sbin'', ''/sbin'']"

primrec find_bin :: "host \<Rightarrow> string \<Rightarrow> string list \<Rightarrow> string guest_action" where
  "find_bin h bin [] = returnE bin"
| "find_bin h bin (p # ps) = bindE (tryE (perform h (StatFile (containerRoot @ p @ ''/'' @ bin)))) (\<lambda>r. case r of
       Inr _ \<Rightarrow> returnE (p @ ''/'' @ bin) | Inl _ \<Rightarrow> find_bin h bin ps)"

definition default_path :: string where
  "default_path = ''PATH=/usr/local/sbin:/usr/local/bin:/usr/sbin:/usr/bin:/sbin:/bin''"

text \<open>What follows the wait for the ready channel.\<close>

definition run_payload :: "host \<Rightarrow> string list \<Rightarrow> string list \<Rightarrow> unit guest_action" where
  "run_payload h cmd env =
     bindE (if has_prefix ''/'' (hd cmd) then returnE (hd cmd) else find_bin h (hd cmd) search_paths) (\<lambda>bin.
     if \<not> has_prefix ''/'' bin then failE (NotInPath (hd cmd))
     else wrapE WorkloadFailed (perform h (RunWorkload containerRoot bin cmd (default_path # env))))"

text \<open>The payload is \<open>None\<close> when it cannot be decoded.\<close>

definition handleExecution :: "host \<Rightarrow> exec_payload option \<Rightarrow> unit guest_action" where
  "handleExecution h payload = (case payload of
       None \<Rightarrow> failE DecodePayload
     | Some p \<Rightarrow> if ep_Command p = [] then failE EmptyCommand else run_payload h (ep_Command p) (ep_Env p))"

definition handleInteractiveShell :: "host \<Rightarrow> unit guest_action" where
  "handleInteractiveShell h =
     thenE (ignoreE (perform h (StatFile (containerRoot @ ''/bin/bash''))))
    (thenE (wrapE PtyStart (perform h (StartShell containerRoot ''/bin/bash'' [default_path, ''TERM=xterm''])))
           (deferE (perform h (CloseFile ''/dev/ptmx'')) (wrapE ShellFailed (perform h (WaitProcess ''/bin/bash'')))))"

text \<open>The message goes to the console when it can be opened, and the machine is switched off.\<close>

definition die :: "host \<Rightarrow> trace \<Rightarrow> trace" where
  "die h tr = (case perform h (OpenFile ''/dev/console'') tr of
       (Inr _, tr') \<Rightarrow> snd (perform h PowerOff (snd (perform h (CloseFile ''/dev/console'') tr')))
     | (Inl _, tr') \<Rightarrow> snd (perform h PowerOff tr'))"

section \<open>The goroutines of main\<close>

text \<open>
  Where each goroutine stands.  The main goroutine mounts the base file systems, listens, accepts
  the control connection and runs the workload; the boot goroutine mounts the container and
  configures the network, then closes the ready channel; the exec server accepts connections,
  each served by a goroutine that waits for the ready channel (\<open>g_conns\<close> counts the waiting
  ones).  A step is one call of the functions above; \<open>g_off\<close> is set once the process has ended.
\<close>

datatype main_pc = MBase | MListen | MAccept | MExec | MDone

datatype boot_pc = BIdle | BMount | BNet | BDone

datatype exec_pc = XIdle | XListen | XServe | XDone

record guest =
  g_trace :: trace
  g_main :: main_pc
  g_boot :: boot_pc
  g_exec :: exec_pc
  g_conns :: nat
  g_ready :: bool
  g_off :: bool

definition guest_init :: guest where
  "guest_init = \<lparr>g_trace = [], g_main = MBase, g_boot = BIdle, g_exec = XIdle, g_conns = 0, g_ready = False, g_off = False\<rparr>"

datatype guest_event =
    MainBase | MainListen | MainAccept | MainExec "exec_payload option"
  | BootMount | BootNet | ExecListen | ExecAccept | ShellRun

definition guest_die :: "host \<Rightarrow> trace \<Rightarrow> guest \<Rightarrow> guest" where
  "guest_die h tr g = g\<lparr>g_trace := die h tr, g_off := True\<rparr>"

definition main_base :: "host \<Rightarrow> guest \<Rightarrow> guest" where
  "main_base h g = (case mountBaseFilesystems h (g_trace g) of
       (Inl _, tr) \<Rightarrow> guest_die h tr g
     | (Inr _, tr) \<Rightarrow> g\<lparr>g_trace := tr, g_main := MListen, g_exec := XListen\<rparr>)"

definition main_listen :: "host \<Rightarrow> guest \<Rightarrow> guest" where
  "main_listen h g = (case listenVsock h 5000 (g_trace g) of
       (Inl _, tr) \<Rightarrow> guest_die h tr g
     | (Inr _, tr) \<Rightarrow> g\<lparr>g_trace := tr, g_main := MAccept, g_boot := BMount\<rparr>)"

definition main_accept :: "host \<Rightarrow> guest \<Rightarrow> guest" where
  "main_accept h g = (case perform h (AcceptVsock 5000) (g_trace g) of
       (Inl _, tr) \<Rightarrow> guest_die h tr g
     | (Inr _, tr) \<Rightarrow> g\<lparr>g_trace := tr, g_main := MExec\<rparr>)"

text \<open>The workload, the end of its connection, and the end of the machine.\<close>

definition main_exec :: "host \<Rightarrow> exec_payload option \<Rightarrow> guest \<Rightarrow> guest" where
  "main_exec h payload g =
     g\<lparr>g_trace := snd (perform h PowerOff (snd (perform h (ConnClose ''control'') (snd (handleExecution h payload (g_trace g)))))),
       g_main := MDone, g_off := True\<rparr>"

definition boot_mount :: "host \<Rightarrow> (trace \<Rightarrow> call \<Rightarrow> string) \<Rightarrow> guest \<Rightarrow> guest" where
  "boot_mount h out g = (case mountContainerFilesystems h out (g_trace g) of
       (Inl _, tr) \<Rightarrow> guest_die h tr g
     | (Inr _, tr) \<Rightarrow> g\<lparr>g_trace := tr, g_boot := BNet\<rparr>)"

definition boot_net :: "host \<Rightarrow> (trace \<Rightarrow> call \<Rightarrow> string) \<Rightarrow> guest \<Rightarrow> guest" where
  "boot_net h out g = (case configureNetworking h out (g_trace g) of
       (Inl _, tr) \<Rightarrow> guest_die h tr g
     | (Inr _, tr) \<Rightarrow> g\<lparr>g_trace := tr, g_boot := BDone, g_ready := True\<rparr>)"

definition exec_listen :: "host \<Rightarrow> guest \<Rightarrow> guest" where
  "exec_listen h g = (case perform h (ListenVsock 5001) (g_trace g) of
       (Inl _, tr) \<Rightarrow> g\<lparr>g_trace := tr, g_exec := XDone\<rparr>
     | (Inr _, tr) \<Rightarrow> g\<lparr>g_trace := tr, g_exec := XServe\<rparr>)"

definition exec_accept :: "host \<Rightarrow> guest \<Rightarrow> guest" where
  "exec_accept h g = (case perform h (AcceptVsock 5001) (g_trace g) of
       (Inl _, tr) \<Rightarrow> g\<lparr>g_trace := tr\<rparr>
     | (Inr _, tr) \<Rightarrow> g\<lparr>g_trace := tr, g_conns := Suc (g_conns g)\<rparr>)"

definition shell_run :: "host \<Rightarrow> guest \<Rightarrow> guest" where
  "shell_run h g =
     g\<lparr>g_trace := snd (perform h (ConnClose ''shell'') (snd (handleInteractiveShell h (g_trace g)))), g_conns := g_conns g - 1\<rparr>"

text \<open>The payload is decoded and tested before the wait for the ready channel.\<close>

definition exec_waits :: "exec_payload option \<Rightarrow> bool" where
  "exec_waits payload \<longleftrightarrow> (case payload of None \<Rightarrow> False | Some p \<Rightarrow> ep_Command p \<noteq> [])"

definition guest_do :: "host \<Rightarrow> (trace \<Rightarrow> call \<Rightarrow> string) \<Rightarrow> guest_event \<Rightarrow> guest \<Rightarrow> guest option" where
  "guest_do h out ev g =
     (if g_off g then None else case ev of
       MainBase \<Rightarrow> if g_main g = MBase then Some (main_base h g) else None
     | MainListen \<Rightarrow> if g_main g = MListen then Some (main_listen h g) else None
     | MainAccept \<Rightarrow> if g_main g = MAccept then Some (main_accept h g) else None
     | MainExec p \<Rightarrow> if g_main g = MExec \<and> (exec_waits p \<longrightarrow> g_ready g) then Some (main_exec h p g) else None
     | BootMount \<Rightarrow> if g_boot g = BMount then Some (boot_mount h out g) else None
     | BootNet \<Rightarrow> if g_boot g = BNet then Some (boot_net h out g) else None
     | ExecListen \<Rightarrow> if g_exec g = XListen then Some (exec_listen h g) else None
     | ExecAccept \<Rightarrow> if g_exec g = XServe then Some (exec_accept h g) else None
     | ShellRun \<Rightarrow> if g_ready g \<and> 0 < g_conns g then Some (shell_run h g) else None)"

inductive guest_reach :: "host \<Rightarrow> (trace \<Rightarrow> call \<Rightarrow> string) \<Rightarrow> guest \<Rightarrow> bool" for h out where
  guest_start: "guest_reach h out guest_init"
| guest_next: "guest_reach h out g \<Longrightarrow> guest_do h out ev g = Some g' \<Longrightarrow> guest_reach h out g'"

end
