(* ===== verification/Guest_Safety.thy ===== *)
theory Guest_Safety
  imports Guest_Agent
begin

text \<open>
  Properties of the guest agent: what its boot functions have done when they succeed, the
  invariant of its goroutines (nothing of the tenant runs before the boot has finished), and a
  whole boot from the command line that the factory writes.
\<close>

section \<open>What a successful action has done\<close>

definition did :: "call \<Rightarrow> trace \<Rightarrow> bool" where
  "did c tr \<longleftrightarrow> (c, None) \<in> set tr"

text \<open>\<open>after Q m\<close>: whenever \<open>m\<close> succeeds, \<open>Q\<close> holds of the trace; \<open>stable Q\<close>: more calls keep \<open>Q\<close>.\<close>

definition after :: "(trace \<Rightarrow> bool) \<Rightarrow> (trace, 'e, 'a) action \<Rightarrow> bool" where
  "after Q m \<longleftrightarrow> (\<forall>tr x tr'. m tr = (Inr x, tr') \<longrightarrow> Q tr')"

definition stable :: "(trace \<Rightarrow> bool) \<Rightarrow> bool" where
  "stable Q \<longleftrightarrow> (\<forall>tr new. Q tr \<longrightarrow> Q (tr @ new))"

lemma afterD: "after Q m \<Longrightarrow> m tr = (Inr x, tr') \<Longrightarrow> Q tr'"
  by (auto simp: after_def)

lemma emits_mono: "emits pr P m \<Longrightarrow> (\<And>c. P c \<Longrightarrow> P' c) \<Longrightarrow> emits pr P' m"
  unfolding emits_def list_all_iff by metis

lemma stable_grow: "stable Q \<Longrightarrow> emits (\<lambda>t. t) P m \<Longrightarrow> Q tr \<Longrightarrow> Q (snd (m tr))"
  unfolding stable_def emits_def by metis

lemma stable_did [simp]: "stable (did c)"
  by (simp add: stable_def did_def)

lemma stable_conj: "stable P \<Longrightarrow> stable Q \<Longrightarrow> stable (\<lambda>t. P t \<and> Q t)"
  by (simp add: stable_def)

lemma after_perform: "after (did c) (perform h c)"
  by (simp add: after_def perform_def did_def split: option.splits)

lemma after_wrap: "after Q m \<Longrightarrow> after Q (wrapE f m)"
  by (auto simp: after_def wrapE_def split: prod.splits sum.splits)

lemma after_retry: "after Q m \<Longrightarrow> after Q (retryE n m)"
  by (induction n) (auto simp: after_def split: prod.splits sum.splits)

lemma after_bind2: "(\<And>x. after Q (k x)) \<Longrightarrow> after Q (bindE m k)"
  by (auto simp: after_def bindE_def split: prod.splits sum.splits)

lemma after_then2: "after Q k \<Longrightarrow> after Q (thenE m k)"
  by (simp add: thenE_def after_bind2)

text \<open>Both halves of a sequence.\<close>

lemma after_then:
  assumes "after P m" and "after Q k" and "stable P" and "emits (\<lambda>t. t) R k"
  shows "after (\<lambda>t. P t \<and> Q t) (thenE m k)"
proof -
  have "P tr' \<and> Q tr'" if run: "thenE m k tr = (Inr x, tr')" for tr x tr'
  proof -
    from run obtain y tr1 where 1: "m tr = (Inr y, tr1)" "k tr1 = (Inr x, tr')"
      by (auto simp: thenE_def bindE_def split: prod.splits sum.splits)
    from 1(1) assms(1) have "P tr1" by (auto simp: after_def)
    with stable_grow [OF assms(3,4), of tr1] 1(2) have "P tr'" by simp
    with 1(2) assms(2) show ?thesis by (auto simp: after_def)
  qed
  then show ?thesis by (simp add: after_def)
qed

lemmas after_call = after_perform after_wrap after_retry

section \<open>Nothing of the tenant runs before the boot has finished\<close>

definition starts_workload :: "call \<Rightarrow> bool" where
  "starts_workload c \<longleftrightarrow> (case c of RunWorkload _ _ _ _ \<Rightarrow> True | StartShell _ _ _ \<Rightarrow> True | _ \<Rightarrow> False)"

text \<open>A process of the tenant runs under the container's root, an absolute path and the default search path first.\<close>

definition confined :: "call \<Rightarrow> bool" where
  "confined c \<longleftrightarrow> (case c of
       RunWorkload root bin _ env \<Rightarrow> root = containerRoot \<and> has_prefix ''/'' bin \<and> take 1 env = [default_path]
     | StartShell root bin env \<Rightarrow> root = containerRoot \<and> has_prefix ''/'' bin \<and> take 1 env = [default_path]
     | _ \<Rightarrow> False)"

definition container_ready :: "trace \<Rightarrow> bool" where
  "container_ready tr \<longleftrightarrow>
     (did (MountFS ''/'' containerRoot '''' [''bind'', ''rec''] '''') tr \<or> did (MountFS ''/dev/vda'' containerRoot ''ext4'' [''noatime''] '''') tr) \<and>
     list_all (\<lambda>d. did (MountFS d (containerRoot @ d) '''' [''bind'', ''rec''] '''') tr) [''/proc'', ''/sys'', ''/dev''] \<and>
     did (MountFS ''tmpfs'' (containerRoot @ ''/run'') ''tmpfs'' [''nosuid'', ''nodev''] ''size=16m,mode=0755'') tr"

text \<open>The guest has no network card, or the card has its address, its route and its name servers.\<close>

definition network_ready :: "trace \<Rightarrow> bool" where
  "network_ready tr \<longleftrightarrow> did (LinkSetUp ''lo'') tr \<and>
     ((\<exists>e. (LinkByName ''eth0'', Some e) \<in> set tr) \<or>
      (\<exists>ip gw. did (AddrAdd ''eth0'' ip (Some gw)) tr \<and> did (LinkSetUp ''eth0'') tr \<and> did (RouteAdd ''0.0.0.0/0'' gw) tr \<and>
         did (WriteFile ''/mnt/container/etc/resolv.conf'' dnsConfig) tr))"

definition booted :: "trace \<Rightarrow> bool" where
  "booted tr \<longleftrightarrow> container_ready tr \<and> network_ready tr"

lemma stable_container_ready: "stable container_ready"
  by (auto simp: stable_def container_ready_def did_def)

lemma stable_booted: "stable booted"
  unfolding stable_def booted_def container_ready_def network_ready_def did_def set_append list_all_iff by blast

text \<open>The trace read backwards: whatever starts a workload is confined, and what precedes it boots the guest.\<close>

fun gated_rev :: "trace \<Rightarrow> bool" where
  "gated_rev [] = True"
| "gated_rev (x # xs) \<longleftrightarrow> gated_rev xs \<and> (starts_workload (fst x) \<longrightarrow> confined (fst x) \<and> booted (rev xs))"

definition gated :: "trace \<Rightarrow> bool" where
  "gated tr \<longleftrightarrow> gated_rev (rev tr)"

lemma gated_rev_split: "gated_rev (ys @ x # xs) \<Longrightarrow> starts_workload (fst x) \<Longrightarrow> confined (fst x) \<and> booted (rev xs)"
  by (induction ys) auto

lemma gatedD: "gated (pre @ (c, r) # post) \<Longrightarrow> starts_workload c \<Longrightarrow> confined c \<and> booted pre"
  using gated_rev_split [of "rev post" "(c, r)" "rev pre"] by (simp add: gated_def)

lemma gated_quiet: "gated tr \<Longrightarrow> list_all (\<lambda>x. \<not> starts_workload (fst x)) new \<Longrightarrow> gated (tr @ new)"
  by (induction new rule: rev_induct) (simp_all add: gated_def flip: append_assoc)

lemma gated_booted:
  "gated tr \<Longrightarrow> booted tr \<Longrightarrow> list_all (\<lambda>x. starts_workload (fst x) \<longrightarrow> confined (fst x)) new \<Longrightarrow> gated (tr @ new)"
proof (induction new rule: rev_induct)
  case (snoc x new)
  with stable_booted have "booted (tr @ new)" by (auto simp: stable_def)
  with snoc show ?case by (simp add: gated_def flip: append_assoc)
qed simp

abbreviation quiet :: "(trace, 'e, 'a) action \<Rightarrow> bool" where
  "quiet m \<equiv> emits (\<lambda>t. t) (\<lambda>c. \<not> starts_workload c) m"

abbreviation confines :: "(trace, 'e, 'a) action \<Rightarrow> bool" where
  "confines m \<equiv> emits (\<lambda>t. t) (\<lambda>c. starts_workload c \<longrightarrow> confined c) m"

lemma gated_step: "quiet m \<Longrightarrow> gated tr \<Longrightarrow> gated (snd (m tr))"
  by (erule emitsE [where s = tr]) (simp add: gated_quiet)

lemma gated_run: "confines m \<Longrightarrow> gated tr \<Longrightarrow> booted tr \<Longrightarrow> gated (snd (m tr))"
  by (erule emitsE [where s = tr]) (simp add: gated_booted)

lemma quiet_mountBase: "quiet (mountBaseFilesystems h)"
  unfolding mountBaseFilesystems_def mount_busy_ok_def by (intro emits_intros) (auto simp: starts_workload_def)

lemma quiet_replaceSymlink: "quiet (replaceSymlink h a b)"
  unfolding replaceSymlink_def by (intro emits_intros) (auto simp: starts_workload_def)

lemma emits_case_pair [emits_intros]: "(\<And>a b. emits pr P (f a b)) \<Longrightarrow> emits pr P (case x of (a, b) \<Rightarrow> f a b)"
  by (cases x) simp

lemma quiet_mountContainer: "quiet (mountContainerFilesystems h out)"
  unfolding mountContainerFilesystems_def mount_devpts_def mount_rootfs_def cmdlineHasHerdRootfs_def bind_mount_def container_tmpfs_def
  by (intro emits_intros quiet_replaceSymlink) (auto simp: starts_workload_def)

lemma quiet_eth0: "quiet (configure_eth0 h out)"
  unfolding configure_eth0_def configure_dns_def Let_def by (intro emits_intros) (auto simp: starts_workload_def)

lemma quiet_networking: "quiet (configureNetworking h out)"
  unfolding configureNetworking_def by (intro emits_intros quiet_eth0) (auto simp: starts_workload_def)

lemma quiet_perform: "\<not> starts_workload c \<Longrightarrow> quiet (perform h c)"
  by (rule emits_perform)

lemma gated_perform: "\<not> starts_workload c \<Longrightarrow> gated tr \<Longrightarrow> gated (snd (perform h c tr))"
  by (rule gated_step) (rule quiet_perform)

lemma gated_die: "gated tr \<Longrightarrow> gated (die h tr)"
proof -
  assume tr: "gated tr"
  let ?p = "\<lambda>c. perform h c"
  from tr have 1: "gated (snd (?p (OpenFile ''/dev/console'') tr))" by (simp add: gated_perform starts_workload_def)
  then show ?thesis
    by (auto simp: die_def starts_workload_def gated_perform split: prod.splits sum.splits)
qed

lemma find_bin_quiet: "quiet (find_bin h bin ps)"
  by (induction ps) (auto simp: starts_workload_def intro!: emits_intros)

lemma confines_quiet: "quiet m \<Longrightarrow> confines m"
  by (erule emits_mono) simp

lemma confines_payload: "confines (run_payload h cmd env)"
  unfolding run_payload_def
  by (intro emits_intros confines_quiet find_bin_quiet) (auto simp: confined_def)

lemma confines_shell: "confines (handleInteractiveShell h)"
  unfolding handleInteractiveShell_def
  by (intro emits_intros) (auto simp: confined_def starts_workload_def has_prefix_def)

lemma gated_execution: "gated tr \<Longrightarrow> (exec_waits p \<longrightarrow> booted tr) \<Longrightarrow> gated (snd (handleExecution h p tr))"
  using gated_run [OF confines_payload]
  by (auto simp: handleExecution_def exec_waits_def failE_def split: option.splits)

lemma after_case: "(\<And>a b. after Q (f a b)) \<Longrightarrow> after Q (case x of (a, b) \<Rightarrow> f a b)"
  by (cases x) simp

lemma after_imp: "after P m \<Longrightarrow> (\<And>t. P t \<Longrightarrow> Q t) \<Longrightarrow> after Q m"
  unfolding after_def by blast

lemma after_fail: "after Q (failE e)"
  by (simp add: after_def failE_def)

lemma after_rootfs:
  "after (\<lambda>t. did (MountFS ''/'' containerRoot '''' [''bind'', ''rec''] '''') t \<or> did (MountFS ''/dev/vda'' containerRoot ''ext4'' [''noatime''] '''') t)
     (mount_rootfs h out)"
proof -
  have "after (did (MountFS ''/'' containerRoot '''' [''bind'', ''rec''] '''')) (bind_mount h ''/'' containerRoot)"
    unfolding bind_mount_def by (intro after_call)
  moreover have "after (did (MountFS ''/dev/vda'' containerRoot ''ext4'' [''noatime''] ''''))
      (wrapE (MountFailed containerRoot) (retryE 19 (perform h (MountFS ''/dev/vda'' containerRoot ''ext4'' [''noatime''] ''''))))"
    by (intro after_call)
  ultimately show ?thesis
    unfolding mount_rootfs_def by (auto intro!: after_bind2 elim: after_imp)
qed

lemma after_for:
  assumes "\<And>x. after (P x) (f x)" and "\<And>x. stable (P x)" and "\<And>x. emits (\<lambda>t. t) R (f x)"
  shows "after (\<lambda>t. list_all (\<lambda>x. P x t) xs) (forE xs f)"
proof (induction xs)
  case (Cons a xs)
  have "after (\<lambda>t. P a t \<and> list_all (\<lambda>x. P x t) xs) (thenE (f a) (forE xs f))"
    by (rule after_then [OF assms(1) Cons.IH assms(2)]) (rule emits_for [OF assms(3)])
  then show ?case by simp
qed (simp add: after_def)

lemma after_mountContainer: "after container_ready (mountContainerFilesystems h out)"
proof -
  let ?d = "\<lambda>d. did (MountFS d (containerRoot @ d) '''' [''bind'', ''rec''] '''')"
  let ?t = "\<lambda>d data. did (MountFS ''tmpfs'' (containerRoot @ d) ''tmpfs'' [''nosuid'', ''nodev''] data)"
  have q: "quiet (container_tmpfs h d data)" for d data
    unfolding container_tmpfs_def by (intro emits_intros) (auto simp: starts_workload_def)
  have links: "quiet (thenE (replaceSymlink h a b) (forE ls (\<lambda>(a, b). replaceSymlink h a b)))" for a b ls
    by (intro emits_intros quiet_replaceSymlink)
  have run: "after (?t ''/run'' ''size=16m,mode=0755'') (container_tmpfs h ''/run'' ''size=16m,mode=0755'')"
    unfolding container_tmpfs_def by (intro after_then2 after_call)
  let ?bind = "\<lambda>m. thenE (ignoreE (perform h (MkdirAll (containerRoot @ m)))) (bind_mount h m (containerRoot @ m))"
  have binds: "after (\<lambda>t. list_all (\<lambda>x. ?d x t) [''/proc'', ''/sys'', ''/dev'']) (forE [''/proc'', ''/sys'', ''/dev''] ?bind)"
    by (rule after_for [where R = "\<lambda>_. True"]) (auto simp: bind_mount_def intro!: after_then2 after_call emits_intros)
  let ?rest = "thenE (replaceSymlink h ''/run'' (containerRoot @ ''/var/run'')) (forE devSymlinks (\<lambda>(a, b). replaceSymlink h a b))"
  have rest: "after (?t ''/run'' ''size=16m,mode=0755'') (thenE (container_tmpfs h ''/run'' ''size=16m,mode=0755'') ?rest)"
    by (rule after_imp [OF after_then [OF run _ stable_did links, where Q = "\<lambda>_. True"]]) (simp_all add: after_def)
  have tail: "quiet (thenE (container_tmpfs h ''/dev/shm'' ''size=64m,mode=1777'') (thenE (container_tmpfs h ''/tmp'' ''size=64m,mode=1777'')
      (thenE (container_tmpfs h ''/run'' ''size=16m,mode=0755'') ?rest)))"
    by (intro emits_then q links)
  have "quiet (forE [''/proc'', ''/sys'', ''/dev''] ?bind)"
    unfolding bind_mount_def by (intro emits_intros) (auto simp: starts_workload_def)
  note all = emits_then [OF this tail]
  have sb: "stable (\<lambda>t. list_all (\<lambda>x. ?d x t) [''/proc'', ''/sys'', ''/dev''])" by (auto simp: stable_def did_def)
  show ?thesis
    unfolding mountContainerFilesystems_def
    by (rule after_then2, rule after_then2, rule after_then2,
        rule after_imp [OF after_then [OF after_rootfs after_then [OF binds after_then2 [OF after_then2 [OF rest]] sb tail] _ all]])
       (auto simp: stable_def did_def container_ready_def)
qed

lemma stable_ex: "(\<And>x. stable (Q x)) \<Longrightarrow> stable (\<lambda>t. \<exists>x. Q x t)"
  unfolding stable_def by blast

definition eth0_ready :: "trace \<Rightarrow> bool" where
  "eth0_ready tr \<longleftrightarrow> (\<exists>ip gw. did (AddrAdd ''eth0'' ip (Some gw)) tr \<and> did (LinkSetUp ''eth0'') tr \<and> did (RouteAdd ''0.0.0.0/0'' gw) tr \<and>
     did (WriteFile ''/mnt/container/etc/resolv.conf'' dnsConfig) tr)"

lemma quiet_dns: "quiet (configure_dns h)"
  unfolding configure_dns_def by (intro emits_intros) (auto simp: starts_workload_def)

lemma after_eth0: "after eth0_ready (configure_eth0 h out)"
proof -
  have dns: "after (did (WriteFile ''/mnt/container/etc/resolv.conf'' dnsConfig)) (configure_dns h)"
    unfolding configure_dns_def by (intro after_then2 after_call)
  have route: "after (\<lambda>t. did (RouteAdd ''0.0.0.0/0'' gw) t \<and> did (WriteFile ''/mnt/container/etc/resolv.conf'' dnsConfig) t)
      (thenE (wrapE AddRoute (perform h (RouteAdd ''0.0.0.0/0'' gw))) (configure_dns h))" for gw
    by (rule after_then [OF _ dns _ quiet_dns]) (intro after_call stable_did)+
  let ?route = "\<lambda>gw. thenE (wrapE AddRoute (perform h (RouteAdd ''0.0.0.0/0'' gw))) (configure_dns h)"
  have q: "quiet (?route gw)" for gw
    by (intro emits_intros quiet_dns) (simp add: starts_workload_def)
  have up: "after (\<lambda>t. did (LinkSetUp ''eth0'') t \<and> did (RouteAdd ''0.0.0.0/0'' gw) t \<and> did (WriteFile ''/mnt/container/etc/resolv.conf'' dnsConfig) t)
      (thenE (wrapE UpEth0 (perform h (LinkSetUp ''eth0''))) (?route gw))" for gw
    by (rule after_then [OF _ route _ q]) (intro after_call stable_did)+
  have qu: "quiet (thenE (wrapE UpEth0 (perform h (LinkSetUp ''eth0''))) (?route gw))" for gw
    by (intro emits_then q emits_intros) (simp add: starts_workload_def)
  have addr: "after (did (AddrAdd ''eth0'' ip (Some gw))) (wrapE AddAddress (perform h (AddrAdd ''eth0'' ip (Some gw))))" for ip gw
    by (intro after_call)
  have "after eth0_ready (thenE (wrapE AddAddress (perform h (AddrAdd ''eth0'' ip (Some gw))))
      (thenE (wrapE UpEth0 (perform h (LinkSetUp ''eth0''))) (?route gw)))" for ip gw
    by (rule after_imp [OF after_then [OF addr up stable_did qu]]) (auto simp: eth0_ready_def)
  then show ?thesis
    by (auto simp: configure_eth0_def Let_def after_fail intro!: after_bind2 split: option.splits prod.splits)
qed

lemma after_networking: "after network_ready (configureNetworking h out)"
proof -
  let ?eth = "\<lambda>t. (\<exists>e. (LinkByName ''eth0'', Some e) \<in> set t) \<or> eth0_ready t"
  let ?m = "bindE (tryE (perform h (LinkByName ''eth0''))) (\<lambda>r. case r of Inl _ \<Rightarrow> returnE () | Inr _ \<Rightarrow> configure_eth0 h out)"
  have "after ?eth ?m"
    using afterD [OF after_eth0]
    by (fastforce simp: after_def bindE_def tryE_def perform_def returnE_def split: option.splits)
  moreover have "quiet ?m" by (intro emits_intros quiet_eth0) (simp add: starts_workload_def)
  moreover have "after (did (LinkSetUp ''lo'')) (wrapE UpLo (perform h (LinkSetUp ''lo'')))" by (intro after_call)
  ultimately have "after (\<lambda>t. did (LinkSetUp ''lo'') t \<and> ?eth t) (thenE (wrapE UpLo (perform h (LinkSetUp ''lo''))) ?m)"
    by (intro after_then) simp_all
  then have "after network_ready (thenE (wrapE UpLo (perform h (LinkSetUp ''lo''))) ?m)"
    by (rule after_imp) (simp add: network_ready_def eth0_ready_def)
  then show ?thesis unfolding configureNetworking_def by (rule after_then2)
qed

section \<open>The invariant of the guest\<close>

definition guest_inv :: "guest \<Rightarrow> bool" where
  "guest_inv g \<longleftrightarrow> gated (g_trace g) \<and> (g_boot g = BNet \<longrightarrow> container_ready (g_trace g)) \<and>
     (g_ready g \<longrightarrow> booted (g_trace g)) \<and> (g_boot g = BIdle \<longrightarrow> \<not> g_ready g)"

text \<open>A goroutine that only adds to the trace and leaves the boot alone keeps the invariant.\<close>

lemma guest_inv_step:
  assumes "guest_inv g" and "gated (g_trace g')" and "\<exists>new. g_trace g' = g_trace g @ new"
    and "g_boot g' = BNet \<Longrightarrow> g_boot g = BNet" and "g_ready g' = g_ready g" and "g_boot g' = BIdle \<Longrightarrow> g_boot g = BIdle"
  shows "guest_inv g'"
  using assms stable_container_ready stable_booted unfolding guest_inv_def stable_def by metis

lemma quiet_run:
  assumes "quiet m" and "m tr = (r, tr')" and "gated tr"
  shows "gated tr'" and "\<exists>new. tr' = tr @ new"
  using assms gated_step [of m tr] by (auto elim: emitsE [where s = tr])

lemma grow_perform: "\<exists>new. snd (perform h c tr) = tr @ new"
  by (simp add: perform_def split: option.splits)

lemma grow_trans: "\<exists>new. b = a @ new \<Longrightarrow> \<exists>new. c = b @ new \<Longrightarrow> \<exists>new. c = a @ new"
  by auto

lemma grow_die: "\<exists>new. die h tr = tr @ new"
  using grow_perform [of h "OpenFile ''/dev/console''" tr]
  by (auto simp: die_def perform_def split: prod.splits sum.splits option.splits)

lemma guest_inv_die:
  assumes "guest_inv g" and "gated tr" and "\<exists>new. tr = g_trace g @ new"
  shows "guest_inv (guest_die h tr g)"
  by (rule guest_inv_step [OF assms(1)])
     (use assms gated_die grow_trans [OF assms(3) grow_die] in \<open>simp_all add: guest_die_def\<close>)

lemma quiet_listen: "quiet (listenVsock h p)"
  unfolding listenVsock_def by (intro emits_intros) (simp add: starts_workload_def)

text \<open>A step of the form of all those of \<open>main\<close>: die on an error, go on otherwise.\<close>

lemma guest_inv_or_die:
  assumes inv: "guest_inv g" and q: "quiet m"
    and ok: "\<And>x tr. m (g_trace g) = (Inr x, tr) \<Longrightarrow> gated tr \<Longrightarrow> \<exists>new. tr = g_trace g @ new \<Longrightarrow> guest_inv (k tr)"
  shows "guest_inv (case m (g_trace g) of (Inl _, tr) \<Rightarrow> guest_die h tr g | (Inr _, tr) \<Rightarrow> k tr)"
proof -
  obtain r tr where m: "m (g_trace g) = (r, tr)" by (cases "m (g_trace g)")
  from inv have "gated (g_trace g)" by (simp add: guest_inv_def)
  note run = quiet_run [OF q m this]
  show ?thesis using guest_inv_die [OF inv run] ok [OF _ run] by (cases r) (simp_all add: m)
qed

lemma guest_inv_quiet:
  assumes "guest_inv g" and "gated tr" and "\<exists>new. tr = g_trace g @ new"
  shows "guest_inv (g\<lparr>g_trace := tr\<rparr>)"
  by (rule guest_inv_step [OF assms(1)]) (use assms in simp_all)

lemma guest_inv_update [simp]:
  "guest_inv (g\<lparr>g_main := m\<rparr>) = guest_inv g" "guest_inv (g\<lparr>g_exec := x\<rparr>) = guest_inv g" "guest_inv (g\<lparr>g_conns := n\<rparr>) = guest_inv g"
  "guest_inv (g\<lparr>g_off := b\<rparr>) = guest_inv g"
  by (simp_all add: guest_inv_def)

lemma inv_main_base: "guest_inv g \<Longrightarrow> guest_inv (main_base h g)"
  unfolding main_base_def by (rule guest_inv_or_die [OF _ quiet_mountBase]) (simp_all add: guest_inv_quiet)

lemma inv_main_listen: "guest_inv g \<Longrightarrow> guest_inv (main_listen h g)"
  unfolding main_listen_def
proof (rule guest_inv_or_die [OF _ quiet_listen])
  fix tr assume "guest_inv g" "gated tr" "\<exists>new. tr = g_trace g @ new"
  from guest_inv_quiet [OF this] show "guest_inv (g\<lparr>g_trace := tr, g_main := MAccept, g_boot := BMount\<rparr>)"
    by (simp add: guest_inv_def)
qed

lemma inv_main_accept: "guest_inv g \<Longrightarrow> guest_inv (main_accept h g)"
  unfolding main_accept_def
  by (rule guest_inv_or_die [OF _ quiet_perform]) (simp_all add: guest_inv_quiet starts_workload_def)

lemma inv_boot_mount: "guest_inv g \<Longrightarrow> g_boot g = BMount \<Longrightarrow> guest_inv (boot_mount h out g)"
  unfolding boot_mount_def
proof (rule guest_inv_or_die [OF _ quiet_mountContainer])
  fix x tr assume *: "guest_inv g" "mountContainerFilesystems h out (g_trace g) = (Inr x, tr)" "gated tr" "\<exists>new. tr = g_trace g @ new"
  then have "guest_inv (g\<lparr>g_trace := tr\<rparr>)" by (simp add: guest_inv_quiet)
  with afterD [OF after_mountContainer *(2)] show "guest_inv (g\<lparr>g_trace := tr, g_boot := BNet\<rparr>)" by (simp add: guest_inv_def)
qed

lemma inv_boot_net: "guest_inv g \<Longrightarrow> g_boot g = BNet \<Longrightarrow> guest_inv (boot_net h out g)"
  unfolding boot_net_def
proof (rule guest_inv_or_die [OF _ quiet_networking])
  fix x tr assume *: "guest_inv g" "g_boot g = BNet" "configureNetworking h out (g_trace g) = (Inr x, tr)" "gated tr" "\<exists>new. tr = g_trace g @ new"
  then have "guest_inv (g\<lparr>g_trace := tr\<rparr>)" by (simp add: guest_inv_quiet)
  with afterD [OF after_networking *(3)] *(2)
  show "guest_inv (g\<lparr>g_trace := tr, g_boot := BDone, g_ready := True\<rparr>)" by (simp add: guest_inv_def booted_def)
qed

lemma inv_exec: "guest_inv g \<Longrightarrow> guest_inv (exec_listen h g)" "guest_inv g \<Longrightarrow> guest_inv (exec_accept h g)"
proof -
  assume g: "guest_inv g"
  have run: "guest_inv (g\<lparr>g_trace := snd (perform h c (g_trace g))\<rparr>)" if "\<not> starts_workload c" for c
    using g that by (intro guest_inv_quiet grow_perform) (simp_all add: gated_perform guest_inv_def)
  from run [of "ListenVsock 5001"] show "guest_inv (exec_listen h g)"
    by (auto simp: exec_listen_def starts_workload_def split: prod.splits sum.splits)
  from run [of "AcceptVsock 5001"] show "guest_inv (exec_accept h g)"
    by (auto simp: exec_accept_def starts_workload_def split: prod.splits sum.splits)
qed

lemma confines_run:
  assumes "confines m" and "gated tr" and "booted tr"
  shows "gated (snd (m tr))" and "\<exists>new. snd (m tr) = tr @ new"
  using assms gated_run [of m tr] by (auto elim: emitsE [where s = tr])

lemma grow_execution: "\<exists>new. snd (handleExecution h p tr) = tr @ new"
proof -
  have "\<exists>new. snd (run_payload h cmd env tr) = tr @ new" for cmd env
    using confines_payload [of h cmd env] by (auto elim: emitsE [where s = tr])
  then show ?thesis by (auto simp: handleExecution_def failE_def split: option.splits)
qed

lemma guest_inv_perform: "guest_inv (g\<lparr>g_trace := tr\<rparr>) \<Longrightarrow> \<not> starts_workload c \<Longrightarrow> guest_inv (g\<lparr>g_trace := snd (perform h c tr)\<rparr>)"
  using guest_inv_quiet [of "g\<lparr>g_trace := tr\<rparr>" "snd (perform h c tr)"] grow_perform [of h c tr]
  by (simp add: gated_perform guest_inv_def)

lemma inv_main_exec:
  assumes g: "guest_inv g" and ready: "exec_waits p \<longrightarrow> g_ready g"
  shows "guest_inv (main_exec h p g)"
proof -
  from g ready have "gated (snd (handleExecution h p (g_trace g)))"
    by (intro gated_execution) (auto simp: guest_inv_def)
  from guest_inv_quiet [OF g this grow_execution] show ?thesis
    by (simp add: main_exec_def guest_inv_perform starts_workload_def)
qed

lemma inv_shell:
  assumes g: "guest_inv g" and ready: "g_ready g"
  shows "guest_inv (shell_run h g)"
proof -
  from g ready have "gated (g_trace g)" "booted (g_trace g)" by (simp_all add: guest_inv_def)
  from guest_inv_quiet [OF g confines_run [OF confines_shell this]] show ?thesis
    by (simp add: shell_run_def guest_inv_perform starts_workload_def)
qed

lemma guest_do_inv: "guest_inv g \<Longrightarrow> guest_do h out ev g = Some g' \<Longrightarrow> guest_inv g'"
  by (cases ev)
     (auto simp: guest_do_def inv_main_base inv_main_listen inv_main_accept inv_main_exec inv_boot_mount inv_boot_net inv_exec inv_shell
       split: if_splits)

lemma guest_reach_inv: "guest_reach h out g \<Longrightarrow> guest_inv g"
proof (induction rule: guest_reach.induct)
  case guest_start
  show ?case by (simp add: guest_init_def guest_inv_def gated_def)
qed (rule guest_do_inv)

primrec guest_run :: "host \<Rightarrow> (trace \<Rightarrow> call \<Rightarrow> string) \<Rightarrow> guest_event list \<Rightarrow> guest \<Rightarrow> guest option" where
  "guest_run h out [] g = Some g"
| "guest_run h out (ev # evs) g = (case guest_do h out ev g of None \<Rightarrow> None | Some g' \<Rightarrow> guest_run h out evs g')"

lemma guest_run_reach: "guest_run h out evs g = Some g' \<Longrightarrow> guest_reach h out g \<Longrightarrow> guest_reach h out g'"
  by (induction evs arbitrary: g) (auto split: option.splits intro: guest_next)

text \<open>
  C36.  In every interleaving of the goroutines of the guest agent, with any answers of the
  kernel, a workload or an interactive shell is started only after the container's file systems
  were mounted and the network configured, and it runs confined to the container's root.
\<close>

theorem workload_waits_for_boot:
  assumes "guest_reach h out g" and "g_trace g = pre @ (c, r) # post" and "starts_workload c"
  shows "confined c \<and> container_ready pre \<and> network_ready pre"
  using gatedD [of pre c r post] guest_reach_inv [OF assms(1)] assms(2,3) by (simp_all add: guest_inv_def booted_def)

section \<open>The address on the command line\<close>

lemma go_fields_words: "list_all is_word ws \<Longrightarrow> go_fields (concat (map (\<lambda>w. w @ '' '') ws) @ s) = ws @ go_fields s"
  by (induction ws) (simp_all add: go_fields_Cons)

definition boot_words :: "string list" where
  "boot_words =
     [''console=ttyS0'', ''reboot=k'', ''panic=1'', ''pci=off'', ''quiet'', ''mitigations=off'', ''i8042.nokbd'', ''i8042.noaux'',
      ''tsc=reliable'', ''random.trust_cpu=on'', ''random.trust_bootloader=on'', ''root=/dev/vda'', ''rw'', ''rootfstype=ext4'',
      ''rootflags=noload,noinit_itable'', ''init='' @ DefaultGuestAgentPath, ''herd_rootfs=1'']"

lemma boot_args_words:
  "boot_args DefaultGuestAgentPath ip @ x # rest =
     concat (map (\<lambda>w. w @ '' '') (boot_words @ [''herd_ip='' @ ip])) @ (''herd_gw='' @ hostIP) @ x # rest"
  by (simp add: boot_args_def boot_words_def DefaultGuestAgentPath_def)

lemma boot_words_words: "list_all is_word boot_words"
  by code_simp

lemma is_word_gw: "is_word (''herd_gw='' @ hostIP)"
  by code_simp

lemma is_word_append: "is_word a \<Longrightarrow> (\<forall>c \<in> set b. \<not> is_space c) \<Longrightarrow> is_word (a @ b)"
  by (auto simp: is_word_def)

lemma ip_String_no_space: "c \<in> set (ip_String a) \<Longrightarrow> \<not> is_space c"
  using ip_String_charset [of c a] digit_not_space by (auto simp: is_space_def)

lemma boot_args_fields:
  "is_space x \<Longrightarrow> go_fields (boot_args DefaultGuestAgentPath (ip_String a) @ x # rest) =
     boot_words @ [''herd_ip='' @ ip_String a, ''herd_gw='' @ hostIP] @ go_fields rest"
proof -
  assume x: "is_space x"
  have "is_word ''herd_ip=''" by code_simp
  then have "list_all is_word (boot_words @ [''herd_ip='' @ ip_String a])"
    using boot_words_words by (simp add: is_word_append ip_String_no_space del: append_Cons)
  note words = go_fields_words [OF this]
  show ?thesis unfolding boot_args_words words go_fields_Cons [OF is_word_gw x] by simp
qed

definition no_herd_address :: "string \<Rightarrow> bool" where
  "no_herd_address rest \<longleftrightarrow> list_all (\<lambda>p. \<not> has_prefix ''herd_ip='' p \<and> \<not> has_prefix ''herd_gw='' p) (go_fields rest)"

lemma foldl_cmdline_none:
  "list_all (\<lambda>p. \<not> has_prefix ''herd_ip='' p \<and> \<not> has_prefix ''herd_gw='' p) ps \<Longrightarrow> foldl cmdline_step acc ps = acc"
  by (induction ps arbitrary: acc) (simp_all add: cmdline_step_def)

lemma boot_words_none: "foldl cmdline_step ('''', '''') boot_words = ('''', '''')"
  by code_simp

lemma boot_args_addresses:
  assumes "is_space x" and "no_herd_address rest"
  shows "cmdline_addresses (boot_args DefaultGuestAgentPath (ip_String a) @ x # rest) = (ip_String a, hostIP)"
proof -
  have "cmdline_step acc (''herd_ip='' @ s) = (s, snd acc)" for acc s
    unfolding cmdline_step_def by (simp only: has_prefix_append trim_prefix_append if_True)
  moreover have "cmdline_step acc (''herd_gw='' @ s) = (fst acc, s)" for acc s
    unfolding cmdline_step_def by (simp only: has_prefix_append trim_prefix_append if_True) (simp add: has_prefix_def)
  ultimately show ?thesis
    using assms foldl_cmdline_none
    by (simp add: cmdline_addresses_def boot_args_fields boot_words_none no_herd_address_def del: append_Cons)
qed

section \<open>A boot where the kernel refuses nothing\<close>

definition calm :: "host \<Rightarrow> bool" where
  "calm h \<longleftrightarrow> (\<forall>tr c. h_err h tr c = None)"

lemma calm_perform [simp]: "calm h \<Longrightarrow> perform h c tr = (Inr (), tr @ [(c, None)])"
  by (simp add: calm_def perform_def)

lemma calm_retry [simp]: "calm h \<Longrightarrow> retryE n (perform h c) tr = (Inr (), tr @ [(c, None)])"
  by (cases n) simp_all

lemma calm_run_out [simp]: "calm h \<Longrightarrow> run_out h out c tr = (Inr (out tr c, None), tr @ [(c, None)])"
  by (simp add: calm_def run_out_def)

lemmas calm_simps = thenE_def bindE_def tryE_def wrapE_def ignoreE_def returnE_def failE_def deferE_def

lemma calm_symlink: "calm h \<Longrightarrow> fst (replaceSymlink h a b tr) = Inr ()"
  by (simp add: replaceSymlink_def calm_simps)

lemma fst_forE: "(\<And>x tr. fst (f x tr) = Inr ()) \<Longrightarrow> fst (forE xs f tr) = Inr ()"
proof (induction xs arbitrary: tr)
  case (Cons a xs)
  then show ?case by (simp add: thenE_def bindE_alt)
qed (simp add: returnE_def)

lemma fst_thenE: "(\<And>tr. \<exists>x. fst (m tr) = Inr x) \<Longrightarrow> (\<And>tr. fst (k tr) = Inr ()) \<Longrightarrow> fst (thenE m k tr) = Inr ()"
  using bindE_alt [of m "\<lambda>_. k" tr] by (metis sum.case(2) thenE_def)

lemma calm_base: "calm h \<Longrightarrow> fst (mountBaseFilesystems h tr) = Inr ()"
  by (simp add: mountBaseFilesystems_def mount_busy_ok_def calm_simps)

lemma calm_rootfs: "calm h \<Longrightarrow> fst (mount_rootfs h out tr) = Inr ()"
  by (simp add: mount_rootfs_def cmdlineHasHerdRootfs_def bind_mount_def calm_simps)

lemma calm_mount: "calm h \<Longrightarrow> fst (mountContainerFilesystems h out tr) = Inr ()"
  unfolding mountContainerFilesystems_def mount_devpts_def container_tmpfs_def bind_mount_def
  by (intro fst_thenE fst_forE) (auto simp: calm_symlink calm_rootfs calm_simps)

lemma hostIP_ip: "hostIP = ip_String [10, 200, 0, 1]"
  by code_simp

lemma calm_networking:
  assumes "calm h" and "cmdline_addresses (out (tr @ [(LinkByName ''lo'', None), (LinkSetUp ''lo'', None), (LinkByName ''eth0'', None)])
      (ReadFile cmdline_path)) = (ip_String a, hostIP)" and "length a = 4"
  shows "configureNetworking h out tr = (Inr (), tr @ map (\<lambda>c. (c, None))
     [LinkByName ''lo'', LinkSetUp ''lo'', LinkByName ''eth0'', ReadFile cmdline_path,
      AddrAdd ''eth0'' (ip_String a) (Some hostIP), LinkSetUp ''eth0'', RouteAdd ''0.0.0.0/0'' hostIP,
      MkdirAll ''/etc'', WriteFile ''/etc/resolv.conf'' dnsConfig, MkdirAll ''/mnt/container/etc'',
      RemoveFile ''/mnt/container/etc/resolv.conf'', WriteFile ''/mnt/container/etc/resolv.conf'' dnsConfig])"
proof -
  have "ParseIP (ip_String a) \<noteq> None" "ip_String a \<noteq> []"
    using ParseIP_ip_String [OF assms(3)] by (auto simp: ParseIP_def)
  moreover have "ParseIP hostIP \<noteq> None" "hostIP \<noteq> []"
    using ParseIP_ip_String [of "[10, 200, 0, 1]"] hostIP_ip by simp (simp add: hostIP_def)
  ultimately show ?thesis
    using assms(1,2) by (simp add: configureNetworking_def configure_eth0_def configure_dns_def calm_simps)
qed

lemma contains_suffix: "contains_str sub b \<Longrightarrow> contains_str sub (a @ b)"
  by (induction a) simp_all

lemma after_first:
  assumes "after Q m" and "stable Q" and "emits (\<lambda>t. t) R k"
  shows "after Q (thenE m k)"
  by (rule after_imp [OF after_then [OF assms(1) _ assms(2,3), where Q = "\<lambda>_. True"]]) (simp_all add: after_def)

lemma calm_bind_rootfs:
  assumes "calm h" and "\<And>tr. contains_str ''herd_rootfs=1'' (out tr (ReadFile cmdline_path))"
  shows "after (did (MountFS ''/'' containerRoot '''' [''bind'', ''rec''] '''')) (mountContainerFilesystems h out)"
proof -
  have "after (did (MountFS ''/'' containerRoot '''' [''bind'', ''rec''] '''')) (mount_rootfs h out)"
    using assms by (auto simp: after_def mount_rootfs_def cmdlineHasHerdRootfs_def bind_mount_def calm_simps did_def)
  then show ?thesis
    unfolding mountContainerFilesystems_def
    by (intro after_then2 after_first stable_did)
       (auto simp: container_tmpfs_def bind_mount_def intro!: emits_intros emits_mono [OF quiet_replaceSymlink])
qed

text \<open>The order in which the goroutines run when none overtakes another.\<close>

definition boot_events :: "exec_payload \<Rightarrow> guest_event list" where
  "boot_events p = [MainBase, MainListen, MainAccept, BootMount, BootNet, MainExec (Some p)]"

lemma calm_boot:
  assumes h: "calm h" and cmdline: "\<And>tr. cmdline_addresses (out tr (ReadFile cmdline_path)) = (ip_String a, hostIP)"
    and rootfs: "\<And>tr. contains_str ''herd_rootfs=1'' (out tr (ReadFile cmdline_path))"
    and a: "length a = 4" and cmd: "ep_Command p \<noteq> []" "has_prefix ''/'' (hd (ep_Command p))"
  shows "\<exists>g pre. guest_run h out (boot_events p) guest_init = Some g \<and> did (AddrAdd ''eth0'' (ip_String a) (Some hostIP)) pre \<and>
     did (MountFS ''/'' containerRoot '''' [''bind'', ''rec''] '''') pre \<and>
     g_trace g = pre @ [(RunWorkload containerRoot (hd (ep_Command p)) (ep_Command p) (default_path # ep_Env p), None),
       (ConnClose ''control'', None), (PowerOff, None)]"
proof -
  obtain t1 where t1: "mountBaseFilesystems h [] = (Inr (), t1)" using calm_base [OF h] by (metis prod.collapse)
  let ?t2 = "t1 @ [(ListenVsock 5000, None), (AcceptVsock 5000, None)]"
  obtain t3 where t3: "mountContainerFilesystems h out ?t2 = (Inr (), t3)" using calm_mount [OF h] by (metis prod.collapse)
  from afterD [OF calm_bind_rootfs t3] h rootfs have bind: "did (MountFS ''/'' containerRoot '''' [''bind'', ''rec''] '''') t3" by blast
  obtain t4 where t4: "configureNetworking h out t3 = (Inr (), t4)" "did (AddrAdd ''eth0'' (ip_String a) (Some hostIP)) t4"
      "did (MountFS ''/'' containerRoot '''' [''bind'', ''rec''] '''') t4"
    using calm_networking [where h = h and out = out and tr = t3 and a = a] h cmdline a bind by (simp add: did_def)
  from cmd have "handleExecution h (Some p) t4 =
      (Inr (), t4 @ [(RunWorkload containerRoot (hd (ep_Command p)) (ep_Command p) (default_path # ep_Env p), None)])"
    by (simp add: handleExecution_def run_payload_def calm_simps h)
  with t1 t3 t4 h show ?thesis
    by (simp add: boot_events_def guest_do_def guest_init_def main_base_def main_listen_def listenVsock_def main_accept_def
        boot_mount_def boot_net_def main_exec_def)
qed

text \<open>
  C37.  Host and guest agree on the network: from the boot arguments the factory writes into the
  machine's configuration, whatever the hypervisor appends to them, the agent reads back the leased
  address and the host's end of the tap device; when the kernel refuses nothing it configures
  exactly these, the mirror image of the tap's addresses, runs the workload it is sent with its
  arguments and environment, and powers the machine off.
\<close>

theorem guest_boots_with_leased_address:
  assumes "length a = 4" and "is_space x" and "no_herd_address rest" and "calm h" and "calm hv"
    and "\<And>tr. out tr (ReadFile cmdline_path) = boot_args DefaultGuestAgentPath (ip_String a) @ x # rest"
    and "ep_Command p \<noteq> []" and "has_prefix ''/'' (hd (ep_Command p))"
  shows "did (AddrAdd tap hostIP (Some (ip_String a))) (snd (CreatePointToPointTap hv tap hostIP (ip_String a) uid gid tr0)) \<and>
    (\<exists>g pre. guest_run h out (boot_events p) guest_init = Some g \<and> did (AddrAdd ''eth0'' (ip_String a) (Some hostIP)) pre \<and>
     did (MountFS ''/'' containerRoot '''' [''bind'', ''rec''] '''') pre \<and>
     g_trace g = pre @ [(RunWorkload containerRoot (hd (ep_Command p)) (ep_Command p) (default_path # ep_Env p), None),
       (ConnClose ''control'', None), (PowerOff, None)])"

proof -
  let ?line = "boot_args DefaultGuestAgentPath (ip_String a) @ x # rest"
  have addr: "cmdline_addresses ?line = (ip_String a, hostIP)" by (rule boot_args_addresses) (fact assms)+
  have root: "contains_str ''herd_rootfs=1'' ?line"
    unfolding boot_args_def append_assoc by (rule contains_suffix, rule contains_suffix) (simp add: has_prefix_def)
  have "ParseIP hostIP \<noteq> None" "ParseIP (ip_String a) \<noteq> None"
    using ParseIP_ip_String [of "[10, 200, 0, 1]"] ParseIP_ip_String [OF assms(1)] hostIP_ip by simp_all
  then have "did (AddrAdd tap hostIP (Some (ip_String a))) (snd (CreatePointToPointTap hv tap hostIP (ip_String a) uid gid tr0))"
    by (auto simp: CreatePointToPointTap_def orDelete_def calm_simps assms(5) did_def)
  with calm_boot [OF assms(4) _ _ assms(1,7,8), of out] addr root assms(6) show ?thesis by simp
qed

definition demo_kernel :: host where
  "demo_kernel = (demo_host [])\<lparr>h_err := \<lambda>_ _. None\<rparr>"

definition demo_cmdline :: "trace \<Rightarrow> call \<Rightarrow> string" where
  "demo_cmdline tr c = boot_args DefaultGuestAgentPath (ip_String [10, 200, 0, 2]) @ '' virtio_mmio.device=4K''"

definition demo_payload :: exec_payload where
  "demo_payload = \<lparr>ep_Command = [''/bin/sh'', ''-c'', ''true''], ep_Env = [''A=1'']\<rparr>"

lemma demo_kernel_calm: "calm demo_kernel"
  by (simp add: calm_def demo_kernel_def)

lemma demo_line: "demo_cmdline tr (ReadFile cmdline_path) =
    boot_args DefaultGuestAgentPath (ip_String [10, 200, 0, 2]) @ CHR '' '' # ''virtio_mmio.device=4K''"
  by (simp add: demo_cmdline_def)

lemma demo_no_address: "no_herd_address ''virtio_mmio.device=4K''"
  by code_simp

theorem guest_boots_with_leased_address_witness:
  "\<exists>g pre. guest_run demo_kernel demo_cmdline (boot_events demo_payload) guest_init = Some g \<and>
     did (AddrAdd ''eth0'' (ip_String [10, 200, 0, 2]) (Some hostIP)) pre \<and>
     g_trace g = pre @ [(RunWorkload containerRoot ''/bin/sh'' [''/bin/sh'', ''-c'', ''true''] [default_path, ''A=1''], None),
       (ConnClose ''control'', None), (PowerOff, None)]"
proof -
  have "ep_Command demo_payload \<noteq> []" "has_prefix ''/'' (hd (ep_Command demo_payload))" "length [10, 200, 0, 2 :: u8] = 4"
    by (simp_all add: demo_payload_def has_prefix_def)
  note args = this
  from guest_boots_with_leased_address [where out = demo_cmdline, OF args(3) is_space_simps(1) demo_no_address demo_kernel_calm demo_kernel_calm _ args(1,2)]
    demo_line
  show ?thesis by (simp add: demo_payload_def) blast
qed

theorem workload_waits_for_boot_witness:
  "\<exists>g pre post. guest_run demo_kernel demo_cmdline (boot_events demo_payload) guest_init = Some g \<and>
     g_trace g = pre @ post \<and> length post = 3 \<and> container_ready pre \<and> network_ready pre"
proof -
  have root: "contains_str ''herd_rootfs=1'' (demo_cmdline tr (ReadFile cmdline_path))" for tr
    unfolding demo_cmdline_def boot_args_def append_assoc by (rule contains_suffix, rule contains_suffix) (simp add: has_prefix_def)
  have addr: "cmdline_addresses (demo_cmdline tr (ReadFile cmdline_path)) = (ip_String [10, 200, 0, 2], hostIP)" for tr
    unfolding demo_line by (rule boot_args_addresses) (simp_all add: demo_no_address)
  from calm_boot [where h = demo_kernel and out = demo_cmdline and a = "[10, 200, 0, 2]" and p = demo_payload] demo_kernel_calm root addr
  obtain g pre where g: "guest_run demo_kernel demo_cmdline (boot_events demo_payload) guest_init = Some g"
    "g_trace g = pre @ (RunWorkload containerRoot ''/bin/sh'' [''/bin/sh'', ''-c'', ''true''] [default_path, ''A=1''], None) #
       [(ConnClose ''control'', None), (PowerOff, None)]"
    by (auto simp: demo_payload_def has_prefix_def)
  from guest_run_reach [OF g(1) guest_start] workload_waits_for_boot [OF _ g(2)]
  have "container_ready pre \<and> network_ready pre" by (simp add: starts_workload_def)
  with g show ?thesis by fastforce
qed

end
