(* ===== verification/Host_Bootstrap.thy ===== *)
theory Host_Bootstrap
  imports Host Go_Paths Go_Text
begin

text \<open>
  \<open>internal/storage/bootstrap.go\<close>: the devmapper pool and the containerd instance a host needs,
  built by \<open>Bootstrap\<close> with a stack of clean-up actions, and taken down by \<open>Teardown\<close>.  The
  output of a command is given by \<open>out\<close> and the exit code of \<open>pkill\<close> by \<open>code\<close>.
\<close>

section \<open>State\<close>

datatype boot_error =
    StateDirFailed host_err
  | DevmapperDirFailed host_err
  | SparseCreate string host_err
  | SparseTruncate string host_err
  | MapLoop string string host_err
  | BlockdevSize string host_err
  | BlockdevParse string
  | CreatePool string host_err
  | RemovePool string string host_err
  | RemoveRetries string boot_error
  | ContainerdDir host_err
  | ContainerdConfig host_err
  | StartContainerd host_err
  | StopContainerd string host_err
  | ListLoops string string host_err
  | DetachLoop string string host_err
  | DetachLoopFor string string boot_error
  | RemoveStateDir string host_err

datatype cleanup =
    CleanRemoveAll string
  | CleanRemove string
  | CleanLoop string
  | CleanPool string

record boot_state =
  bs_trace :: trace
  bs_cleanup :: "cleanup list"

definition bs_do :: "(trace, 'e, 'a) action \<Rightarrow> (boot_state, 'e, 'a) action" where
  "bs_do m s = (case m (bs_trace s) of (r, tr) \<Rightarrow> (r, s\<lparr>bs_trace := tr\<rparr>))"

definition bs_push :: "cleanup \<Rightarrow> (boot_state, 'e, unit) action" where
  "bs_push c s = (Inr (), s\<lparr>bs_cleanup := bs_cleanup s @ [c]\<rparr>)"

section \<open>Commands\<close>

definition createSparseFile :: "host \<Rightarrow> string \<Rightarrow> int \<Rightarrow> (trace, boot_error, bool) action" where
  "createSparseFile h path sz = bindE (tryE (perform h (StatFile path))) (\<lambda>r. case r of
       Inr _ \<Rightarrow> returnE False
     | Inl _ \<Rightarrow>
         thenE (wrapE (SparseCreate path) (perform h (CreateFile path)))
               (deferE (perform h (CloseFile path))
                 (thenE (wrapE (SparseTruncate path) (perform h (Truncate path sz))) (returnE True))))"

definition losetup_find :: "string \<Rightarrow> call" where
  "losetup_find filePath = Cmd ''losetup'' [''--find'', ''--show'', filePath]"

definition setupLoopDevice :: "host \<Rightarrow> (trace \<Rightarrow> call \<Rightarrow> string) \<Rightarrow> string \<Rightarrow> (trace, boot_error, string \<times> bool) action" where
  "setupLoopDevice h out filePath =
     bindE (run_out h out (Cmd ''losetup'' [''--output'', ''NAME'', ''--noheadings'', ''--associated'', filePath])) (\<lambda>(o1, err1).
     if err1 = None \<and> trim_space o1 \<noteq> '''' then returnE (trim_space o1, False)
     else bindE (run_out h out (losetup_find filePath)) (\<lambda>(o2, err2). case err2 of
         Some e \<Rightarrow> failE (MapLoop filePath o2 e)
       | None \<Rightarrow> returnE (trim_space o2, True)))"

definition thinPoolExists :: "host \<Rightarrow> string \<Rightarrow> (trace, boot_error, bool) action" where
  "thinPoolExists h name = bindE (tryE (perform h (Cmd ''dmsetup'' [''status'', name]))) (\<lambda>r. returnE (r = Inr ()))"

text \<open>\<open>fmt.Sscanf\<close> with \<open>%d\<close>: an optional sign and digits; what follows them is not looked at.\<close>

definition sscanf_d :: "string \<Rightarrow> int option" where
  "sscanf_d s =
     (let sign = takeWhile (\<lambda>c. c \<in> {CHR ''+'', CHR ''-''}) (take 1 s);
          (ok, i) = ParseInt64 (sign @ takeWhile is_digit (drop (length sign) s))
      in if ok then Some i else None)"

definition getBlockdevSize :: "host \<Rightarrow> (trace \<Rightarrow> call \<Rightarrow> string) \<Rightarrow> string \<Rightarrow> (trace, boot_error, int) action" where
  "getBlockdevSize h out dev = bindE (run_out h out (Cmd ''blockdev'' [''--getsize64'', dev])) (\<lambda>(o1, err). case err of
       Some e \<Rightarrow> failE (BlockdevSize dev e)
     | None \<Rightarrow> (case sscanf_d (trim_space o1) of None \<Rightarrow> failE (BlockdevParse dev) | Some n \<Rightarrow> returnE n))"

definition removeThinPool :: "host \<Rightarrow> (trace \<Rightarrow> call \<Rightarrow> string) \<Rightarrow> string \<Rightarrow> (trace, boot_error, unit) action" where
  "removeThinPool h out name = bindE (run_out h out (Cmd ''dmsetup'' [''remove'', name])) (\<lambda>(o1, err). case err of
       None \<Rightarrow> returnE ()
     | Some e \<Rightarrow> if contains_str ''No such device'' (trim_space o1) \<or> contains_str ''not found'' (trim_space o1) then returnE ()
                 else failE (RemovePool name (trim_space o1) e))"

text \<open>At most \<open>n\<close> attempts.  With none at all the error wraps nil; the one caller makes five.\<close>

fun remove_pool_loop :: "host \<Rightarrow> (trace \<Rightarrow> call \<Rightarrow> string) \<Rightarrow> string \<Rightarrow> nat \<Rightarrow> boot_error \<Rightarrow> (trace, boot_error, unit) action" where
  "remove_pool_loop h out name 0 lastErr = failE (RemoveRetries name lastErr)"
| "remove_pool_loop h out name (Suc n) lastErr = bindE (tryE (removeThinPool h out name)) (\<lambda>r. case r of
       Inr _ \<Rightarrow> returnE ()
     | Inl e \<Rightarrow> remove_pool_loop h out name n e)"

definition removeThinPoolWithRetry :: "host \<Rightarrow> (trace \<Rightarrow> call \<Rightarrow> string) \<Rightarrow> string \<Rightarrow> nat \<Rightarrow> (trace, boot_error, unit) action" where
  "removeThinPoolWithRetry h out name attempts = remove_pool_loop h out name attempts (RemovePool name '''' NotFound)"

definition loop_names :: "string \<Rightarrow> string list" where
  "loop_names text =
     filter (\<lambda>d. d \<noteq> '''') (map (\<lambda>line. trim_space (takeWhile (\<lambda>c. c \<noteq> CHR '':'') line))
       (filter (\<lambda>l. l \<noteq> '''') (map trim_space (split_on (CHR 0x0A) text))))"

definition loopDevicesForFile :: "host \<Rightarrow> (trace \<Rightarrow> call \<Rightarrow> string) \<Rightarrow> string \<Rightarrow> (trace, boot_error, string list) action" where
  "loopDevicesForFile h out filePath = bindE (run_out h out (Cmd ''losetup'' [''-j'', filePath])) (\<lambda>(o1, err).
     let text = trim_space o1 in case err of
       Some e \<Rightarrow> if text = '''' then returnE [] else failE (ListLoops filePath text e)
     | None \<Rightarrow> if text = '''' then returnE [] else returnE (loop_names text))"

definition detachLoopDevice :: "host \<Rightarrow> (trace \<Rightarrow> call \<Rightarrow> string) \<Rightarrow> string \<Rightarrow> (trace, boot_error, unit) action" where
  "detachLoopDevice h out loopDevice = bindE (run_out h out (Cmd ''losetup'' [''-d'', loopDevice])) (\<lambda>(o1, err). case err of
       None \<Rightarrow> returnE ()
     | Some e \<Rightarrow> if contains_str ''No such device'' (trim_space o1) then returnE ()
                 else failE (DetachLoop loopDevice (trim_space o1) e))"

section \<open>Bootstrap\<close>

definition poolName :: string where
  "poolName = ''herd-thinpool''"

text \<open>A directory, with its removal on the stack unless it was there before.\<close>

definition ensure_dir :: "host \<Rightarrow> (host_err \<Rightarrow> boot_error) \<Rightarrow> string \<Rightarrow> (boot_state, boot_error, unit) action" where
  "ensure_dir h err d =
     bindE (tryE (bs_do (performG h (StatFile d) (\<lambda>tr. h_isDir h tr d)))) (\<lambda>st.
     thenE (wrapE err (bs_do (perform h (MkdirAll d))))
           (if st = Inr True then returnE () else bs_push (CleanRemoveAll d)))"

definition ensure_file :: "host \<Rightarrow> string \<Rightarrow> int \<Rightarrow> (boot_state, boot_error, unit) action" where
  "ensure_file h path sz = bindE (bs_do (createSparseFile h path sz)) (\<lambda>created.
     if created then bs_push (CleanRemove path) else returnE ())"

definition ensure_loop :: "host \<Rightarrow> (trace \<Rightarrow> call \<Rightarrow> string) \<Rightarrow> string \<Rightarrow> (boot_state, boot_error, string) action" where
  "ensure_loop h out path = bindE (bs_do (setupLoopDevice h out path)) (\<lambda>(loop, created).
     thenE (if created then bs_push (CleanLoop loop) else returnE ()) (returnE loop))"

definition pool_table :: "int \<Rightarrow> string \<Rightarrow> string \<Rightarrow> string" where
  "pool_table dataSize metaLoop dataLoop =
     ''0 '' @ itoa (if dataSize < 0 then - (- dataSize div 512) else dataSize div 512) @ '' thin-pool '' @ metaLoop @ '' '' @ dataLoop @
     '' 128 32768 1 skip_block_zeroing''"

definition ensure_pool :: "host \<Rightarrow> (trace \<Rightarrow> call \<Rightarrow> string) \<Rightarrow> string \<Rightarrow> string \<Rightarrow> (boot_state, boot_error, unit) action" where
  "ensure_pool h out dataLoop metaLoop =
     bindE (bs_do (thinPoolExists h poolName)) (\<lambda>exists.
     if \<not> exists then
       bindE (bs_do (getBlockdevSize h out dataLoop)) (\<lambda>dataSize.
       bindE (bs_do (run_out h out (Cmd ''dmsetup'' [''create'', poolName, ''--table'', pool_table dataSize metaLoop dataLoop])))
         (\<lambda>(o1, err). case err of
           Some e \<Rightarrow> failE (CreatePool o1 e)
         | None \<Rightarrow> bs_push (CleanPool poolName)))
     else ignoreE (bs_do (perform h (Cmd ''dmsetup'' [''reload'', poolName]))))"

text \<open>The text of the configuration of containerd.\<close>

definition ctrdConfig :: "string \<Rightarrow> string \<Rightarrow> string \<Rightarrow> string" where
  "ctrdConfig ctrdDir sockPath devMapperDir = join [CHR 0x0A]
     ['''', ''version = 2'',
      ''root = \"'' @ path_Join [ctrdDir, ''root''] @ ''\"'',
      ''state = \"'' @ path_Join [ctrdDir, ''state''] @ ''\"'', '''',
      ''[grpc]'', ''  address = \"'' @ sockPath @ ''\"'', '''',
      ''[plugins]'', ''  [plugins.\"io.containerd.snapshotter.v1.devmapper\"]'',
      ''    pool_name = \"'' @ poolName @ ''\"'',
      ''    root_path = \"'' @ devMapperDir @ ''\"'',
      ''    base_image_size = \"5GB\"'', ''    discard_blocks = true'', '''']"

definition start_containerd :: "host \<Rightarrow> string \<Rightarrow> (boot_state, boot_error, unit) action" where
  "start_containerd h stateDir =
     (let ctrdDir = path_Join [stateDir, ''containerd'']; configPath = path_Join [stateDir, ''config.toml''];
          sockPath = path_Join [stateDir, ''containerd.sock'']; devMapperDir = path_Join [stateDir, ''devmapper'']
      in thenE (ensure_dir h ContainerdDir ctrdDir)
        (thenE (wrapE ContainerdConfig (bs_do (perform h (WriteFile configPath (ctrdConfig ctrdDir sockPath devMapperDir)))))
        (thenE (bs_push (CleanRemove configPath))
        (thenE (wrapE StartContainerd (bs_do (perform h (StartProcess ''containerd'' [''--config'', configPath]))))
               (ignoreE (bs_do (retryE 29 (perform h (StatFile sockPath)))))))))"

definition bootstrap_body :: "host \<Rightarrow> (trace \<Rightarrow> call \<Rightarrow> string) \<Rightarrow> string \<Rightarrow> (boot_state, boot_error, unit) action" where
  "bootstrap_body h out stateDir =
     (let devMapperDir = path_Join [stateDir, ''devmapper''];
          dataFilePath = path_Join [devMapperDir, ''data'']; metaFilePath = path_Join [devMapperDir, ''metadata'']
      in thenE (ensure_dir h StateDirFailed stateDir)
        (thenE (ensure_dir h DevmapperDirFailed devMapperDir)
        (thenE (ensure_file h dataFilePath (20 * 1024 * 1024 * 1024))
        (thenE (ensure_file h metaFilePath (2 * 1024 * 1024 * 1024))
        (bindE (ensure_loop h out dataFilePath) (\<lambda>dataLoop.
         bindE (ensure_loop h out metaFilePath) (\<lambda>metaLoop.
         thenE (ensure_pool h out dataLoop metaLoop)
               (start_containerd h stateDir))))))))"

definition run_cleanup :: "host \<Rightarrow> (trace \<Rightarrow> call \<Rightarrow> string) \<Rightarrow> cleanup \<Rightarrow> trace \<Rightarrow> trace" where
  "run_cleanup h out c tr = (case c of
       CleanRemoveAll d \<Rightarrow> snd (perform h (RemoveAll d) tr)
     | CleanRemove f \<Rightarrow> snd (perform h (RemoveFile f) tr)
     | CleanLoop d \<Rightarrow> snd (detachLoopDevice h out d tr)
     | CleanPool p \<Rightarrow> snd (removeThinPool h out p tr))"

definition bootstrap_storage :: "host \<Rightarrow> (trace \<Rightarrow> call \<Rightarrow> string) \<Rightarrow> string \<Rightarrow> (trace, boot_error, unit) action" where
  "bootstrap_storage h out stateDir tr = (case bootstrap_body h out stateDir \<lparr>bs_trace = tr, bs_cleanup = []\<rparr> of
       (Inr _, s) \<Rightarrow> (Inr (), bs_trace s)
     | (Inl e, s) \<Rightarrow> (Inl e, fold (run_cleanup h out) (rev (bs_cleanup s)) (bs_trace s)))"

section \<open>Teardown\<close>

text \<open>The errors are collected; the calls go on.\<close>

definition collect :: "(trace, 'e, 'a) action \<Rightarrow> ('e \<Rightarrow> 'd) \<Rightarrow> trace \<times> 'd list \<Rightarrow> trace \<times> 'd list" where
  "collect m f st = (case m (fst st) of (Inl e, tr) \<Rightarrow> (tr, snd st @ [f e]) | (Inr _, tr) \<Rightarrow> (tr, snd st))"

definition stop_containerd :: "host \<Rightarrow> (trace \<Rightarrow> call \<Rightarrow> string) \<Rightarrow> (trace \<Rightarrow> call \<Rightarrow> int) \<Rightarrow> string \<Rightarrow> (trace, boot_error, unit) action" where
  "stop_containerd h out code configPath tr =
     (let c = Cmd ''pkill'' [''-f'', ''containerd --config '' @ configPath] in
      case run_out h out c tr of
        (Inr (o1, Some e), tr') \<Rightarrow>
          if code tr c \<noteq> 1 then (Inl (StopContainerd (trim_space o1) e), tr') else (Inr (), tr')
      | (Inr (o1, None), tr') \<Rightarrow> (Inr (), tr')
      | (Inl e, tr') \<Rightarrow> (Inl e, tr'))"

definition detach_file :: "host \<Rightarrow> (trace \<Rightarrow> call \<Rightarrow> string) \<Rightarrow> string \<Rightarrow> trace \<times> boot_error list \<Rightarrow> trace \<times> boot_error list" where
  "detach_file h out filePath st = (case loopDevicesForFile h out filePath (fst st) of
       (Inl e, tr) \<Rightarrow> (tr, snd st @ [e])
     | (Inr devs, tr) \<Rightarrow> fold (\<lambda>d. collect (detachLoopDevice h out d) (DetachLoopFor d filePath)) devs (tr, snd st))"

definition teardown_storage :: "host \<Rightarrow> (trace \<Rightarrow> call \<Rightarrow> string) \<Rightarrow> (trace \<Rightarrow> call \<Rightarrow> int) \<Rightarrow> string \<Rightarrow>
    (trace, boot_error list, unit) action" where
  "teardown_storage h out code stateDir tr =
     (let st1 = collect (stop_containerd h out code (path_Join [stateDir, ''config.toml''])) (\<lambda>e. e) (tr, []);
          st2 = collect (removeThinPoolWithRetry h out poolName 5) (\<lambda>e. e) st1;
          st3 = fold (detach_file h out) [path_Join [stateDir, ''devmapper'', ''data''], path_Join [stateDir, ''devmapper'', ''metadata'']] st2;
          (tr', errs) = collect (perform h (RemoveAll stateDir)) (RemoveStateDir stateDir) st3
      in (if errs = [] then Inr () else Inl errs, tr'))"

section \<open>What a run creates\<close>

text \<open>
  The clean-up action owed for a successful call, read off the call itself, the history before it
  (a directory that the preceding \<open>Stat\<close> saw is not owed) and the output of the command.
\<close>

definition created_by :: "host \<Rightarrow> (trace \<Rightarrow> call \<Rightarrow> string) \<Rightarrow> trace \<Rightarrow> call \<Rightarrow> cleanup list" where
  "created_by h out pre c = (case c of
       Cmd n args \<Rightarrow>
         if n = ''losetup'' \<and> take 1 args = [''--find''] then [CleanLoop (trim_space (out pre c))]
         else if n = ''dmsetup'' \<and> take 1 args = [''create''] then [CleanPool (args ! 1)] else []
     | Truncate f _ \<Rightarrow> [CleanRemove f]
     | WriteFile f _ \<Rightarrow> [CleanRemove f]
     | MkdirAll d \<Rightarrow> if pre \<noteq> [] \<and> last pre = (StatFile d, None) \<and> h_isDir h (butlast pre) d then [] else [CleanRemoveAll d]
     | _ \<Rightarrow> [])"

fun creates :: "host \<Rightarrow> (trace \<Rightarrow> call \<Rightarrow> string) \<Rightarrow> trace \<Rightarrow> trace \<Rightarrow> cleanup list" where
  "creates h out pre [] = []"
| "creates h out pre ((c, r) # xs) = (if r = None then created_by h out pre c else []) @ creates h out (pre @ [(c, r)]) xs"

definition destructive :: "call \<Rightarrow> bool" where
  "destructive c \<longleftrightarrow> (case c of
       RemoveAll _ \<Rightarrow> True
     | RemoveFile _ \<Rightarrow> True
     | Cmd n args \<Rightarrow> (n = ''losetup'' \<and> take 1 args = [''-d'']) \<or> (n = ''dmsetup'' \<and> take 1 args = [''remove''])
     | _ \<Rightarrow> False)"

definition undo_call :: "cleanup \<Rightarrow> call" where
  "undo_call c = (case c of
       CleanRemoveAll d \<Rightarrow> RemoveAll d
     | CleanRemove f \<Rightarrow> RemoveFile f
     | CleanLoop d \<Rightarrow> Cmd ''losetup'' [''-d'', d]
     | CleanPool p \<Rightarrow> Cmd ''dmsetup'' [''remove'', p])"

lemma creates_append: "creates h out pre (a @ b) = creates h out pre a @ creates h out (pre @ a) b"
  by (induction a arbitrary: pre) auto

text \<open>\<open>logs m\<close>: the action destroys nothing, and pushes the clean-up owed for what it creates.\<close>

definition logs :: "host \<Rightarrow> (trace \<Rightarrow> call \<Rightarrow> string) \<Rightarrow> (boot_state, 'e, 'a) action \<Rightarrow> bool" where
  "logs h out m \<longleftrightarrow> (\<forall>s. \<exists>new. bs_trace (snd (m s)) = bs_trace s @ new \<and> list_all (\<lambda>x. \<not> destructive (fst x)) new \<and>
     bs_cleanup (snd (m s)) = bs_cleanup s @ creates h out (bs_trace s) new)"

lemma logsI:
  "(\<And>s. \<exists>new. bs_trace (snd (m s)) = bs_trace s @ new \<and> list_all (\<lambda>x. \<not> destructive (fst x)) new \<and>
     bs_cleanup (snd (m s)) = bs_cleanup s @ creates h out (bs_trace s) new) \<Longrightarrow> logs h out m"
  by (simp add: logs_def)

lemma logsE:
  assumes "logs h out m"
  obtains new where "bs_trace (snd (m s)) = bs_trace s @ new" "list_all (\<lambda>x. \<not> destructive (fst x)) new"
    "bs_cleanup (snd (m s)) = bs_cleanup s @ creates h out (bs_trace s) new"
  using assms unfolding logs_def by blast

named_theorems logs_intros "closure rules of logs"

lemma logs_return [logs_intros]: "logs h out (returnE x)" "logs h out (failE e)"
  by (simp_all add: logs_def returnE_def failE_def)

lemma logs_bind [logs_intros]:
  assumes "logs h out m" and "\<And>x. logs h out (k x)"
  shows "logs h out (bindE m k)"
proof (rule logsI)
  fix s
  obtain r s1 where m: "m s = (r, s1)" by (cases "m s")
  with assms(1) obtain a where a: "bs_trace s1 = bs_trace s @ a" "list_all (\<lambda>x. \<not> destructive (fst x)) a"
      "bs_cleanup s1 = bs_cleanup s @ creates h out (bs_trace s) a"
    by (auto elim: logsE [where s = s])
  show "\<exists>new. bs_trace (snd (bindE m k s)) = bs_trace s @ new \<and> list_all (\<lambda>x. \<not> destructive (fst x)) new \<and>
      bs_cleanup (snd (bindE m k s)) = bs_cleanup s @ creates h out (bs_trace s) new"
  proof (cases r)
    case (Inl e)
    with m a show ?thesis by (simp add: bindE_def)
  next
    case (Inr x)
    from assms(2) [of x] obtain b where "bs_trace (snd (k x s1)) = bs_trace s1 @ b" "list_all (\<lambda>x. \<not> destructive (fst x)) b"
        "bs_cleanup (snd (k x s1)) = bs_cleanup s1 @ creates h out (bs_trace s1) b"
      by (rule logsE [where s = s1])
    with Inr m a show ?thesis by (intro exI [of _ "a @ b"]) (simp add: bindE_def creates_append)
  qed
qed

lemma logs_then [logs_intros]: "logs h out m \<Longrightarrow> logs h out k \<Longrightarrow> logs h out (thenE m k)"
  by (simp add: thenE_def logs_bind)

lemma logs_wrap [logs_intros]: "logs h out m \<Longrightarrow> logs h out (wrapE f m)"
  by (simp add: logs_def)

lemma logs_ignore [logs_intros]: "logs h out m \<Longrightarrow> logs h out (ignoreE m)"
  by (simp add: logs_def ignoreE_def)

text \<open>Calls that create nothing.\<close>

definition idle_call :: "host \<Rightarrow> (trace \<Rightarrow> call \<Rightarrow> string) \<Rightarrow> call \<Rightarrow> bool" where
  "idle_call h out c \<longleftrightarrow> \<not> destructive c \<and> (\<forall>pre. created_by h out pre c = [])"

lemma creates_idle: "list_all (\<lambda>x. idle_call h out (fst x)) xs \<Longrightarrow> creates h out pre xs = []"
  by (induction h out pre xs rule: creates.induct) (auto simp: idle_call_def)

lemma logs_idle [logs_intros]:
  assumes "emits (\<lambda>t. t) (idle_call h out) m"
  shows "logs h out (bs_do m)"
proof (rule logsI)
  fix s :: boot_state
  from assms obtain new where "snd (m (bs_trace s)) = bs_trace s @ new" "list_all (\<lambda>x. idle_call h out (fst x)) new"
    by (rule emitsE [where s = "bs_trace s"])
  then show "\<exists>new. bs_trace (snd (bs_do m s)) = bs_trace s @ new \<and> list_all (\<lambda>x. \<not> destructive (fst x)) new \<and>
      bs_cleanup (snd (bs_do m s)) = bs_cleanup s @ creates h out (bs_trace s) new"
    by (intro exI [of _ new]) (auto simp: bs_do_def creates_idle list_all_iff idle_call_def split: prod.splits)
qed

lemmas boot_simps = bindE_def thenE_def tryE_def wrapE_def deferE_def returnE_def failE_def bs_do_def bs_push_def
  perform_def performG_def run_out_def

lemmas call_simps = destructive_def created_by_def

lemma logs_dir [logs_intros]: "logs h out (ensure_dir h err d)"
  by (rule logsI) (auto simp: ensure_dir_def boot_simps call_simps split: option.splits)

lemma logs_file [logs_intros]: "logs h out (ensure_file h path sz)"
  by (rule logsI) (auto simp: ensure_file_def createSparseFile_def boot_simps call_simps split: option.splits)

lemma logs_loop [logs_intros]: "logs h out (ensure_loop h out path)"
  by (rule logsI) (auto simp: ensure_loop_def setupLoopDevice_def losetup_find_def boot_simps call_simps split: option.splits)

lemma idle_cmd: "n \<noteq> ''losetup'' \<Longrightarrow> n \<noteq> ''dmsetup'' \<Longrightarrow> idle_call h out (Cmd n args)"
  "take 1 args \<noteq> [''create''] \<Longrightarrow> take 1 args \<noteq> [''remove''] \<Longrightarrow> idle_call h out (Cmd ''dmsetup'' args)"
  by (simp_all add: idle_call_def call_simps)

lemma logs_create_pool [logs_intros]:
  "logs h out (bindE (bs_do (run_out h out (Cmd ''dmsetup'' [''create'', poolName, ''--table'', table]))) (\<lambda>(o1, err). case err of
     Some e \<Rightarrow> failE (CreatePool o1 e) | None \<Rightarrow> bs_push (CleanPool poolName)))"
  by (rule logsI) (auto simp: boot_simps call_simps split: option.splits)

lemma logs_pool [logs_intros]: "logs h out (ensure_pool h out dataLoop metaLoop)"
proof -
  have size: "emits (\<lambda>t. t) (idle_call h out) (getBlockdevSize h out dataLoop)"
    by (auto simp: getBlockdevSize_def idle_cmd intro!: emits_intros split: prod.splits)
  have "emits (\<lambda>t. t) (idle_call h out) (thinPoolExists h poolName)"
    by (auto simp: thinPoolExists_def idle_cmd intro!: emits_intros)
  then show ?thesis
    unfolding ensure_pool_def using size
    by (auto simp: idle_cmd intro!: logs_intros emits_intros)
qed

lemma logs_config [logs_intros]:
  "logs h out (thenE (wrapE err (bs_do (perform h (WriteFile path text)))) (bs_push (CleanRemove path)))"
  by (rule logsI) (auto simp: boot_simps call_simps split: option.splits)

lemma logs_containerd [logs_intros]: "logs h out (start_containerd h stateDir)"
proof -
  have "idle_call h out (StartProcess a b)" "idle_call h out (StatFile f)" for a b f
    by (simp_all add: idle_call_def call_simps)
  then show ?thesis
    unfolding start_containerd_def Let_def thenE_assoc [where a = "wrapE ContainerdConfig _", symmetric]
    by (intro logs_intros emits_intros)
qed

lemma logs_body: "logs h out (bootstrap_body h out stateDir)"
  unfolding bootstrap_body_def Let_def by (intro logs_intros)

lemma run_cleanup_call: "\<exists>r. run_cleanup h out c tr = tr @ [(undo_call c, r)]"
  by (cases c)
     (auto simp: run_cleanup_def undo_call_def detachLoopDevice_def removeThinPool_def boot_simps split: option.splits)

lemma fold_cleanup: "\<exists>u. fold (run_cleanup h out) cs tr = tr @ u \<and> map fst u = map undo_call cs"
proof (induction cs arbitrary: tr)
  case (Cons c cs)
  obtain r where "run_cleanup h out c tr = tr @ [(undo_call c, r)]" using run_cleanup_call by blast
  moreover from Cons obtain u where "fold (run_cleanup h out) cs (tr @ [(undo_call c, r)]) = (tr @ [(undo_call c, r)]) @ u" "map fst u = map undo_call cs"
    by blast
  ultimately show ?case by (intro exI [of _ "(undo_call c, r) # u"]) simp
qed simp


section \<open>Teardown goes on to the end\<close>

definition grows_pair :: "(trace \<times> 'd list \<Rightarrow> trace \<times> 'd list) \<Rightarrow> bool" where
  "grows_pair f \<longleftrightarrow> (\<forall>st. \<exists>new errs. f st = (fst st @ new, snd st @ errs))"

lemma grows_collect:
  assumes "emits (\<lambda>t. t) P m"
  shows "grows_pair (collect m f)"
proof -
  have "\<exists>new errs. collect m f st = (fst st @ new, snd st @ errs)" for st
  proof -
    from assms obtain new where "snd (m (fst st)) = fst st @ new" by (rule emitsE [where s = "fst st"])
    then show ?thesis by (auto simp: collect_def split: prod.splits sum.splits)
  qed
  then show ?thesis by (simp add: grows_pair_def)
qed

lemma grows_comp: "grows_pair f \<Longrightarrow> grows_pair g \<Longrightarrow> grows_pair (\<lambda>st. g (f st))"
  unfolding grows_pair_def by (metis append_assoc fst_conv snd_conv)

lemma grows_fold: "(\<And>x. grows_pair (f x)) \<Longrightarrow> grows_pair (fold f xs)"
proof (induction xs)
  case (Cons x xs)
  then show ?case using grows_comp [of "f x" "fold f xs"] by (simp add: comp_def)
qed (simp add: grows_pair_def)

lemma emits_pool_loop: "emits (\<lambda>t. t) (\<lambda>_. True) (remove_pool_loop h out name n e)"
  by (induction n arbitrary: e) (auto simp: removeThinPool_def intro!: emits_intros split: prod.splits)

lemma emits_detach: "emits (\<lambda>t. t) (\<lambda>_. True) (detachLoopDevice h out d)"
  by (auto simp: detachLoopDevice_def intro!: emits_intros split: prod.splits)

lemma grows_detach_file: "grows_pair (detach_file h out f)"
proof -
  have "emits (\<lambda>t. t) (\<lambda>_. True) (loopDevicesForFile h out f)"
    by (auto simp: loopDevicesForFile_def intro!: emits_intros split: prod.splits)
  then have 1: "\<exists>new. snd (loopDevicesForFile h out f tr) = tr @ new" for tr
    by (auto elim: emitsE [where s = tr])
  have 2: "grows_pair (fold (\<lambda>d. collect (detachLoopDevice h out d) (DetachLoopFor d f)) devs)" for devs
    by (intro grows_fold grows_collect [OF emits_detach])
  show ?thesis unfolding grows_pair_def
  proof (intro allI)
    fix st :: "trace \<times> boot_error list"
    obtain r tr1 where run: "loopDevicesForFile h out f (fst st) = (r, tr1)" by fastforce
    with 1 [of "fst st"] obtain a where a: "tr1 = fst st @ a" by auto
    show "\<exists>new errs. detach_file h out f st = (fst st @ new, snd st @ errs)"
    proof (cases r)
      case (Inr devs)
      from 2 [of devs] obtain b errs where
        "fold (\<lambda>d. collect (detachLoopDevice h out d) (DetachLoopFor d f)) devs (tr1, snd st) = (tr1 @ b, snd st @ errs)"
        unfolding grows_pair_def by (metis fst_conv snd_conv)
      with run a Inr show ?thesis by (simp add: detach_file_def)
    qed (use run a in \<open>simp add: detach_file_def\<close>)
  qed
qed

lemma grows_stop: "grows_pair (collect (stop_containerd h out code p) f)"
  by (rule grows_collect [where P = "\<lambda>_. True"])
     (auto simp: emits_def stop_containerd_def run_out_def Let_def split: option.splits)

text \<open>
  Whatever fails on the way, the teardown ends with the removal of the state directory, and it
  reports success only when that removal succeeded.
\<close>

theorem teardown_removes_state:
  "\<exists>new r. snd (teardown_storage h out code stateDir tr) = tr @ new @ [(RemoveAll stateDir, r)] \<and>
     (fst (teardown_storage h out code stateDir tr) = Inr () \<longrightarrow> r = None)"
proof -
  let ?files = "[path_Join [stateDir, ''devmapper'', ''data''], path_Join [stateDir, ''devmapper'', ''metadata'']]"
  let ?f = "\<lambda>st. fold (detach_file h out) ?files (collect (removeThinPoolWithRetry h out poolName 5) (\<lambda>e. e)
      (collect (stop_containerd h out code (path_Join [stateDir, ''config.toml''])) (\<lambda>e. e) st))"
  have "grows_pair (collect (removeThinPoolWithRetry h out poolName 5) (\<lambda>e. e))"
    unfolding removeThinPoolWithRetry_def by (rule grows_collect [OF emits_pool_loop])
  from grows_comp [OF grows_comp [OF grows_stop this] grows_fold [OF grows_detach_file]]
  have "grows_pair ?f" .
  then obtain new errs where f: "?f (tr, []) = (tr @ new, errs)"
    unfolding grows_pair_def by (metis append_Nil fst_conv snd_conv)
  have "teardown_storage h out code stateDir tr =
      (case collect (perform h (RemoveAll stateDir)) (RemoveStateDir stateDir) (tr @ new, errs) of
        (tr', errs) \<Rightarrow> (if errs = [] then Inr () else Inl errs, tr'))"
    unfolding teardown_storage_def Let_def f ..
  then show ?thesis by (simp add: collect_def perform_def split: option.splits)
qed

text \<open>The listing of \<open>losetup -j\<close>: one line per device, its name before the first colon.\<close>

lemma is_word_newline: "is_word w \<Longrightarrow> CHR 0x0A \<notin> set w"
  by (auto simp: is_word_def)

lemma trim_space_colon:
  assumes "is_word d"
  shows "\<exists>i'. trim_space (d @ CHR '':'' # i) = d @ CHR '':'' # i'"
proof -
  from assms have "dropWhile is_space (d @ CHR '':'' # i) = d @ CHR '':'' # i" by (cases d) (auto simp: is_word_def)
  moreover have "dropWhile is_space (rev i @ CHR '':'' # rev d) = dropWhile is_space (rev i) @ CHR '':'' # rev d"
    by (rule dropWhile_append3) (simp add: is_space_def)
  ultimately show ?thesis by (simp add: trim_space_def)
qed

theorem loop_names_listing:
  assumes "xs \<noteq> []" and "\<And>d i. (d, i) \<in> set xs \<Longrightarrow> is_word d \<and> CHR '':'' \<notin> set d \<and> CHR 0x0A \<notin> set i"
  shows "loop_names (join [CHR 0x0A] (map (\<lambda>(d, i). d @ CHR '':'' # i) xs)) = map fst xs"
proof -
  let ?ls = "map (\<lambda>(d, i). d @ CHR '':'' # i) xs"
  have "split_on (CHR 0x0A) (join [CHR 0x0A] ?ls) = ?ls"
    using assms is_word_newline by (intro split_on_join) fastforce+
  then have split: "loop_names (join [CHR 0x0A] ?ls) =
      filter (\<lambda>d. d \<noteq> '''') (map (\<lambda>line. trim_space (takeWhile (\<lambda>c. c \<noteq> CHR '':'') line)) (filter (\<lambda>l. l \<noteq> '''') (map trim_space ?ls)))"
    by (simp add: loop_names_def)
  have "trim_space (takeWhile (\<lambda>c. c \<noteq> CHR '':'') (trim_space (d @ CHR '':'' # i))) = d \<and> trim_space (d @ CHR '':'' # i) \<noteq> []"
    if "(d, i) \<in> set xs" for d i
  proof -
    from assms(2) [OF that] have d: "is_word d" "CHR '':'' \<notin> set d" by simp_all
    from trim_space_colon [OF d(1)] obtain i' where i': "trim_space (d @ CHR '':'' # i) = d @ CHR '':'' # i'" by blast
    moreover have "takeWhile (\<lambda>c. c \<noteq> CHR '':'') (d @ CHR '':'' # i') = d" using d(2) by (subst takeWhile_append2) auto
    ultimately show ?thesis using d trim_space_word by simp
  qed
  moreover have "d \<noteq> []" if "(d, i) \<in> set xs" for d i using assms(2) [OF that] by (simp add: is_word_def)
  ultimately show ?thesis unfolding split by (induction xs) auto
qed

text \<open>A sparse file that was created but could not be given its size is not on the stack.\<close>

theorem truncate_failure_leaks:
  assumes "fst (ensure_file h f n s) = Inl (SparseTruncate f e)"
  shows "(CreateFile f, None) \<in> set (bs_trace (snd (ensure_file h f n s))) \<and> bs_cleanup (snd (ensure_file h f n s)) = bs_cleanup s"
  using assms by (auto simp: ensure_file_def createSparseFile_def boot_simps split: option.splits if_splits)

end
