(* ===== verification/Pool.thy ===== *)
theory Pool
  imports Registry
begin

text \<open>
  The session-affine worker pool, \<open>pool.go\<close> and \<open>options.go\<close>.  Each goroutine in a pool method
  is a program counter; a step of a goroutine is one atomic section of the source: a block
  between \<open>p.mu.Lock()\<close> and \<open>p.mu.Unlock()\<close>, a channel operation, or a call of the factory or of
  a worker.  \<open>tstep\<close> is an executable step function of one goroutine, whose event argument
  resolves what the environment decides (context cancellation, the outcome of \<open>Spawn\<close> and
  \<open>Close\<close>); \<open>sys_step\<close> interleaves any number of goroutines.
\<close>

section \<open>Configuration\<close>

record config =
  cfg_max :: int
  cfg_crashHandler :: bool

definition defaultConfig :: config where
  "defaultConfig = \<lparr>cfg_max = 10, cfg_crashHandler = False\<rparr>"

datatype pool_option = MaxWorkers int | CrashHandler

text \<open>The option constructors; \<open>None\<close> is the panic of \<open>WithMaxWorkers\<close>.\<close>

definition WithMaxWorkers :: "int \<Rightarrow> pool_option option" where
  "WithMaxWorkers m = (if m < 1 then None else Some (MaxWorkers m))"

definition WithCrashHandler :: pool_option where
  "WithCrashHandler = CrashHandler"

fun apply_option :: "config \<Rightarrow> pool_option \<Rightarrow> config" where
  "apply_option c (MaxWorkers m) = c\<lparr>cfg_max := m\<rparr>"
| "apply_option c CrashHandler = c\<lparr>cfg_crashHandler := True\<rparr>"

section \<open>State\<close>

text \<open>
  Channels made by \<open>Acquire\<close> are numbered in order of creation; \<open>p_closed\<close> is the set of closed
  ones.  \<open>p_tickets\<close> is the number of tokens in the ticket channel, whose capacity is \<open>p_max\<close>.
  \<open>p_crashes\<close> records the calls of the crash handler.
\<close>

record 'o pool =
  p_max :: nat
  p_crashHandler :: bool
  p_registry :: "'o local_registry"
  p_inflight :: "sid \<rightharpoonup> nat"
  p_workers :: "'o worker list"
  p_tickets :: nat
  p_closed :: "nat set"
  p_nextch :: nat
  p_done :: bool
  p_crashes :: "sid list"

definition pool_New :: "pool_option list \<Rightarrow> 'o pool" where
  "pool_New opts = (let cfg = foldl apply_option defaultConfig opts in
     \<lparr>p_max = nat (cfg_max cfg), p_crashHandler = cfg_crashHandler cfg, p_registry = NewLocalRegistry,
      p_inflight = Map.empty, p_workers = [], p_tickets = nat (cfg_max cfg), p_closed = {},
      p_nextch = 0, p_done = False, p_crashes = []\<rparr>)"

section \<open>Atomic sections\<close>

text \<open>The head of \<open>Acquire\<close>'s loop, under the mutex: look up, join an inflight call, or own one.\<close>

datatype 'o check = CheckFailed | Found "'o worker" | Pending nat | Created nat

definition acquire_check :: "sid \<Rightarrow> 'o pool \<Rightarrow> 'o check \<times> 'o pool" where
  "acquire_check s p = (case registry_Get (p_registry p) s of
       Inl e \<Rightarrow> (CheckFailed, p)
     | Inr (Some w) \<Rightarrow> (Found w, p)
     | Inr None \<Rightarrow>
         (case p_inflight p s of
            Some ch \<Rightarrow> (Pending ch, p)
          | None \<Rightarrow> (Created (p_nextch p),
              p\<lparr>p_inflight := (p_inflight p)(s \<mapsto> p_nextch p), p_nextch := Suc (p_nextch p)\<rparr>)))"

definition drop_inflight :: "sid \<Rightarrow> 'o pool \<Rightarrow> 'o pool" where
  "drop_inflight s p = p\<lparr>p_inflight := (p_inflight p)(s := None)\<rparr>"

text \<open>Channel operations: \<open>None\<close> is a panic for \<open>close\<close>, and blocking for the ticket channel.\<close>

definition close_chan :: "nat \<Rightarrow> 'o pool \<Rightarrow> 'o pool option" where
  "close_chan ch p = (if ch \<in> p_closed p then None else Some (p\<lparr>p_closed := insert ch (p_closed p)\<rparr>))"

definition take_ticket :: "'o pool \<Rightarrow> 'o pool option" where
  "take_ticket p = (if 0 < p_tickets p then Some (p\<lparr>p_tickets := p_tickets p - 1\<rparr>) else None)"

definition put_ticket :: "'o pool \<Rightarrow> 'o pool option" where
  "put_ticket p = (if p_tickets p < p_max p then Some (p\<lparr>p_tickets := Suc (p_tickets p)\<rparr>) else None)"

definition wireWorker :: "'o worker \<Rightarrow> 'o pool \<Rightarrow> 'o pool" where
  "wireWorker w p = p\<lparr>p_workers := p_workers p @ [w]\<rparr>"

text \<open>
  The section that pins the session; \<open>Inl\<close> is a failing \<open>Put\<close>, on which the inflight entry
  stays.
\<close>

definition acquire_pin :: "sid \<Rightarrow> 'o worker \<Rightarrow> 'o pool \<Rightarrow> registry_error option \<times> 'o pool" where
  "acquire_pin s w p = (case registry_Put (p_registry p) s w of
       (Some e, r) \<Rightarrow> (Some e, p\<lparr>p_registry := r\<rparr>)
     | (None, r) \<Rightarrow> (None, drop_inflight s (p\<lparr>p_registry := r\<rparr>)))"

fun remove_by_id :: "string \<Rightarrow> 'o worker list \<Rightarrow> 'o worker list" where
  "remove_by_id i [] = []"
| "remove_by_id i (w # ws) = (if worker_ID w = i then ws else w # remove_by_id i ws)"

definition removeWorker :: "'o worker \<Rightarrow> 'o pool \<Rightarrow> 'o pool" where
  "removeWorker w p = p\<lparr>p_workers := remove_by_id (worker_ID w) (p_workers p)\<rparr>"

definition release_check :: "sid \<Rightarrow> 'o worker \<Rightarrow> 'o pool \<Rightarrow> bool \<times> 'o pool" where
  "release_check s w p =
     (list_ex (\<lambda>x. worker_ID x = worker_ID w) (p_workers p),
      p\<lparr>p_registry := snd (registry_Delete (p_registry p) s)\<rparr>)"

definition kill_check :: "sid \<Rightarrow> 'o pool \<Rightarrow> (registry_error + 'o worker option) \<times> 'o pool" where
  "kill_check s p = (case registry_Get (p_registry p) s of
       Inl e \<Rightarrow> (Inl e, p)
     | Inr None \<Rightarrow> (Inr None, p)
     | Inr (Some w) \<Rightarrow> (Inr (Some w), p\<lparr>p_registry := snd (registry_Delete (p_registry p) s)\<rparr>))"

text \<open>\<open>onCrash\<close> up to the unlock, with the close of a pending channel inside the section.\<close>

definition crash_check :: "sid \<Rightarrow> 'o pool \<Rightarrow> ('o worker option \<times> 'o pool) option" where
  "crash_check s p =
     (let w = (case registry_Get (p_registry p) s of Inl _ \<Rightarrow> None | Inr x \<Rightarrow> x);
          p1 = p\<lparr>p_registry := snd (registry_Delete (p_registry p) s)\<rparr>
      in case p_inflight p1 s of
           None \<Rightarrow> Some (w, p1)
         | Some ch \<Rightarrow> (case close_chan ch (drop_inflight s p1) of None \<Rightarrow> None | Some p2 \<Rightarrow> Some (w, p2)))"

definition crash_handler :: "sid \<Rightarrow> 'o pool \<Rightarrow> 'o pool" where
  "crash_handler s p = (if p_crashHandler p then p\<lparr>p_crashes := p_crashes p @ [s]\<rparr> else p)"

definition pool_GetSession :: "sid \<Rightarrow> 'o pool \<Rightarrow> registry_error + 'o worker option" where
  "pool_GetSession s p = registry_Get (p_registry p) s"

definition pool_ListSessions :: "'o pool \<Rightarrow> registry_error + (sid \<rightharpoonup> 'o worker)" where
  "pool_ListSessions p = registry_List (p_registry p)"

text \<open>The node statistics that \<open>observer.PollNodeStats\<close> returned are an argument.\<close>

record 'n pool_stats =
  TotalWorkers :: nat
  ActiveSessions :: nat
  InflightAcquires :: nat
  Node :: 'n

definition pool_Stats :: "'n \<Rightarrow> 'o pool \<Rightarrow> 'n pool_stats" where
  "pool_Stats nodeStats p = \<lparr>TotalWorkers = length (p_workers p), ActiveSessions = registry_Len (p_registry p),
     InflightAcquires = card (dom (p_inflight p)), Node = nodeStats\<rparr>"

section \<open>Goroutines\<close>

datatype acquire_error = DirectoryLookup | CancelledInflight | TimedOutCapacity | SpawnFailed | PinFailed

datatype kill_result = KillLookupFailed | KillNoSession | KillCloseFailed | KillDone

datatype 'o pc =
    AStart sid
  | AWait sid nat
  | ATicket sid nat
  | ACancelDrop sid nat
  | ACancelClose sid nat
  | ASpawn sid nat
  | AFailTicket sid nat
  | AFailDrop sid nat
  | AFailClose sid nat
  | AWire sid nat "'o worker"
  | APin sid nat "'o worker"
  | APutClose sid nat "'o worker"
  | APutWorker sid "'o worker"
  | APutRemove sid "'o worker"
  | APutTicket sid
  | ADone sid nat "'o worker"
  | ARet sid "acquire_error + 'o worker"
  | KStart sid
  | KClose sid "'o worker"
  | KRemove sid "'o worker"
  | KTicket sid "'o worker"
  | KRet sid kill_result "'o worker option"
  | RStart sid "'o worker"
  | RClose sid "'o worker"
  | RRemove sid "'o worker"
  | RTicket sid "'o worker"
  | RRet sid
  | CStart sid
  | CRemove sid "'o worker"
  | CTicket sid
  | CHandler sid
  | CRet sid
  | Panicked

text \<open>
  The environment's part of a step: nothing, the context's cancellation, the outcome of the
  factory's \<open>Spawn\<close>, the outcome of a worker's \<open>Close\<close>.
\<close>

datatype 'o ev = Go | CtxDone | SpawnOk "'o worker" | SpawnErr | CloseOk | CloseErr

definition on_close :: "nat \<Rightarrow> 'o pool \<Rightarrow> 'o pc \<Rightarrow> 'o pool \<times> 'o pc" where
  "on_close ch p pc = (case close_chan ch p of None \<Rightarrow> (p, Panicked) | Some p' \<Rightarrow> (p', pc))"

definition on_ticket :: "'o pool \<Rightarrow> 'o pc \<Rightarrow> ('o pool \<times> 'o pc) option" where
  "on_ticket p pc = map_option (\<lambda>p'. (p', pc)) (put_ticket p)"

text \<open>A step that needs nothing from the environment.\<close>

fun plain :: "'o ev \<Rightarrow> ('o pool \<times> 'o pc) option \<Rightarrow> ('o pool \<times> 'o pc) option" where
  "plain Go r = r"
| "plain _ r = None"

text \<open>\<open>None\<close>: the goroutine cannot make this step now (it blocks, or the event does not apply).\<close>

primrec tstep :: "'o pool \<Rightarrow> 'o pc \<Rightarrow> 'o ev \<Rightarrow> ('o pool \<times> 'o pc) option" where
  "tstep p (AStart s) e = plain e (case acquire_check s p of
       (CheckFailed, p') \<Rightarrow> Some (p', ARet s (Inl DirectoryLookup))
     | (Found w, p') \<Rightarrow> Some (p', ARet s (Inr w))
     | (Pending ch, p') \<Rightarrow> Some (p', AWait s ch)
     | (Created ch, p') \<Rightarrow> Some (p', ATicket s ch))"
| "tstep p (AWait s ch) e = (case e of
       Go \<Rightarrow> if ch \<in> p_closed p then Some (p, AStart s) else None
     | CtxDone \<Rightarrow> Some (p, ARet s (Inl CancelledInflight))
     | _ \<Rightarrow> None)"
| "tstep p (ATicket s ch) e = (case e of
       Go \<Rightarrow> map_option (\<lambda>p'. (p', ASpawn s ch)) (take_ticket p)
     | CtxDone \<Rightarrow> Some (p, ACancelDrop s ch)
     | _ \<Rightarrow> None)"
| "tstep p (ACancelDrop s ch) e = plain e (Some (drop_inflight s p, ACancelClose s ch))"
| "tstep p (ACancelClose s ch) e = plain e (Some (on_close ch p (ARet s (Inl TimedOutCapacity))))"
| "tstep p (ASpawn s ch) e = (case e of
       SpawnOk w \<Rightarrow> Some (p, AWire s ch w)
     | SpawnErr \<Rightarrow> Some (p, AFailTicket s ch)
     | _ \<Rightarrow> None)"
| "tstep p (AFailTicket s ch) e = plain e (on_ticket p (AFailDrop s ch))"
| "tstep p (AFailDrop s ch) e = plain e (Some (drop_inflight s p, AFailClose s ch))"
| "tstep p (AFailClose s ch) e = plain e (Some (on_close ch p (ARet s (Inl SpawnFailed))))"
| "tstep p (AWire s ch w) e = plain e (Some (wireWorker w p, APin s ch w))"
| "tstep p (APin s ch w) e = plain e (case acquire_pin s w p of
       (Some err, p') \<Rightarrow> Some (p', APutClose s ch w)
     | (None, p') \<Rightarrow> Some (p', ADone s ch w))"
| "tstep p (APutClose s ch w) e = plain e (Some (on_close ch p (APutWorker s w)))"
| "tstep p (APutWorker s w) e = (case e of
       CloseOk \<Rightarrow> Some (p, APutRemove s w) | CloseErr \<Rightarrow> Some (p, APutRemove s w) | _ \<Rightarrow> None)"
| "tstep p (APutRemove s w) e = plain e (Some (removeWorker w p, APutTicket s))"
| "tstep p (APutTicket s) e = plain e (on_ticket p (ARet s (Inl PinFailed)))"
| "tstep p (ADone s ch w) e = plain e (Some (on_close ch p (ARet s (Inr w))))"
| "tstep p (ARet s r) e = None"
| "tstep p (KStart s) e = plain e (case kill_check s p of
       (Inl err, p') \<Rightarrow> Some (p', KRet s KillLookupFailed None)
     | (Inr None, p') \<Rightarrow> Some (p', KRet s KillNoSession None)
     | (Inr (Some w), p') \<Rightarrow> Some (p', KClose s w))"
| "tstep p (KClose s w) e = (case e of
       CloseErr \<Rightarrow> Some (p, KRet s KillCloseFailed (Some w)) | CloseOk \<Rightarrow> Some (p, KRemove s w) | _ \<Rightarrow> None)"
| "tstep p (KRemove s w) e = plain e (Some (removeWorker w p, KTicket s w))"
| "tstep p (KTicket s w) e = plain e (on_ticket p (KRet s KillDone None))"
| "tstep p (KRet s r w) e = None"
| "tstep p (RStart s w) e = plain e (case release_check s w p of
       (valid, p') \<Rightarrow> Some (p', if valid then RClose s w else RRet s))"
| "tstep p (RClose s w) e = (case e of
       CloseOk \<Rightarrow> Some (p, RRemove s w) | CloseErr \<Rightarrow> Some (p, RRemove s w) | _ \<Rightarrow> None)"
| "tstep p (RRemove s w) e = plain e (Some (removeWorker w p, RTicket s w))"
| "tstep p (RTicket s w) e = plain e (on_ticket p (RRet s))"
| "tstep p (RRet s) e = None"
| "tstep p (CStart s) e = plain e (case crash_check s p of
       None \<Rightarrow> Some (p, Panicked)
     | Some (Some w, p') \<Rightarrow> Some (p', CRemove s w)
     | Some (None, p') \<Rightarrow> Some (p', CHandler s))"
| "tstep p (CRemove s w) e = plain e (Some (removeWorker w p, CTicket s))"
| "tstep p (CTicket s) e = plain e (on_ticket p (CHandler s))"
| "tstep p (CHandler s) e = plain e (Some (crash_handler s p, CRet s))"
| "tstep p (CRet s) e = None"
| "tstep p Panicked e = None"

section \<open>The system of goroutines\<close>

record 'o sys =
  shared :: "'o pool"
  threads :: "'o pc multiset"

text \<open>
  \<open>entry\<close> says which calls the program makes: a new goroutine starts at the entry point of
  one of them.
\<close>

inductive sys_step :: "('o pc \<Rightarrow> bool) \<Rightarrow> 'o sys \<Rightarrow> 'o sys \<Rightarrow> bool" for entry where
  spawn: "entry pc \<Longrightarrow> sys_step entry \<lparr>shared = p, threads = T\<rparr> \<lparr>shared = p, threads = add_mset pc T\<rparr>"
| run: "tstep p pc e = Some (p', pc') \<Longrightarrow>
     sys_step entry \<lparr>shared = p, threads = add_mset pc T\<rparr> \<lparr>shared = p', threads = add_mset pc' T\<rparr>"

inductive reach :: "('o pc \<Rightarrow> bool) \<Rightarrow> 'o pool \<Rightarrow> 'o sys \<Rightarrow> bool" for entry p0 where
  init: "reach entry p0 \<lparr>shared = p0, threads = {#}\<rparr>"
| step: "reach entry p0 s \<Longrightarrow> sys_step entry s t \<Longrightarrow> reach entry p0 t"

text \<open>
  The daemon calls \<open>Acquire\<close> (control plane and cloud client) and \<open>KillWorker\<close> (control plane
  and reaper).  It never calls \<open>Session.Release\<close>, and \<open>FirecrackerWorker.OnCrash\<close> drops the
  callback, so \<open>onCrash\<close> never runs.
\<close>

definition daemon_entry :: "'o pc \<Rightarrow> bool" where
  "daemon_entry pc = (case pc of AStart s \<Rightarrow> True | KStart s \<Rightarrow> True | _ \<Rightarrow> False)"

text \<open>Every method of the pool, as a library user may call it.\<close>

definition any_entry :: "'o pc \<Rightarrow> bool" where
  "any_entry pc = (case pc of AStart s \<Rightarrow> True | KStart s \<Rightarrow> True | RStart s w \<Rightarrow> True
     | CStart s \<Rightarrow> True | _ \<Rightarrow> False)"

end
