(* ===== verification/Pool_Safety.thy ===== *)
theory Pool_Safety
  imports Pool
begin

text \<open>
  The concurrent pool keeps its books.  The invariant \<open>pool_inv\<close> accounts for every ticket,
  every tracked worker, every inflight entry and every broadcast channel by the goroutine that
  is responsible for it; it holds in every state that any interleaving of \<open>Acquire\<close> and
  \<open>KillWorker\<close> calls can reach.
\<close>

section \<open>What a goroutine is responsible for\<close>

text \<open>The capacity tokens it holds (a failed \<open>Close\<close> in \<open>KillWorker\<close> keeps its token for good).\<close>

definition tk :: "'o pc \<Rightarrow> nat" where
  "tk pc = (case pc of ASpawn _ _ \<Rightarrow> 1 | AFailTicket _ _ \<Rightarrow> 1 | AWire _ _ _ \<Rightarrow> 1 | APin _ _ _ \<Rightarrow> 1
     | KClose _ _ \<Rightarrow> 1 | KRemove _ _ \<Rightarrow> 1 | KTicket _ _ \<Rightarrow> 1
     | KRet _ r _ \<Rightarrow> (if r = KillCloseFailed then 1 else 0) | _ \<Rightarrow> 0)"

text \<open>The tracked workers that no session is pinned to.\<close>

definition wids :: "'o pc \<Rightarrow> string multiset" where
  "wids pc = (case pc of APin _ _ w \<Rightarrow> {#worker_ID w#} | KClose _ w \<Rightarrow> {#worker_ID w#}
     | KRemove _ w \<Rightarrow> {#worker_ID w#}
     | KRet _ r (Some w) \<Rightarrow> (if r = KillCloseFailed then {#worker_ID w#} else {#}) | _ \<Rightarrow> {#})"

text \<open>The inflight entry it created and has not removed yet.\<close>

definition own :: "'o pc \<Rightarrow> (sid \<times> nat) multiset" where
  "own pc = (case pc of ATicket s c \<Rightarrow> {#(s, c)#} | ACancelDrop s c \<Rightarrow> {#(s, c)#}
     | ASpawn s c \<Rightarrow> {#(s, c)#} | AFailTicket s c \<Rightarrow> {#(s, c)#} | AFailDrop s c \<Rightarrow> {#(s, c)#}
     | AWire s c _ \<Rightarrow> {#(s, c)#} | APin s c _ \<Rightarrow> {#(s, c)#} | _ \<Rightarrow> {#})"

text \<open>The channel it still has to close.\<close>

definition chs :: "'o pc \<Rightarrow> nat multiset" where
  "chs pc = (case pc of ACancelClose _ c \<Rightarrow> {#c#} | AFailClose _ c \<Rightarrow> {#c#} | ADone _ c _ \<Rightarrow> {#c#}
     | _ \<Rightarrow> image_mset snd (own pc))"

text \<open>The channel it waits on.\<close>

definition waits :: "'o pc \<Rightarrow> nat multiset" where
  "waits pc = (case pc of AWait _ c \<Rightarrow> {#c#} | _ \<Rightarrow> {#})"

text \<open>Program points that the daemon's calls never get to.\<close>

definition off_path :: "'o pc \<Rightarrow> bool" where
  "off_path pc = (case pc of Panicked \<Rightarrow> True
     | APutClose _ _ _ \<Rightarrow> True | APutWorker _ _ \<Rightarrow> True | APutRemove _ _ \<Rightarrow> True | APutTicket _ \<Rightarrow> True
     | RStart _ _ \<Rightarrow> True | RClose _ _ \<Rightarrow> True | RRemove _ _ \<Rightarrow> True | RTicket _ _ \<Rightarrow> True | RRet _ \<Rightarrow> True
     | CStart _ \<Rightarrow> True | CRemove _ _ \<Rightarrow> True | CTicket _ \<Rightarrow> True | CHandler _ \<Rightarrow> True | CRet _ \<Rightarrow> True
     | _ \<Rightarrow> False)"

lemmas duties = tk_def wids_def own_def chs_def waits_def off_path_def

lemma wids_le_tk: "size (wids pc) \<le> tk pc"
  by (cases pc) (auto simp: duties split: option.splits)

section \<open>The invariant\<close>

definition books :: "'o pool \<Rightarrow> nat \<Rightarrow> string multiset \<Rightarrow> bool" where
  "books p n ids \<longleftrightarrow> finite (dom (p_registry p)) \<and>
     p_tickets p + card (dom (p_registry p)) + n = p_max p \<and>
     image_mset worker_ID (mset (p_workers p)) = ran_mset worker_ID (p_registry p) + ids"

definition flights :: "'o pool \<Rightarrow> (sid \<times> nat) multiset \<Rightarrow> nat multiset \<Rightarrow> nat multiset \<Rightarrow> bool" where
  "flights p os cs ws \<longleftrightarrow>
     (\<forall>s c. count os (s, c) = (if p_inflight p s = Some c then 1 else 0)) \<and>
     (\<forall>c. count cs c \<le> 1) \<and>
     (\<forall>c \<in># cs. c < p_nextch p \<and> c \<notin> p_closed p) \<and>
     (\<forall>c \<in> p_closed p. c < p_nextch p) \<and>
     (\<forall>c \<in># ws. c \<in> p_closed p \<or> c \<in># cs) \<and>
     (\<forall>s c. p_inflight p s = Some c \<longrightarrow> p_registry p s = None)"

definition pool_inv :: "'o pool \<Rightarrow> 'o pc multiset \<Rightarrow> bool" where
  "pool_inv p T \<longleftrightarrow> books p (\<Sum>x \<in># T. tk x) (\<Sum>x \<in># T. wids x) \<and>
     flights p (\<Sum>x \<in># T. own x) (\<Sum>x \<in># T. chs x) (\<Sum>x \<in># T. waits x) \<and>
     (\<forall>x \<in># T. \<not> off_path x)"

section \<open>Each book-keeping action\<close>

lemma mset_remove_by_id:
  "image_mset worker_ID (mset (remove_by_id i ws)) = image_mset worker_ID (mset ws) - {#i#}"
  by (induction ws) auto

lemma books_frame:
  "books p n ids \<Longrightarrow> p_registry p' = p_registry p \<Longrightarrow> p_tickets p' = p_tickets p \<Longrightarrow> p_max p' = p_max p \<Longrightarrow>
     p_workers p' = p_workers p \<Longrightarrow> books p' n ids"
  by (simp add: books_def)

lemma books_take: "books p n ids \<Longrightarrow> take_ticket p = Some p' \<Longrightarrow> books p' (Suc n) ids"
  by (auto simp: books_def take_ticket_def split: if_splits)

lemma books_put: "books p (Suc n) ids \<Longrightarrow> put_ticket p = Some p' \<Longrightarrow> books p' n ids"
  by (auto simp: books_def put_ticket_def split: if_splits)

lemma books_wire: "books p n ids \<Longrightarrow> books (wireWorker w p) n (add_mset (worker_ID w) ids)"
  by (simp add: books_def wireWorker_def)

lemma books_pin:
  "books p (Suc n) (add_mset (worker_ID w) ids) \<Longrightarrow> p_registry p s = None \<Longrightarrow>
     books (drop_inflight s (p\<lparr>p_registry := (p_registry p)(s \<mapsto> w)\<rparr>)) n ids"
  by (simp add: books_def drop_inflight_def ran_mset_upd_new card_dom_upd_new del: dom_fun_upd)

lemma books_unpin:
  "books p n ids \<Longrightarrow> p_registry p s = Some w \<Longrightarrow>
     books (p\<lparr>p_registry := (p_registry p)(s := None)\<rparr>) (Suc n) (add_mset (worker_ID w) ids)"
proof -
  assume b: "books p n ids" and w: "p_registry p s = Some w"
  have fin: "finite (dom (p_registry p))" using b by (simp add: books_def)
  show ?thesis
    using b ran_mset_del [OF fin w, of worker_ID] card_dom_del [OF fin w]
    by (simp add: books_def del: dom_fun_upd)
qed

lemma books_remove: "books p n (add_mset (worker_ID w) ids) \<Longrightarrow> books (removeWorker w p) n ids"
  by (simp add: books_def removeWorker_def mset_remove_by_id)

lemma flights_frame:
  "flights p os cs ws \<Longrightarrow> p_registry p' = p_registry p \<Longrightarrow> p_inflight p' = p_inflight p \<Longrightarrow>
     p_nextch p' = p_nextch p \<Longrightarrow> p_closed p' = p_closed p \<Longrightarrow> flights p' os cs ws"
  by (simp add: flights_def)

lemma flights_create:
  assumes "flights p os cs ws" and "p_inflight p s = None" and "p_registry p s = None"
  shows "flights (p\<lparr>p_inflight := (p_inflight p)(s \<mapsto> p_nextch p), p_nextch := Suc (p_nextch p)\<rparr>)
    (add_mset (s, p_nextch p) os) (add_mset (p_nextch p) cs) ws"
proof -
  have "p_nextch p \<notin># cs" using assms(1) by (auto simp: flights_def)
  then have z: "count cs (p_nextch p) = 0" by (simp add: not_in_iff)
  show ?thesis using assms z by (auto simp: flights_def)
qed

text \<open>Taking an owner's entry out of the count and out of the map keeps them in step.\<close>

lemma owner_count:
  assumes "\<And>t d. count (add_mset (s, c) os) (t, d) = (if f t = Some d then 1 else (0 :: nat))"
  shows "f s = Some c" and "count os (t, d) = (if (f(s := None)) t = Some d then 1 else 0)"
proof -
  show fs: "f s = Some c"
  proof (rule ccontr)
    assume "f s \<noteq> Some c"
    then show False using assms [of s c] by simp
  qed
  show "count os (t, d) = (if (f(s := None)) t = Some d then 1 else 0)"
  proof (cases "t = s")
    case True
    then show ?thesis using fs assms [of s d] by (cases "d = c") simp_all
  next
    case False
    then show ?thesis using assms [of t d] by simp
  qed
qed

lemma flights_owner: "flights p (add_mset (s, c) os) cs ws \<Longrightarrow> p_inflight p s = Some c \<and> p_registry p s = None"
  using owner_count(1) [of s c os "p_inflight p"] by (simp add: flights_def)

lemma flights_owner_once: "flights p (add_mset (s, c) os) cs ws \<Longrightarrow> (s, c) \<notin># os"
  using owner_count(2) [of s c os "p_inflight p" s c] by (simp add: flights_def not_in_iff)

lemma flights_drop:
  assumes "flights p (add_mset (s, c) os) cs ws"
  shows "flights (drop_inflight s p) os cs ws"
  using assms owner_count(2) [of s c os "p_inflight p"]
  by (auto simp: flights_def drop_inflight_def split: if_splits)

lemma flights_pin:
  assumes "flights p (add_mset (s, c) os) cs ws"
  shows "flights (drop_inflight s (p\<lparr>p_registry := (p_registry p)(s \<mapsto> w)\<rparr>)) os cs ws"
  using flights_drop [OF assms] flights_owner [OF assms]
  by (auto simp: flights_def drop_inflight_def split: if_splits)

lemma flights_unpin:
  "flights p os cs ws \<Longrightarrow> flights (p\<lparr>p_registry := (p_registry p)(s := None)\<rparr>) os cs ws"
  by (simp add: flights_def)

lemma flights_close:
  assumes "flights p os (add_mset c cs) ws"
  shows "\<exists>p'. close_chan c p = Some p' \<and> p' = p\<lparr>p_closed := insert c (p_closed p)\<rparr> \<and> flights p' os cs ws"
proof -
  have open_c: "c \<notin> p_closed p" and lt: "c < p_nextch p" using assms by (auto simp: flights_def)
  have once: "count (add_mset c cs) d \<le> 1" for d using assms unfolding flights_def by blast
  have nin: "c \<notin># cs" using once [of c] by (simp add: not_in_iff)
  have le: "count cs d \<le> 1" for d using once [of d] by (simp split: if_splits)
  have "flights (p\<lparr>p_closed := insert c (p_closed p)\<rparr>) os cs ws"
    using assms lt nin le by (auto simp: flights_def)
  with open_c show ?thesis by (simp add: close_chan_def)
qed

lemma flights_wait: "flights p os cs ws \<Longrightarrow> flights p os cs (add_mset c ws) \<longleftrightarrow> c \<in> p_closed p \<or> c \<in># cs"
  by (auto simp: flights_def)

lemma flights_unwait: "flights p os cs (add_mset c ws) \<Longrightarrow> flights p os cs ws"
  by (auto simp: flights_def)

section \<open>Every step keeps the invariant\<close>

text \<open>The invariant around one goroutine, with the sums over the others abstracted.\<close>

definition inv_at :: "'o pool \<Rightarrow> 'o pc \<Rightarrow> nat \<Rightarrow> string multiset \<Rightarrow> (sid \<times> nat) multiset \<Rightarrow>
    nat multiset \<Rightarrow> nat multiset \<Rightarrow> bool" where
  "inv_at p pc n ids os cs ws \<longleftrightarrow> books p (tk pc + n) (wids pc + ids) \<and>
     flights p (own pc + os) (chs pc + cs) (waits pc + ws) \<and> \<not> off_path pc"

lemma pool_inv_add:
  "pool_inv p (add_mset pc T) \<longleftrightarrow>
     inv_at p pc (\<Sum>x \<in># T. tk x) (\<Sum>x \<in># T. wids x) (\<Sum>x \<in># T. own x) (\<Sum>x \<in># T. chs x) (\<Sum>x \<in># T. waits x) \<and>
     (\<forall>x \<in># T. \<not> off_path x)"
  by (auto simp: pool_inv_def inv_at_def)

lemma inv_frames:
  "books (p\<lparr>p_inflight := f, p_nextch := k\<rparr>) n ids = books p n ids"
  "books (drop_inflight s p) n ids = books p n ids"
  "books (p\<lparr>p_closed := cl\<rparr>) n ids = books p n ids"
  "flights (wireWorker w p) os cs ws = flights p os cs ws"
  "flights (removeWorker w p) os cs ws = flights p os cs ws"
  by (simp_all add: books_def flights_def drop_inflight_def wireWorker_def removeWorker_def)

lemma flights_tickets:
  "take_ticket p = Some p' \<Longrightarrow> flights p' os cs ws = flights p os cs ws"
  "put_ticket p = Some p' \<Longrightarrow> flights p' os cs ws = flights p os cs ws"
  by (auto simp: flights_def take_ticket_def put_ticket_def split: if_splits)

lemma on_close_inv:
  assumes "inv_at p pc n ids os cs ws" and "on_close c p pc2 = (p', pc')"
    and "chs pc = {#c#}" "own pc = {#}" "waits pc = {#}" "tk pc2 = tk pc" "wids pc2 = wids pc"
    and "own pc2 = {#}" "chs pc2 = {#}" "waits pc2 = {#}" "\<not> off_path pc2"
  shows "inv_at p' pc' n ids os cs ws"
proof -
  have "flights p os (add_mset c cs) ws" using assms by (simp add: inv_at_def)
  from flights_close [OF this] obtain q where q: "close_chan c p = Some q"
      "q = p\<lparr>p_closed := insert c (p_closed p)\<rparr>" "flights q os cs ws" by blast
  with assms show ?thesis by (auto simp: on_close_def inv_at_def inv_frames)
qed

lemma on_ticket_inv:
  assumes "inv_at p pc n ids os cs ws" and "on_ticket p pc2 = Some (p', pc')"
    and "tk pc = 1" "tk pc2 = 0" "wids pc2 = wids pc" "own pc2 = own pc" "chs pc2 = chs pc"
    and "waits pc2 = waits pc" "\<not> off_path pc2"
  shows "inv_at p' pc' n ids os cs ws"
proof -
  obtain q where q: "put_ticket p = Some q" "p' = q" "pc' = pc2"
    using assms(2) by (auto simp: on_ticket_def)
  have "books p (Suc n) (wids pc + ids)" using assms by (simp add: inv_at_def)
  from books_put [OF this q(1)] assms q show ?thesis
    by (simp add: inv_at_def flights_tickets(2) [OF q(1)])
qed

fun_cases plain_Some: "plain e r = Some x"

lemma own_chs: "image_mset snd (own pc) \<subseteq># chs pc"
  by (cases pc) (simp_all add: duties)

lemma sum_own_chs: "image_mset snd (\<Sum>x \<in># T. own x) \<subseteq># (\<Sum>x \<in># T. chs x)"
proof (induction T)
  case (add x T)
  then show ?case using own_chs [of x] by (simp add: subset_mset.add_mono)
qed simp

lemma AStart_inv:
  assumes sub: "image_mset snd os \<subseteq># cs" and inv: "inv_at p (AStart s) n ids os cs ws" and st: "tstep p (AStart s) e = Some (p', pc')"
  shows "inv_at p' pc' n ids os cs ws"
proof -
  have f: "flights p os cs ws" and b: "books p n ids" using inv by (simp_all add: inv_at_def duties)
  show ?thesis
  proof (cases "p_registry p s")
    case (Some w)
    with st inv show ?thesis
      by (auto elim!: plain_Some simp: acquire_check_def registry_Get_def inv_at_def duties)
  next
    case reg: None
    show ?thesis
    proof (cases "p_inflight p s")
      case None
      with st reg flights_create [OF f None reg] b show ?thesis
        by (auto elim!: plain_Some simp: acquire_check_def registry_Get_def inv_at_def duties inv_frames)
    next
      case (Some c)
      have "count os (s, c) = 1" using f Some by (simp add: flights_def)
      then have "(s, c) \<in># os" by (simp flip: count_greater_zero_iff)
      then have "c \<in># image_mset snd os" by force
      with sub have "c \<in># cs" by (rule mset_subset_eqD)
      then have "flights p os cs (add_mset c ws)" using flights_wait [OF f, of c] by simp
      with st reg Some b show ?thesis
        by (auto elim!: plain_Some simp: acquire_check_def registry_Get_def inv_at_def duties)
    qed
  qed
qed

lemma KStart_inv:
  assumes inv: "inv_at p (KStart s) n ids os cs ws" and st: "tstep p (KStart s) e = Some (p', pc')"
  shows "inv_at p' pc' n ids os cs ws"
proof (cases "p_registry p s")
  case None
  with st inv show ?thesis
    by (auto elim!: plain_Some simp: kill_check_def registry_Get_def inv_at_def duties)
next
  case (Some w)
  have f: "flights p os cs ws" and b: "books p n ids" using inv by (simp_all add: inv_at_def duties)
  from st Some books_unpin [OF b Some] flights_unpin [OF f, of s] show ?thesis
    by (auto elim!: plain_Some simp: kill_check_def registry_Get_def registry_Delete_def inv_at_def duties)
qed

lemma APin_inv:
  assumes inv: "inv_at p (APin s c w) n ids os cs ws" and st: "tstep p (APin s c w) e = Some (p', pc')"
  shows "inv_at p' pc' n ids os cs ws"
proof -
  have f: "flights p (add_mset (s, c) os) (add_mset c cs) ws" and b: "books p (Suc n) (add_mset (worker_ID w) ids)"
    using inv by (simp_all add: inv_at_def duties)
  have "books (drop_inflight s (p\<lparr>p_registry := (p_registry p)(s \<mapsto> w)\<rparr>)) n ids"
    using books_pin [OF b] flights_owner [OF f] by blast
  moreover have "flights (drop_inflight s (p\<lparr>p_registry := (p_registry p)(s \<mapsto> w)\<rparr>)) os (add_mset c cs) ws"
    by (rule flights_pin [OF f])
  ultimately show ?thesis
    using st by (auto elim!: plain_Some simp: acquire_pin_def registry_Put_def inv_at_def duties)
qed

text \<open>The remaining points of \<open>Acquire\<close> and \<open>KillWorker\<close>: each is one of the actions above.\<close>

lemma tstep_inv_at:
  assumes sub: "image_mset snd os \<subseteq># cs" and inv: "inv_at p pc n ids os cs ws"
    and st: "tstep p pc e = Some (p', pc')"
  shows "inv_at p' pc' n ids os cs ws"
proof (cases pc)
  case (AStart s)
  with sub inv st show ?thesis by (simp only: AStart_inv)
next
  case (AWait s c)
  with inv st show ?thesis
    by (auto simp: inv_at_def duties split: ev.splits if_splits dest: flights_unwait)
next
  case (ATicket s c)
  with inv st show ?thesis
    by (auto simp: inv_at_def duties flights_tickets split: ev.splits dest: books_take)
next
  case (ACancelDrop s c)
  with inv st show ?thesis
    by (auto elim!: plain_Some simp: inv_at_def duties inv_frames dest: flights_drop)
next
  case (ACancelClose s c)
  show ?thesis
    by (rule on_close_inv [OF inv, of c "ARet s (Inl TimedOutCapacity)"])
      (use ACancelClose st in \<open>auto elim!: plain_Some simp: duties\<close>)
next
  case (ASpawn s c)
  with inv st show ?thesis by (auto simp: inv_at_def duties split: ev.splits)
next
  case (AFailTicket s c)
  show ?thesis
    by (rule on_ticket_inv [OF inv, of "AFailDrop s c"])
      (use AFailTicket st in \<open>auto elim!: plain_Some simp: duties\<close>)
next
  case (AFailDrop s c)
  with inv st show ?thesis
    by (auto elim!: plain_Some simp: inv_at_def duties inv_frames dest: flights_drop)
next
  case (AFailClose s c)
  show ?thesis
    by (rule on_close_inv [OF inv, of c "ARet s (Inl SpawnFailed)"])
      (use AFailClose st in \<open>auto elim!: plain_Some simp: duties\<close>)
next
  case (AWire s c w)
  with inv st show ?thesis
    by (auto elim!: plain_Some simp: inv_at_def duties inv_frames dest: books_wire [of p _ _ w])
next
  case (APin s c w)
  with inv st show ?thesis by (simp only: APin_inv)
next
  case (ADone s c w)
  show ?thesis
    by (rule on_close_inv [OF inv, of c "ARet s (Inr w)"])
      (use ADone st in \<open>auto elim!: plain_Some simp: duties\<close>)
next
  case (KStart s)
  with inv st show ?thesis by (simp only: KStart_inv)
next
  case (KClose s w)
  with inv st show ?thesis by (auto simp: inv_at_def duties split: ev.splits)
next
  case (KRemove s w)
  with inv st show ?thesis
    by (auto elim!: plain_Some simp: inv_at_def duties inv_frames dest: books_remove)
next
  case (KTicket s w)
  show ?thesis
    by (rule on_ticket_inv [OF inv, of "KRet s KillDone None"])
      (use KTicket st in \<open>auto elim!: plain_Some simp: duties\<close>)
qed (use inv st in \<open>simp_all add: inv_at_def off_path_def\<close>)

lemma tstep_pool_inv:
  "pool_inv p (add_mset pc T) \<Longrightarrow> tstep p pc e = Some (p', pc') \<Longrightarrow> pool_inv p' (add_mset pc' T)"
  unfolding pool_inv_add using tstep_inv_at [OF sum_own_chs] by blast

lemma entry_duties:
  "daemon_entry pc \<Longrightarrow> tk pc = 0 \<and> wids pc = {#} \<and> own pc = {#} \<and> chs pc = {#} \<and> waits pc = {#} \<and> \<not> off_path pc"
  by (cases pc) (simp_all add: duties daemon_entry_def)

lemma entry_pool_inv: "pool_inv p T \<Longrightarrow> daemon_entry pc \<Longrightarrow> pool_inv p (add_mset pc T)"
  by (simp add: pool_inv_def entry_duties)

lemma sys_step_pool_inv:
  "sys_step daemon_entry s t \<Longrightarrow> pool_inv (shared s) (threads s) \<Longrightarrow> pool_inv (shared t) (threads t)"
  by (induction rule: sys_step.induct) (simp_all add: entry_pool_inv tstep_pool_inv)

lemma pool_New_pool_inv: "pool_inv (pool_New opts) {#}"
  by (simp add: pool_inv_def books_def flights_def pool_New_def Let_def NewLocalRegistry_def)

lemma reach_pool_inv:
  "reach daemon_entry (pool_New opts) s \<Longrightarrow> pool_inv (shared s) (threads s)"
  by (induction rule: reach.induct) (auto simp: pool_New_pool_inv intro: sys_step_pool_inv)

section \<open>Properties of the pool under the daemon's calls\<close>

lemma sum_wids_le_tk: "size (\<Sum>x \<in># T. wids x) \<le> (\<Sum>x \<in># T. tk x)"
proof (induction T)
  case (add x T)
  then show ?case using wids_le_tk [of x] by simp
qed simp

lemma workers_le_max: "pool_inv p T \<Longrightarrow> length (p_workers p) \<le> p_max p"
proof -
  assume inv: "pool_inv p T"
  have "length (p_workers p) = size (image_mset worker_ID (mset (p_workers p)))" by simp
  also have "\<dots> = card (dom (p_registry p)) + size (\<Sum>x \<in># T. wids x)"
    using inv by (simp add: pool_inv_def books_def)
  also have "\<dots> \<le> p_max p"
    using inv sum_wids_le_tk [of T] by (simp add: pool_inv_def books_def)
  finally show ?thesis .
qed

text \<open>
  C3.  Capacity: whatever the interleaving of \<open>Acquire\<close> and \<open>KillWorker\<close> calls, the free
  tickets, the pinned sessions and the tickets that goroutines hold add up to the configured
  maximum, and the pool never tracks more workers than that maximum.
\<close>

theorem pool_capacity:
  assumes "reach daemon_entry (pool_New opts) s"
  shows "p_tickets (shared s) + card (dom (p_registry (shared s))) + (\<Sum>x \<in># threads s. tk x) =
      p_max (shared s) \<and>
    length (p_workers (shared s)) \<le> p_max (shared s)"
proof -
  have inv: "pool_inv (shared s) (threads s)" using assms by (rule reach_pool_inv)
  then show ?thesis using workers_le_max [OF inv] by (simp add: pool_inv_def books_def)
qed

text \<open>A goroutine that owns the creation of a worker for session \<open>s\<close>.\<close>

definition creating :: "sid \<Rightarrow> 'o pc \<Rightarrow> bool" where
  "creating s pc \<longleftrightarrow> (\<exists>c. own pc = {#(s, c)#})"

lemma creating_inflight:
  assumes "pool_inv p (add_mset x T)" and "creating s x"
  shows "\<exists>c. own x = {#(s, c)#} \<and> p_inflight p s = Some c \<and> p_registry p s = None \<and>
    (s, c) \<notin># (\<Sum>y \<in># T. own y)"
proof -
  obtain c where c: "own x = {#(s, c)#}" using assms(2) by (auto simp: creating_def)
  let ?os = "\<Sum>y \<in># T. own y"
  have f: "flights p (add_mset (s, c) ?os) (chs x + (\<Sum>y \<in># T. chs y)) (waits x + (\<Sum>y \<in># T. waits y))"
    using assms(1) c by (simp add: pool_inv_add inv_at_def)
  from c flights_owner [OF f] flights_owner_once [OF f] show ?thesis by auto
qed

text \<open>
  C5.  Single flight: at most one goroutine at a time creates a worker for a session, and none
  does while the session is pinned, so a session never gets a second worker.
\<close>

theorem pool_single_flight:
  assumes "reach daemon_entry (pool_New opts) s" and "x \<in># threads s" and "creating i x"
  shows "p_registry (shared s) i = None \<and> (\<forall>y. y \<in># threads s - {#x#} \<longrightarrow> \<not> creating i y)"
proof -
  have inv: "pool_inv (shared s) (threads s)" using assms(1) by (rule reach_pool_inv)
  define T where "T = threads s - {#x#}"
  have T: "threads s = add_mset x T" using assms(2) by (simp add: T_def)
  obtain c where c: "own x = {#(i, c)#}" "p_inflight (shared s) i = Some c" "p_registry (shared s) i = None"
    "(i, c) \<notin># (\<Sum>y \<in># T. own y)"
    using creating_inflight [of "shared s" x T i] inv assms(3) T by auto
  have "\<not> creating i y" if "y \<in># T" for y
  proof
    assume y: "creating i y"
    have "threads s = add_mset y (threads s - {#y#})" using that T by simp
    then obtain d where d: "own y = {#(i, d)#}" "p_inflight (shared s) i = Some d"
      using creating_inflight [of "shared s" y "threads s - {#y#}" i] inv y by auto
    with c have "(i, c) \<in># own y" by simp
    with that have "(i, c) \<in># (\<Sum>y \<in># T. own y)" by auto
    with c(4) show False by simp
  qed
  with c(3) show ?thesis by (simp add: T_def)
qed

text \<open>
  C23.  No panic: no goroutine ever closes a channel twice, so the process does not crash in the
  pool.
\<close>

theorem pool_no_panic:
  assumes "reach daemon_entry (pool_New opts) s"
  shows "Panicked \<notin># threads s"
  using reach_pool_inv [OF assms] by (auto simp: pool_inv_def off_path_def)

text \<open>
  No lost wake-up: a caller that waits for another caller's \<open>Acquire\<close> of the same session
  can either go on now, because its channel is closed, or some goroutine still has to close
  that channel.
\<close>

theorem pool_waiters_served:
  assumes "reach daemon_entry (pool_New opts) s" and "AWait i c \<in># threads s"
  shows "tstep (shared s) (AWait i c) Go = Some (shared s, AStart i) \<or> (\<exists>x \<in># threads s. c \<in># chs x)"
proof -
  have inv: "pool_inv (shared s) (threads s)" using assms(1) by (rule reach_pool_inv)
  have "c \<in># (\<Sum>x \<in># threads s. waits x)"
    using assms(2) by (force simp: waits_def)
  with inv have "c \<in> p_closed (shared s) \<or> c \<in># (\<Sum>x \<in># threads s. chs x)"
    unfolding pool_inv_def flights_def by blast
  then show ?thesis by auto
qed

text \<open>An event that lets a goroutine move without a context cancellation.\<close>

definition next_event :: "'o pc \<Rightarrow> 'o ev" where
  "next_event x = (case x of ASpawn _ _ \<Rightarrow> SpawnErr | KClose _ _ \<Rightarrow> CloseOk | _ \<Rightarrow> Go)"

definition may_block :: "'o pc \<Rightarrow> bool" where
  "may_block x = (case x of AWait _ _ \<Rightarrow> True | ATicket _ _ \<Rightarrow> True | _ \<Rightarrow> False)"

definition returned :: "'o pc \<Rightarrow> bool" where
  "returned x = (case x of ARet _ _ \<Rightarrow> True | KRet _ _ _ \<Rightarrow> True | _ \<Rightarrow> False)"

lemma next_event_enabled:
  assumes "\<not> off_path x" and "\<not> may_block x" and "\<not> returned x"
    and "tk x = 1 \<Longrightarrow> \<exists>q. put_ticket p = Some q"
  shows "tstep p x (next_event x) \<noteq> None"
  using assms
  by (cases x)
    (auto simp: off_path_def may_block_def returned_def next_event_def tk_def on_ticket_def on_close_def
      acquire_check_def acquire_pin_def kill_check_def registry_Get_def registry_Put_def split: option.splits)

text \<open>
  C24.  Progress: a goroutine in the pool that has not returned and does not wait for another
  caller or for capacity can take a step, without help from its context.  In particular giving
  a ticket back never blocks.
\<close>

theorem pool_progress:
  assumes "reach daemon_entry (pool_New opts) s" and "x \<in># threads s"
    and "\<not> may_block x" and "\<not> returned x"
  shows "\<exists>e p' x'. e \<noteq> CtxDone \<and> tstep (shared s) x e = Some (p', x')"
proof -
  have inv: "pool_inv (shared s) (threads s)" using assms(1) by (rule reach_pool_inv)
  have off: "\<not> off_path x" using inv assms(2) by (simp add: pool_inv_def)
  have "tk x \<le> (\<Sum>y \<in># threads s. tk y)"
    using multi_member_split [OF assms(2)] by auto
  then have "\<exists>q. put_ticket (shared s) = Some q" if "tk x = 1"
    using inv that by (simp add: pool_inv_def books_def put_ticket_def)
  then have "tstep (shared s) x (next_event x) \<noteq> None"
    using next_event_enabled [OF off assms(3,4)] by blast
  moreover have "next_event x \<noteq> CtxDone" by (cases x) (simp_all add: next_event_def)
  ultimately show ?thesis by force
qed

text \<open>
  C6.  Session affinity: once a session is pinned to a worker, a step of the pool keeps it
  pinned to that worker, unless it is the step with which \<open>KillWorker\<close> takes the session out
  in order to close that worker.
\<close>

theorem pool_affinity:
  assumes "reach daemon_entry (pool_New opts) s" and "sys_step daemon_entry s t"
    and "p_registry (shared s) i = Some w"
  shows "p_registry (shared t) i = Some w \<or>
    (p_registry (shared t) i = None \<and> KStart i \<in># threads s \<and> KClose i w \<in># threads t)"
  using assms(2)
proof cases
  case (spawn pc p T)
  with assms(3) show ?thesis by simp
next
  case (run p pc e p' pc' T)
  have inv: "pool_inv p (add_mset pc T)" using reach_pool_inv [OF assms(1)] run by simp
  then have off: "\<not> off_path pc" by (simp add: pool_inv_def)
  have none: "p_registry p j = None" if "pc = APin j c v" for j c v
    using creating_inflight [OF inv, of j] that by (auto simp: creating_def own_def)
  have "p_registry p' i = Some w \<or> (p_registry p' i = None \<and> pc = KStart i \<and> pc' = KClose i w)"
    using run assms(3) off none
    by (cases pc)
      (auto elim!: plain_Some simp: off_path_def acquire_check_def kill_check_def acquire_pin_def
        registry_Get_def registry_Put_def registry_Delete_def drop_inflight_def wireWorker_def removeWorker_def
        on_close_def on_ticket_def close_chan_def take_ticket_def put_ticket_def
        split: option.splits if_splits ev.splits)
  with run show ?thesis by auto
qed

section \<open>Executable schedules\<close>

text \<open>
  A schedule starts goroutines and lets them run in a given order; \<open>exec\<close> computes the state it
  leads to, which is a reachable state of the system.
\<close>

datatype 'o act = Enter "'o pc" | Run nat "'o ev"

fun exec :: "('o pc \<Rightarrow> bool) \<Rightarrow> 'o pool \<Rightarrow> 'o pc list \<Rightarrow> 'o act list \<Rightarrow> ('o pool \<times> 'o pc list) option" where
  "exec entry p ts [] = Some (p, ts)"
| "exec entry p ts (Enter pc # as) = (if entry pc then exec entry p (ts @ [pc]) as else None)"
| "exec entry p ts (Run i e # as) =
     (if i < length ts then (case tstep p (ts ! i) e of
          None \<Rightarrow> None | Some (p', pc') \<Rightarrow> exec entry p' (ts[i := pc']) as) else None)"

lemma exec_reach:
  "exec entry p ts as = Some (p', ts') \<Longrightarrow> reach entry p0 \<lparr>shared = p, threads = mset ts\<rparr> \<Longrightarrow>
     reach entry p0 \<lparr>shared = p', threads = mset ts'\<rparr>"
proof (induction entry p ts as rule: exec.induct)
  case (2 entry p ts pc as)
  then have "reach entry p0 \<lparr>shared = p, threads = add_mset pc (mset ts)\<rparr>"
    by (auto intro: reach.step sys_step.spawn split: if_splits)
  with 2 show ?case by (simp split: if_splits)
next
  case (3 entry p ts i e as)
  then obtain q pc' where i: "i < length ts" and st: "tstep p (ts ! i) e = Some (q, pc')"
    by (auto split: if_splits option.splits prod.splits)
  let ?T = "mset ts - {#ts ! i#}"
  have "mset ts = add_mset (ts ! i) ?T" using i by simp
  with "3.prems"(2) have "reach entry p0 \<lparr>shared = p, threads = add_mset (ts ! i) ?T\<rparr>" by simp
  then have "reach entry p0 \<lparr>shared = q, threads = add_mset pc' ?T\<rparr>"
    by (rule reach.step) (rule sys_step.run [OF st])
  with 3 i st show ?case by (simp add: mset_update)
qed simp

lemma exec_reach_init:
  "exec entry p0 [] as = Some (p', ts') \<Longrightarrow> reach entry p0 \<lparr>shared = p', threads = mset ts'\<rparr>"
  using exec_reach [of entry p0 "[]" as p' ts' p0] by (simp add: reach.init)

text \<open>The state after a schedule; a schedule that is not possible leaves the initial state.\<close>

definition sched_state :: "('o pc \<Rightarrow> bool) \<Rightarrow> 'o pool \<Rightarrow> 'o act list \<Rightarrow> 'o sys" where
  "sched_state entry p0 as = (case exec entry p0 [] as of
       None \<Rightarrow> \<lparr>shared = p0, threads = {#}\<rparr>
     | Some (p, ts) \<Rightarrow> \<lparr>shared = p, threads = mset ts\<rparr>)"

lemma sched_state_reach: "reach entry p0 (sched_state entry p0 as)"
  by (auto simp: sched_state_def reach.init split: option.splits intro: exec_reach_init)

text \<open>One caller acquires session \<open>a\<close> while a second one waits for it.\<close>

lemmas pool_eval = sched_state_def pool_New_def defaultConfig_def NewLocalRegistry_def acquire_check_def registry_Get_def
  registry_Put_def registry_Delete_def take_ticket_def put_ticket_def wireWorker_def acquire_pin_def
  drop_inflight_def on_close_def on_ticket_def close_chan_def kill_check_def release_check_def
  crash_check_def crash_handler_def removeWorker_def daemon_entry_def any_entry_def

definition demo_worker :: "string \<Rightarrow> nat \<Rightarrow> nat worker" where
  "demo_worker i n = \<lparr>worker_ID = i, worker_obj = n\<rparr>"

definition acquire_sched :: "nat \<Rightarrow> nat worker \<Rightarrow> nat act list" where
  "acquire_sched k w = [Run k Go, Run k Go, Run k (SpawnOk w), Run k Go, Run k Go, Run k Go]"

definition demo_state :: "nat sys" where
  "demo_state = sched_state daemon_entry (pool_New [MaxWorkers 2])
     [Enter (AStart ''a''), Enter (AStart ''a''), Run 0 Go, Run 1 Go, Run 0 Go]"

lemma demo_state_threads: "threads demo_state = {#ASpawn ''a'' 0, AWait ''a'' 0#}"
  by (simp add: demo_state_def pool_eval)

lemma demo_state_reach: "reach daemon_entry (pool_New [MaxWorkers 2]) demo_state"
  unfolding demo_state_def by (rule sched_state_reach)

text \<open>The same session pinned, and a \<open>KillWorker\<close> call about to take it out.\<close>

definition demo_pinned :: "nat sys" where
  "demo_pinned = sched_state daemon_entry (pool_New [MaxWorkers 2])
     (Enter (AStart ''a'') # acquire_sched 0 (demo_worker ''a'' 1) @ [Enter (KStart ''a'')])"

lemma demo_pinned_reach: "reach daemon_entry (pool_New [MaxWorkers 2]) demo_pinned"
  unfolding demo_pinned_def by (rule sched_state_reach)

lemma demo_pinned_registry: "p_registry (shared demo_pinned) ''a'' = Some (demo_worker ''a'' 1)"
  by (simp add: demo_pinned_def pool_eval acquire_sched_def)

lemma demo_pinned_step: "sys_step daemon_entry demo_pinned
    \<lparr>shared = (shared demo_pinned)\<lparr>p_registry := Map.empty\<rparr>,
     threads = {#KClose ''a'' (demo_worker ''a'' 1), ARet ''a'' (Inr (demo_worker ''a'' 1))#}\<rparr>"
proof -
  let ?p = "shared demo_pinned" and ?w = "demo_worker ''a'' 1"
  have s: "demo_pinned = \<lparr>shared = ?p, threads = add_mset (KStart ''a'') {#ARet ''a'' (Inr ?w)#}\<rparr>"
    by (simp add: demo_pinned_def pool_eval acquire_sched_def add_mset_commute)
  have "tstep ?p (KStart ''a'') Go = Some (?p\<lparr>p_registry := Map.empty\<rparr>, KClose ''a'' ?w)"
    by (simp add: demo_pinned_def pool_eval acquire_sched_def fun_eq_iff)
  from sys_step.run [OF this, of daemon_entry "{#ARet ''a'' (Inr ?w)#}"] s show ?thesis by simp
qed

section \<open>Witnesses\<close>

theorem pool_capacity_witness:
  "p_tickets (shared demo_state) + card (dom (p_registry (shared demo_state))) +
     (\<Sum>x \<in># threads demo_state. tk x) = p_max (shared demo_state) \<and>
   length (p_workers (shared demo_state)) \<le> p_max (shared demo_state)"
  by (rule pool_capacity [OF demo_state_reach])

theorem pool_single_flight_witness:
  "p_registry (shared demo_state) ''a'' = None \<and> \<not> creating ''a'' (AWait ''a'' 0 :: nat pc)"
  using pool_single_flight [OF demo_state_reach, of "ASpawn ''a'' 0" "''a''"]
  by (simp add: demo_state_threads creating_def own_def)

theorem pool_no_panic_witness: "Panicked \<notin># threads demo_state"
  by (rule pool_no_panic [OF demo_state_reach])

theorem pool_waiters_served_witness:
  "tstep (shared demo_state) (AWait ''a'' 0) Go = Some (shared demo_state, AStart ''a'') \<or>
   (\<exists>x \<in># threads demo_state. 0 \<in># chs x)"
  by (rule pool_waiters_served [OF demo_state_reach]) (simp add: demo_state_threads)

theorem pool_progress_witness:
  "\<exists>e p' x'. e \<noteq> CtxDone \<and> tstep (shared demo_state) (ASpawn ''a'' 0) e = Some (p', x')"
  by (rule pool_progress [OF demo_state_reach])
    (simp_all add: demo_state_threads may_block_def returned_def)

theorem pool_affinity_witness:
  "\<exists>t. sys_step daemon_entry demo_pinned t \<and>
     (p_registry (shared t) ''a'' = Some (demo_worker ''a'' 1) \<or>
      (p_registry (shared t) ''a'' = None \<and> KStart ''a'' \<in># threads demo_pinned \<and>
       KClose ''a'' (demo_worker ''a'' 1) \<in># threads t))"
  using pool_affinity [OF demo_pinned_reach demo_pinned_step demo_pinned_registry] demo_pinned_step by blast

section \<open>What the other entry points break\<close>

text \<open>
  The capacity bound does not survive \<open>Session.Release\<close>: \<open>release\<close> decides on the worker
  list and gives its ticket back later, so two handles of one session that are released at the
  same time return two tickets for one worker, and a pool of capacity one then runs two
  workers.
\<close>

theorem release_overissues_tickets:
  "\<exists>s :: nat sys. reach any_entry (pool_New [MaxWorkers 1]) s \<and> p_max (shared s) = 1 \<and>
     length (p_workers (shared s)) = 2"
proof -
  let ?w = "demo_worker ''a'' 1"
  let ?as = "[Enter (AStart ''a'')] @ acquire_sched 0 ?w @
      [Enter (RStart ''a'' ?w), Enter (RStart ''a'' ?w), Run 1 Go, Run 2 Go, Run 1 CloseOk, Run 2 CloseOk,
       Run 1 Go, Run 2 Go, Run 1 Go, Enter (AStart ''b'')] @ acquire_sched 3 (demo_worker ''b'' 2) @
      [Run 2 Go, Enter (AStart ''c'')] @ acquire_sched 4 (demo_worker ''c'' 3)"
  let ?s = "sched_state any_entry (pool_New [MaxWorkers 1]) ?as"
  have "p_max (shared ?s) = 1" and "length (p_workers (shared ?s)) = 2"
    by (simp_all add: pool_eval acquire_sched_def demo_worker_def)
  then show ?thesis using sched_state_reach by blast
qed

text \<open>
  A crash reported between wiring the worker and pinning the session makes the process
  panic: \<open>onCrash\<close> closes the broadcast channel that \<open>Acquire\<close> closes again afterwards.
\<close>

theorem crash_before_pin_panics:
  "\<exists>s :: nat sys. reach any_entry (pool_New []) s \<and> Panicked \<in># threads s"
proof -
  let ?as = "[Enter (AStart ''a''), Run 0 Go, Run 0 Go, Run 0 (SpawnOk (demo_worker ''a'' 1)), Run 0 Go,
      Enter (CStart ''a''), Run 1 Go, Run 0 Go, Run 0 Go]"
  let ?s = "sched_state any_entry (pool_New [] :: nat pool) ?as"
  have "Panicked \<in># threads ?s" by (simp add: pool_eval demo_worker_def)
  then show ?thesis using sched_state_reach by blast
qed

end
