(* ===== verification/Pool_Calls.thy ===== *)
theory Pool_Calls
  imports Pool_Safety
begin

text \<open>
  The methods of the pool as whole calls: \<open>Acquire\<close>, \<open>KillWorker\<close>, \<open>release\<close>,
  \<open>Session.Release\<close> and \<open>Shutdown\<close>, run without another goroutine in between.  The factory's
  \<open>Spawn\<close> and the workers' \<open>Close\<close> are arguments that act on the factory's state \<open>'f\<close>.  Each
  call is a run of the goroutine steps of theory \<open>Pool\<close>, so the invariants of \<open>Pool_Safety\<close>
  hold of it.
\<close>

section \<open>Calls\<close>

datatype 'r outcome = Returns 'r | Blocks | Panics

text \<open>
  \<open>ctx_done\<close> is whether the caller's context ends while the call waits.  A wait for a channel
  that nobody is left to close, or for a ticket that nobody returns, blocks.
\<close>

definition pool_Acquire :: "(sid \<Rightarrow> tenant_config \<Rightarrow> 'f \<Rightarrow> ('e + 'o worker) \<times> 'f) \<Rightarrow> ('o worker \<Rightarrow> 'f \<Rightarrow> 'c option \<times> 'f) \<Rightarrow>
    bool \<Rightarrow> sid \<Rightarrow> tenant_config \<Rightarrow> 'o pool \<Rightarrow> 'f \<Rightarrow> (acquire_error + 'o worker) outcome \<times> 'o pool \<times> 'f" where
  "pool_Acquire spawn close ctx_done s cfg p0 f0 = (case acquire_check s p0 of
       (CheckFailed, p) \<Rightarrow> (Returns (Inl DirectoryLookup), p, f0)
     | (Found w, p) \<Rightarrow> (Returns (Inr w), p, f0)
     | (Pending ch, p) \<Rightarrow> (if ctx_done then Returns (Inl CancelledInflight) else Blocks, p, f0)
     | (Created ch, p) \<Rightarrow>
         (case take_ticket p of
            None \<Rightarrow>
              if ctx_done then
                (case close_chan ch (drop_inflight s p) of
                   None \<Rightarrow> (Panics, drop_inflight s p, f0)
                 | Some p1 \<Rightarrow> (Returns (Inl TimedOutCapacity), p1, f0))
              else (Blocks, p, f0)
          | Some p1 \<Rightarrow>
              (case spawn s cfg f0 of
                 (Inl e, f1) \<Rightarrow>
                   (case put_ticket p1 of
                      None \<Rightarrow> (Blocks, p1, f1)
                    | Some p2 \<Rightarrow>
                        (case close_chan ch (drop_inflight s p2) of
                           None \<Rightarrow> (Panics, drop_inflight s p2, f1)
                         | Some p3 \<Rightarrow> (Returns (Inl SpawnFailed), p3, f1)))
               | (Inr w, f1) \<Rightarrow>
                   (case acquire_pin s w (wireWorker w p1) of
                      (None, p2) \<Rightarrow>
                        (case close_chan ch p2 of
                           None \<Rightarrow> (Panics, p2, f1)
                         | Some p3 \<Rightarrow> (Returns (Inr w), p3, f1))
                    | (Some err, p2) \<Rightarrow>
                        (case close_chan ch p2 of
                           None \<Rightarrow> (Panics, p2, f1)
                         | Some p3 \<Rightarrow>
                             (case put_ticket (removeWorker w p3) of
                                None \<Rightarrow> (Blocks, removeWorker w p3, snd (close w f1))
                              | Some p4 \<Rightarrow> (Returns (Inl PinFailed), p4, snd (close w f1))))))))"

definition pool_KillWorker :: "('o worker \<Rightarrow> 'f \<Rightarrow> 'c option \<times> 'f) \<Rightarrow> sid \<Rightarrow> 'o pool \<Rightarrow> 'f \<Rightarrow>
    kill_result outcome \<times> 'o pool \<times> 'f" where
  "pool_KillWorker close s p0 f0 = (case kill_check s p0 of
       (Inl e, p) \<Rightarrow> (Returns KillLookupFailed, p, f0)
     | (Inr None, p) \<Rightarrow> (Returns KillNoSession, p, f0)
     | (Inr (Some w), p) \<Rightarrow>
         (case close w f0 of
            (Some e, f1) \<Rightarrow> (Returns KillCloseFailed, p, f1)
          | (None, f1) \<Rightarrow>
              (case put_ticket (removeWorker w p) of
                 None \<Rightarrow> (Blocks, removeWorker w p, f1)
               | Some p1 \<Rightarrow> (Returns KillDone, p1, f1))))"

definition pool_release :: "('o worker \<Rightarrow> 'f \<Rightarrow> 'c option \<times> 'f) \<Rightarrow> sid \<Rightarrow> 'o worker \<Rightarrow> 'o pool \<Rightarrow> 'f \<Rightarrow>
    unit outcome \<times> 'o pool \<times> 'f" where
  "pool_release close s w p0 f0 = (case release_check s w p0 of
       (False, p) \<Rightarrow> (Returns (), p, f0)
     | (True, p) \<Rightarrow>
         (case put_ticket (removeWorker w p) of
            None \<Rightarrow> (Blocks, removeWorker w p, snd (close w f0))
          | Some p1 \<Rightarrow> (Returns (), p1, snd (close w f0))))"

text \<open>A session handle; \<open>once\<close> is the \<open>sync.Once\<close> that makes \<open>Release\<close> run at most once per handle.\<close>

record 'o session =
  session_ID :: sid
  session_Worker :: "'o worker"
  session_once :: bool

definition session_Release :: "('o worker \<Rightarrow> 'f \<Rightarrow> 'c option \<times> 'f) \<Rightarrow> 'o session \<Rightarrow> 'o pool \<Rightarrow> 'f \<Rightarrow>
    'o session \<times> unit outcome \<times> 'o pool \<times> 'f" where
  "session_Release close h p f =
     (if session_once h then (h, Returns (), p, f)
      else (h\<lparr>session_once := True\<rparr>, pool_release close (session_ID h) (session_Worker h) p f))"

text \<open>\<open>Shutdown\<close> closes the workers in order and stops at the first error; a second call panics on \<open>close(p.done)\<close>.\<close>

fun close_all :: "('o worker \<Rightarrow> 'f \<Rightarrow> 'c option \<times> 'f) \<Rightarrow> 'o worker list \<Rightarrow> 'f \<Rightarrow> 'c option \<times> 'f" where
  "close_all close [] f = (None, f)"
| "close_all close (w # ws) f = (case close w f of
       (Some e, f1) \<Rightarrow> (Some e, f1)
     | (None, f1) \<Rightarrow> close_all close ws f1)"

definition pool_Shutdown :: "('o worker \<Rightarrow> 'f \<Rightarrow> 'c option \<times> 'f) \<Rightarrow> 'o pool \<Rightarrow> 'f \<Rightarrow> 'c option outcome \<times> 'o pool \<times> 'f" where
  "pool_Shutdown close p f =
     (if p_done p then (Panics, p, f)
      else (case close_all close (p_workers p) f of (e, f1) \<Rightarrow> (Returns e, p\<lparr>p_done := True\<rparr>, f1)))"

section \<open>Calls are runs of goroutine steps\<close>

inductive thread_run :: "'o pool \<Rightarrow> 'o pc \<Rightarrow> 'o pool \<Rightarrow> 'o pc \<Rightarrow> bool" where
  refl: "thread_run p x p x"
| step: "tstep p x e = Some (q, y) \<Longrightarrow> thread_run q y r z \<Longrightarrow> thread_run p x r z"

lemma thread_run_reach:
  "thread_run p x q y \<Longrightarrow> reach entry p0 \<lparr>shared = p, threads = add_mset x T\<rparr> \<Longrightarrow>
     reach entry p0 \<lparr>shared = q, threads = add_mset y T\<rparr>"
  by (induction rule: thread_run.induct) (auto intro: reach.step sys_step.run)

text \<open>The events of one call, and the run they drive.\<close>

fun run_evs :: "'o pool \<Rightarrow> 'o pc \<Rightarrow> 'o ev list \<Rightarrow> ('o pool \<times> 'o pc) option" where
  "run_evs p x [] = Some (p, x)"
| "run_evs p x (e # es) = (case tstep p x e of None \<Rightarrow> None | Some (q, y) \<Rightarrow> run_evs q y es)"

lemma run_evs_run: "run_evs p x es = Some (q, y) \<Longrightarrow> thread_run p x q y"
  by (induction p x es rule: run_evs.induct) (auto intro: thread_run.intros split: option.splits prod.splits)

definition acquire_evs :: "(sid \<Rightarrow> tenant_config \<Rightarrow> 'f \<Rightarrow> ('e + 'o worker) \<times> 'f) \<Rightarrow> bool \<Rightarrow> sid \<Rightarrow> tenant_config \<Rightarrow>
    'o pool \<Rightarrow> 'f \<Rightarrow> 'o ev list" where
  "acquire_evs spawn ctx_done s cfg p f = (case acquire_check s p of
       (Pending ch, p1) \<Rightarrow> (if ctx_done then [Go, CtxDone] else [Go])
     | (Created ch, p1) \<Rightarrow>
         (case take_ticket p1 of
            None \<Rightarrow> if ctx_done then [Go, CtxDone, Go, Go] else [Go]
          | Some p2 \<Rightarrow>
              (case spawn s cfg f of
                 (Inl e, _) \<Rightarrow> [Go, Go, SpawnErr] @ (case put_ticket p2 of None \<Rightarrow> [] | Some _ \<Rightarrow> [Go, Go, Go])
               | (Inr w, _) \<Rightarrow> [Go, Go, SpawnOk w, Go, Go, Go]))
     | _ \<Rightarrow> [Go])"

text \<open>Where the goroutine stands when the call has the given outcome.\<close>

definition acquire_pc :: "sid \<Rightarrow> (acquire_error + 'o worker) outcome \<Rightarrow> 'o pc \<Rightarrow> bool" where
  "acquire_pc s r x = (case r of Returns v \<Rightarrow> x = ARet s v | Panics \<Rightarrow> x = Panicked | Blocks \<Rightarrow> \<not> returned x)"

lemma acquire_is_run:
  assumes "pool_Acquire spawn close ctx_done s cfg p f = (r, p', f')"
  shows "\<exists>x. run_evs p (AStart s) (acquire_evs spawn ctx_done s cfg p f) = Some (p', x) \<and> acquire_pc s r x"
proof -
  obtain c q where c: "acquire_check s p = (c, q)" by fastforce
  show ?thesis
  proof (cases c)
    case (Created ch)
    show ?thesis
    proof (cases "take_ticket q")
      case None
      with assms c Created show ?thesis
        by (auto simp: pool_Acquire_def acquire_evs_def acquire_pc_def returned_def on_close_def split: if_splits option.splits)
    next
      case (Some q1)
      show ?thesis
      proof (cases "fst (spawn s cfg f)")
        case (Inl e)
        with assms c Created Some show ?thesis
          by (auto simp: pool_Acquire_def acquire_evs_def acquire_pc_def returned_def on_close_def on_ticket_def
              split: if_splits option.splits prod.splits)
      next
        case (Inr w)
        with assms c Created Some show ?thesis
          by (auto simp: pool_Acquire_def acquire_evs_def acquire_pc_def returned_def on_close_def acquire_pin_def
              registry_Put_def split: if_splits option.splits prod.splits)
      qed
    qed
  qed (use assms c in \<open>auto simp: pool_Acquire_def acquire_evs_def acquire_pc_def returned_def split: if_splits\<close>)
qed

definition kill_evs :: "('o worker \<Rightarrow> 'f \<Rightarrow> 'c option \<times> 'f) \<Rightarrow> sid \<Rightarrow> 'o pool \<Rightarrow> 'f \<Rightarrow> 'o ev list" where
  "kill_evs close s p f = (case kill_check s p of
       (Inr (Some w), q) \<Rightarrow>
         (case close w f of
            (Some e, _) \<Rightarrow> [Go, CloseErr]
          | (None, _) \<Rightarrow> [Go, CloseOk, Go] @ (case put_ticket (removeWorker w q) of None \<Rightarrow> [] | Some _ \<Rightarrow> [Go]))
     | _ \<Rightarrow> [Go])"

definition kill_pc :: "sid \<Rightarrow> kill_result outcome \<Rightarrow> 'o pc \<Rightarrow> bool" where
  "kill_pc s r x = (case r of Returns v \<Rightarrow> (\<exists>w. x = KRet s v w) | Panics \<Rightarrow> x = Panicked | Blocks \<Rightarrow> \<not> returned x)"

lemma kill_is_run:
  assumes "pool_KillWorker close s p f = (r, p', f')"
  shows "\<exists>x. run_evs p (KStart s) (kill_evs close s p f) = Some (p', x) \<and> kill_pc s r x"
proof -
  obtain c q where c: "kill_check s p = (c, q)" by fastforce
  show ?thesis
  proof (cases c)
    case (Inr v)
    with assms c show ?thesis
      by (auto simp: pool_KillWorker_def kill_evs_def kill_pc_def returned_def on_ticket_def
          split: option.splits prod.splits)
  qed (use assms c in \<open>auto simp: pool_KillWorker_def kill_evs_def kill_pc_def\<close>)
qed

section \<open>A quiet pool\<close>

text \<open>
  Between calls: no call in flight, the tickets and the pinned sessions fill the capacity, and
  no channel was closed before it was made.
\<close>

definition idle_pool :: "'o pool \<Rightarrow> bool" where
  "idle_pool p \<longleftrightarrow> p_inflight p = Map.empty \<and> finite (dom (p_registry p)) \<and>
     p_tickets p + card (dom (p_registry p)) = p_max p \<and> (\<forall>c \<in> p_closed p. c < p_nextch p)"

lemma idle_New: "idle_pool (pool_New opts)"
  by (simp add: idle_pool_def pool_New_def NewLocalRegistry_def Let_def)

text \<open>What \<open>Acquire\<close> does on an idle pool.\<close>

lemma acquire_idle:
  assumes "idle_pool p"
  shows "case pool_Acquire spawn close ctx_done s cfg p f of (r, p', f') \<Rightarrow>
    p_max p' = p_max p \<and> p_done p' = p_done p \<and>
    (case p_registry p s of
       Some w \<Rightarrow> r = Returns (Inr w) \<and> p' = p \<and> f' = f
     | None \<Rightarrow>
         if p_tickets p = 0 then f' = f \<and> p_registry p' = p_registry p \<and> p_workers p' = p_workers p \<and> p_tickets p' = 0 \<and>
           r = (if ctx_done then Returns (Inl TimedOutCapacity) else Blocks)
         else f' = snd (spawn s cfg f) \<and>
           (case fst (spawn s cfg f) of
              Inr w \<Rightarrow> r = Returns (Inr w) \<and> p_registry p' = (p_registry p)(s \<mapsto> w) \<and>
                p_workers p' = p_workers p @ [w] \<and> p_tickets p' = p_tickets p - 1
            | Inl e \<Rightarrow> r = Returns (Inl SpawnFailed) \<and> p_registry p' = p_registry p \<and>
                p_workers p' = p_workers p \<and> p_tickets p' = p_tickets p))"
proof -
  have "p_nextch p \<notin> p_closed p" using assms by (auto simp: idle_pool_def)
  moreover have "p_tickets p \<le> p_max p" using assms by (simp add: idle_pool_def)
  ultimately show ?thesis
    using assms
    by (auto simp: pool_Acquire_def idle_pool_def acquire_check_def registry_Get_def take_ticket_def put_ticket_def
        close_chan_def drop_inflight_def wireWorker_def acquire_pin_def registry_Put_def
        split: option.splits prod.splits sum.splits)
qed

lemma idle_Acquire:
  assumes "idle_pool p" and "pool_Acquire spawn close ctx_done s cfg p f = (Returns r, p', f')"
  shows "idle_pool p'"
  using assms
  by (auto simp: pool_Acquire_def idle_pool_def acquire_check_def registry_Get_def take_ticket_def put_ticket_def close_chan_def
      drop_inflight_def wireWorker_def acquire_pin_def registry_Put_def fun_upd_idem card_insert_if domIff less_Suc_eq
      split: if_splits option.splits prod.splits sum.splits)

text \<open>In an idle pool a call of \<open>KillWorker\<close> returns, and takes the session out whatever \<open>Close\<close> says.\<close>

lemma KillWorker_idle:
  assumes "idle_pool p" and "pool_KillWorker close s p f = (r, p', f')"
  shows "(\<exists>v. r = Returns v) \<and> p_registry p' = (p_registry p)(s := None)"
  using assms card_dom_del [of "p_registry p" s]
  by (auto simp: pool_KillWorker_def idle_pool_def kill_check_def registry_Get_def registry_Delete_def put_ticket_def
      removeWorker_def fun_upd_idem split: option.splits prod.splits if_splits)

lemma idle_KillWorker:
  assumes "idle_pool p" and "pool_KillWorker close s p f = (r, p', f')" and "\<And>w f. fst (close w f) = None"
  shows "idle_pool p'"
proof -
  have "fst (close w f) \<noteq> Some e" for w e using assms(3) by simp
  then have c: "close w f \<noteq> (Some e, g)" for w e g by (metis fst_conv)
  show ?thesis
    using assms(1,2) c card_dom_del [of "p_registry p" s]
    by (auto simp: pool_KillWorker_def idle_pool_def kill_check_def registry_Get_def registry_Delete_def put_ticket_def
        removeWorker_def fun_upd_idem split: option.splits prod.splits if_splits)
qed

section \<open>The pool as a reaper\<close>

text \<open>
  The interface \<open>WorkerReaper\<close> of the lifecycle manager: killing a session takes it out, and
  nothing else, even when it was not there.
\<close>

locale worker_reaper =
  fixes inv :: "'p \<Rightarrow> bool"
    and sessions :: "'p \<Rightarrow> sid set"
    and kill :: "sid \<Rightarrow> string \<Rightarrow> 'p \<Rightarrow> 'e option \<times> 'p"
  assumes kill_inv: "inv p \<Longrightarrow> inv (snd (kill s reason p))"
    and kill_sessions: "inv p \<Longrightarrow> sessions (snd (kill s reason p)) = sessions p - {s}"
begin

text \<open>Killing is idempotent and the order of kills does not matter.\<close>

lemma kill_twice: "inv p \<Longrightarrow> sessions (snd (kill s r2 (snd (kill s r1 p)))) = sessions (snd (kill s r1 p))"
  by (simp add: kill_inv kill_sessions)

lemma kill_many:
  "inv p \<Longrightarrow> inv (fold (\<lambda>(s, r) p. snd (kill s r p)) ks p) \<and>
    sessions (fold (\<lambda>(s, r) p. snd (kill s r p)) ks p) = sessions p - fst ` set ks"
proof (induction ks arbitrary: p)
  case (Cons k ks)
  obtain s r where k: "k = (s, r)" by fastforce
  have "inv (snd (kill s r p))" using Cons.prems by (rule kill_inv)
  from Cons.IH [OF this] kill_sessions [OF Cons.prems] k show ?case by auto
qed simp

end

text \<open>The pool with a factory whose workers never fail to close, as \<open>FirecrackerWorker.Close\<close> does not.\<close>

definition pool_kill :: "('o worker \<Rightarrow> 'f \<Rightarrow> 'f) \<Rightarrow> sid \<Rightarrow> string \<Rightarrow> 'o pool \<times> 'f \<Rightarrow> kill_result option \<times> ('o pool \<times> 'f)" where
  "pool_kill close s reason pf = (case pool_KillWorker (\<lambda>w f. (None :: unit option, close w f)) s (fst pf) (snd pf) of
       (Returns KillDone, q) \<Rightarrow> (None, q)
     | (Returns KillNoSession, q) \<Rightarrow> (None, q)
     | (Returns e, q) \<Rightarrow> (Some e, q)
     | (_, q) \<Rightarrow> (None, q))"

lemma pool_kill_eq: "snd (pool_kill close s reason (p, f)) = snd (pool_KillWorker (\<lambda>w f. (None :: unit option, close w f)) s p f)"
  by (simp add: pool_kill_def split: outcome.splits kill_result.splits prod.splits)

interpretation pool_reaper: worker_reaper "\<lambda>pf. idle_pool (fst pf)" "\<lambda>pf. dom (p_registry (fst pf))" "pool_kill close"
  for close :: "'o worker \<Rightarrow> 'f \<Rightarrow> 'f"
proof
  fix pf :: "'o pool \<times> 'f" and s reason
  assume idle: "idle_pool (fst pf)"
  obtain p f where pf: "pf = (p, f)" by fastforce
  obtain r p' f' where k: "pool_KillWorker (\<lambda>w f. (None :: unit option, close w f)) s p f = (r, p', f')" by (metis prod_cases3)
  then have q: "snd (pool_kill close s reason pf) = (p', f')" by (simp add: pf pool_kill_eq)
  show "idle_pool (fst (snd (pool_kill close s reason pf)))"
    unfolding q using idle_KillWorker [OF _ k] idle by (simp add: pf)
  show "dom (p_registry (fst (snd (pool_kill close s reason pf)))) = dom (p_registry (fst pf)) - {s}"
    unfolding q using KillWorker_idle [OF _ k] idle by (auto simp: pf split: if_splits)
qed

section \<open>Properties\<close>


text \<open>
  What \<open>Acquire\<close> does on an idle pool, on every branch: it returns the pinned worker without
  touching anything; with no ticket left it waits, and gives up without a trace when its context ends;
  otherwise it spawns, and either pins the new worker for one ticket or reports the failure and
  leaves sessions, workers and tickets as they were.
\<close>

theorem acquire_idle_spec:
  assumes "idle_pool p"
  shows "case pool_Acquire spawn close ctx_done s cfg p f of (r, p', f') \<Rightarrow>
    (case p_registry p s of
       Some w \<Rightarrow> r = Returns (Inr w) \<and> p' = p \<and> f' = f
     | None \<Rightarrow>
         if p_tickets p = 0 then f' = f \<and> p_registry p' = p_registry p \<and> p_workers p' = p_workers p \<and> p_tickets p' = 0 \<and>
           r = (if ctx_done then Returns (Inl TimedOutCapacity) else Blocks)
         else f' = snd (spawn s cfg f) \<and>
           (case fst (spawn s cfg f) of
              Inr w \<Rightarrow> r = Returns (Inr w) \<and> p_registry p' = (p_registry p)(s \<mapsto> w) \<and>
                p_workers p' = p_workers p @ [w] \<and> p_tickets p' = p_tickets p - 1
            | Inl e \<Rightarrow> r = Returns (Inl SpawnFailed) \<and> p_registry p' = p_registry p \<and>
                p_workers p' = p_workers p \<and> p_tickets p' = p_tickets p))"
  using acquire_idle [where spawn = spawn and close = close and ctx_done = ctx_done and s = s and cfg = cfg and f = f, OF assms]
  unfolding case_prod_beta by (elim conjE)

definition demo_spawn :: "sid \<Rightarrow> tenant_config \<Rightarrow> nat \<Rightarrow> (string + nat worker) \<times> nat" where
  "demo_spawn s cfg n = (Inr (demo_worker s n), Suc n)"

definition demo_close :: "nat worker \<Rightarrow> nat \<Rightarrow> string option \<times> nat" where
  "demo_close w n = (None, n)"

definition demo_cfg :: tenant_config where
  "demo_cfg = \<lparr>Image = ''alpine'', Command = [], Env = [], IdleTimeoutSeconds = 300, TTLSeconds = 0,
     HealthInterval = '''', VCPUs = 1, MemoryMB = 128, PortMappings = []\<rparr>"

lemma demo_acquire:
  "\<exists>p'. pool_Acquire demo_spawn demo_close False ''a'' demo_cfg (pool_New []) 7 = (Returns (Inr (demo_worker ''a'' 7)), p', 8)"
  by (simp add: pool_Acquire_def demo_spawn_def pool_New_def defaultConfig_def NewLocalRegistry_def acquire_check_def
      registry_Get_def take_ticket_def wireWorker_def acquire_pin_def registry_Put_def drop_inflight_def close_chan_def)


theorem acquire_idle_spec_witness:
  "case pool_Acquire demo_spawn demo_close False ''a'' demo_cfg (pool_New []) 7 of (r, p', f') \<Rightarrow>
     r = Returns (Inr (demo_worker ''a'' 7)) \<and> p_registry p' ''a'' = Some (demo_worker ''a'' 7) \<and> p_tickets p' = 9"
  using acquire_idle_spec [where spawn = demo_spawn and close = demo_close and ctx_done = False and s = "''a''"
      and cfg = demo_cfg and f = 7, OF idle_New [of "[]"]]
  by (auto simp: demo_spawn_def pool_New_def defaultConfig_def NewLocalRegistry_def)

end
