(* ===== verification/Lifecycle.thy ===== *)
theory Lifecycle
  imports Pool_Calls
begin

text \<open>
  The lifecycle manager, \<open>internal/lifecycle\<close>: session leases with an absolute and an idle time
  to live, request counting by the proxy, and the reaper's sweep.  Times are nanoseconds; the
  clock readings are arguments.  The pool behind the interface \<open>WorkerReaper\<close> is the argument
  \<open>kill\<close> together with its state.  Each handler is one atomic step.
\<close>

section \<open>Model\<close>

record session_state =
  ss_SessionID :: sid
  ss_CreatedAt :: int
  ss_LastControlHeartbeat :: int
  ss_LastDataActivity :: int
  ss_ActiveConns :: int
  ss_IdleTTL :: int
  ss_AbsoluteTTL :: int
  ss_PortMappings :: "port_mapping list"

record 'p lifecycle =
  lm_registry :: "sid \<rightharpoonup> session_state"
  lm_reaper :: 'p

definition NewManager :: "'p \<Rightarrow> 'p lifecycle" where
  "NewManager reaper = \<lparr>lm_registry = Map.empty, lm_reaper = reaper\<rparr>"

text \<open>\<open>time.Duration(n) * time.Second\<close>: a 64-bit product.\<close>

definition seconds :: "int \<Rightarrow> int" where
  "seconds n = wrap64 (n * 1000000000)"

text \<open>\<open>Time.Sub\<close> saturates at the range of \<open>Duration\<close>.\<close>

definition time_Sub :: "int \<Rightarrow> int \<Rightarrow> int" where
  "time_Sub a b = max (- (2 ^ 63)) (min (2 ^ 63 - 1) (a - b))"

definition lm_Register :: "sid \<Rightarrow> tenant_config \<Rightarrow> port_mapping list \<Rightarrow> int \<Rightarrow> 'p lifecycle \<Rightarrow> 'p lifecycle" where
  "lm_Register sessionID cfg mappings now m =
     m\<lparr>lm_registry := (lm_registry m)(sessionID \<mapsto>
        \<lparr>ss_SessionID = sessionID, ss_CreatedAt = now, ss_LastControlHeartbeat = now, ss_LastDataActivity = now,
         ss_ActiveConns = 0, ss_IdleTTL = seconds (IdleTimeoutSeconds cfg), ss_AbsoluteTTL = seconds (TTLSeconds cfg),
         ss_PortMappings = mappings\<rparr>)\<rparr>"

definition lm_Remove :: "sid \<Rightarrow> 'p lifecycle \<Rightarrow> 'p lifecycle" where
  "lm_Remove sessionID m = m\<lparr>lm_registry := (lm_registry m)(sessionID := None)\<rparr>"

type_synonym ('p, 'e) reaper = "sid \<Rightarrow> string \<Rightarrow> 'p \<Rightarrow> 'e option \<times> 'p"

definition lm_UnregisterAndKill :: "('p, 'e) reaper \<Rightarrow> sid \<Rightarrow> string \<Rightarrow> 'p lifecycle \<Rightarrow> 'e option \<times> 'p lifecycle" where
  "lm_UnregisterAndKill kill sessionID reason m =
     (let m1 = lm_Remove sessionID m
      in case kill sessionID reason (lm_reaper m1) of (err, p) \<Rightarrow> (err, m1\<lparr>lm_reaper := p\<rparr>))"

definition lm_GetSession :: "sid \<Rightarrow> 'p lifecycle \<Rightarrow> session_state option" where
  "lm_GetSession sessionID m = lm_registry m sessionID"

text \<open>The copies of all states, in the iteration order of the Go map.\<close>

definition lm_ListSessions :: "sid list \<Rightarrow> 'p lifecycle \<Rightarrow> session_state list" where
  "lm_ListSessions order m = List.map_filter (lm_registry m) order"

definition with_state :: "sid \<Rightarrow> (session_state \<Rightarrow> session_state) \<Rightarrow> 'p lifecycle \<Rightarrow> 'p lifecycle" where
  "with_state sessionID f m = (case lm_registry m sessionID of
       None \<Rightarrow> m
     | Some st \<Rightarrow> m\<lparr>lm_registry := (lm_registry m)(sessionID \<mapsto> f st)\<rparr>)"

definition lm_UpdateHeartbeat :: "sid \<Rightarrow> int \<Rightarrow> 'p lifecycle \<Rightarrow> 'p lifecycle" where
  "lm_UpdateHeartbeat sessionID now = with_state sessionID (\<lambda>st. st\<lparr>ss_LastControlHeartbeat := now\<rparr>)"

definition lm_BeginRequest :: "sid \<Rightarrow> 'p lifecycle \<Rightarrow> 'p lifecycle" where
  "lm_BeginRequest sessionID = with_state sessionID (\<lambda>st. st\<lparr>ss_ActiveConns := ss_ActiveConns st + 1\<rparr>)"

datatype proxy_err = NoProxyErr | DeadlineExceeded | OtherProxyErr

definition lm_EndRequest :: "('p, 'e) reaper \<Rightarrow> sid \<Rightarrow> proxy_err \<Rightarrow> int \<Rightarrow> 'p lifecycle \<Rightarrow> 'p lifecycle" where
  "lm_EndRequest kill sessionID proxyErr now m = (case lm_registry m sessionID of
       None \<Rightarrow> m
     | Some st \<Rightarrow>
         let conns = ss_ActiveConns st - 1;
             st1 = st\<lparr>ss_ActiveConns := if conns < 0 then 0 else conns, ss_LastDataActivity := now\<rparr>;
             m1 = m\<lparr>lm_registry := (lm_registry m)(sessionID \<mapsto> st1)\<rparr>
         in if proxyErr = DeadlineExceeded
            then lm_Remove sessionID (m1\<lparr>lm_reaper := snd (kill sessionID ''data_plane_deadlock'' (lm_reaper m1))\<rparr>)
            else m1)"

text \<open>The two rules of the sweep; the result is the reason of the kill.\<close>

definition sweep_rule :: "int \<Rightarrow> session_state \<Rightarrow> string option" where
  "sweep_rule now st =
     (if 0 < ss_AbsoluteTTL st \<and> ss_AbsoluteTTL st < time_Sub now (ss_CreatedAt st) then Some ''absolute_ttl_expired''
      else if 0 < ss_IdleTTL st \<and> ss_ActiveConns st = 0 \<and> ss_IdleTTL st < time_Sub now (ss_LastDataActivity st)
      then Some ''idle_ttl_expired''
      else None)"

definition sweep_one :: "('p, 'e) reaper \<Rightarrow> int \<Rightarrow> (sid \<rightharpoonup> session_state) \<Rightarrow> sid \<Rightarrow> 'p lifecycle \<Rightarrow> 'p lifecycle" where
  "sweep_one kill now snapshot sessionID m = (case snapshot sessionID of
       None \<Rightarrow> m
     | Some st \<Rightarrow> (case sweep_rule now st of
         None \<Rightarrow> m
       | Some reason \<Rightarrow> snd (lm_UnregisterAndKill kill sessionID reason m)))"

text \<open>\<open>order\<close> is the iteration order over the snapshot of the registry.\<close>

definition lm_sweep :: "('p, 'e) reaper \<Rightarrow> int \<Rightarrow> sid list \<Rightarrow> 'p lifecycle \<Rightarrow> 'p lifecycle" where
  "lm_sweep kill now order m = fold (sweep_one kill now (lm_registry m)) order m"

text \<open>The ticks of \<open>StartReaper\<close> until its context ends: one sweep each.\<close>

definition StartReaper :: "('p, 'e) reaper \<Rightarrow> (int \<times> sid list) list \<Rightarrow> 'p lifecycle \<Rightarrow> 'p lifecycle" where
  "StartReaper kill ticks m = fold (\<lambda>(now, order). lm_sweep kill now order) ticks m"

section \<open>The sweep\<close>

text \<open>
  The sessions whose time is up: older than a positive absolute limit, or without an open
  connection for longer than a positive idle limit.
\<close>

definition expired :: "int \<Rightarrow> 'p lifecycle \<Rightarrow> sid set" where
  "expired now m = {s. \<exists>st. lm_registry m s = Some st \<and>
     (0 < ss_AbsoluteTTL st \<and> ss_AbsoluteTTL st < time_Sub now (ss_CreatedAt st) \<or>
      0 < ss_IdleTTL st \<and> ss_ActiveConns st = 0 \<and> ss_IdleTTL st < time_Sub now (ss_LastDataActivity st))}"

lemma sweep_rule_iff:
  "sweep_rule now st \<noteq> None \<longleftrightarrow>
     0 < ss_AbsoluteTTL st \<and> ss_AbsoluteTTL st < time_Sub now (ss_CreatedAt st) \<or>
     0 < ss_IdleTTL st \<and> ss_ActiveConns st = 0 \<and> ss_IdleTTL st < time_Sub now (ss_LastDataActivity st)"
  by (simp add: sweep_rule_def)

lemma expired_alt: "expired now m = {s. \<exists>st. lm_registry m s = Some st \<and> sweep_rule now st \<noteq> None}"
  unfolding sweep_rule_iff expired_def ..

lemma sweep_one_registry:
  "lm_registry (sweep_one kill now snap s m) =
     (if \<exists>st. snap s = Some st \<and> sweep_rule now st \<noteq> None then (lm_registry m)(s := None) else lm_registry m)"
  by (auto simp: sweep_one_def lm_UnregisterAndKill_def lm_Remove_def Let_def split: option.splits prod.splits)

lemma reaper_of_sweep:
  "lm_reaper (sweep_one kill now snap s m) = (case snap s of
       None \<Rightarrow> lm_reaper m
     | Some st \<Rightarrow> (case sweep_rule now st of
         None \<Rightarrow> lm_reaper m | Some reason \<Rightarrow> snd (kill s reason (lm_reaper m))))"
  by (simp add: sweep_one_def lm_UnregisterAndKill_def lm_Remove_def Let_def split: option.splits prod.splits)

lemma fold_sweep_registry:
  "lm_registry (fold (sweep_one kill now snap) order m) s =
     (if s \<in> set order \<and> (\<exists>st. snap s = Some st \<and> sweep_rule now st \<noteq> None) then None else lm_registry m s)"
  by (induction order arbitrary: m) (auto simp: sweep_one_registry)

lemma sweep_registry:
  "set order = dom (lm_registry m) \<Longrightarrow>
     lm_registry (lm_sweep kill now order m) s = (if s \<in> expired now m then None else lm_registry m s)"
  by (auto simp: lm_sweep_def fold_sweep_registry expired_alt)

context worker_reaper
begin

lemma sweep_one_reaper:
  "inv (lm_reaper m) \<Longrightarrow> inv (lm_reaper (sweep_one kill now snap s m)) \<and>
    sessions (lm_reaper (sweep_one kill now snap s m)) =
      (if \<exists>st. snap s = Some st \<and> sweep_rule now st \<noteq> None then sessions (lm_reaper m) - {s} else sessions (lm_reaper m))"
  by (auto simp: reaper_of_sweep kill_inv kill_sessions split: option.splits)

lemma fold_sweep_reaper:
  "inv (lm_reaper m) \<Longrightarrow> inv (lm_reaper (fold (sweep_one kill now snap) order m)) \<and>
    sessions (lm_reaper (fold (sweep_one kill now snap) order m)) =
      sessions (lm_reaper m) - {s \<in> set order. \<exists>st. snap s = Some st \<and> sweep_rule now st \<noteq> None}"
proof (induction order arbitrary: m)
  case (Cons s order)
  from sweep_one_reaper [OF Cons.prems, of now snap s] Cons.IH [of "sweep_one kill now snap s m"]
  show ?case by (auto split: if_splits)
qed simp

lemma sweep_reaper:
  assumes "inv (lm_reaper m)" and "set order = dom (lm_registry m)"
  shows "inv (lm_reaper (lm_sweep kill now order m)) \<and>
    sessions (lm_reaper (lm_sweep kill now order m)) = sessions (lm_reaper m) - expired now m"
proof -
  have "{s \<in> set order. \<exists>st. lm_registry m s = Some st \<and> sweep_rule now st \<noteq> None} = expired now m"
    using assms(2) by (auto simp: expired_alt)
  then show ?thesis using fold_sweep_reaper [OF assms(1)] by (simp add: lm_sweep_def)
qed

end

section \<open>Requests\<close>

text \<open>What the proxy and the reaper do to the manager, as a sequence of events.\<close>

datatype lm_op = BeginOp sid | EndOp sid int | BeatOp sid int | SweepOp int "sid list"

primrec lm_step :: "('p, 'e) reaper \<Rightarrow> lm_op \<Rightarrow> 'p lifecycle \<Rightarrow> 'p lifecycle" where
  "lm_step kill (BeginOp s) m = lm_BeginRequest s m"
| "lm_step kill (EndOp s now) m = lm_EndRequest kill s NoProxyErr now m"
| "lm_step kill (BeatOp s now) m = lm_UpdateHeartbeat s now m"
| "lm_step kill (SweepOp now order) m = lm_sweep kill now order m"

text \<open>
  \<open>covered s n ops\<close>: starting with \<open>n\<close> open requests of session \<open>s\<close>, every end belongs to a
  begin, and every sweep finds an open request.  \<open>open_after\<close> is the number still open.
\<close>

fun covered :: "sid \<Rightarrow> nat \<Rightarrow> lm_op list \<Rightarrow> bool" where
  "covered s n [] = True"
| "covered s n (BeginOp t # ops) = covered s (if t = s then Suc n else n) ops"
| "covered s n (EndOp t now # ops) = (if t = s then 0 < n \<and> covered s (n - 1) ops else covered s n ops)"
| "covered s n (BeatOp t now # ops) = covered s n ops"
| "covered s n (SweepOp now order # ops) = (0 < n \<and> covered s n ops)"

fun open_after :: "sid \<Rightarrow> nat \<Rightarrow> lm_op list \<Rightarrow> nat" where
  "open_after s n [] = n"
| "open_after s n (BeginOp t # ops) = open_after s (if t = s then Suc n else n) ops"
| "open_after s n (EndOp t now # ops) = open_after s (if t = s then n - 1 else n) ops"
| "open_after s n (BeatOp t now # ops) = open_after s n ops"
| "open_after s n (SweepOp now order # ops) = open_after s n ops"

text \<open>A session without an absolute limit that has \<open>n\<close> requests open.\<close>

definition serving :: "sid \<Rightarrow> nat \<Rightarrow> 'p lifecycle \<Rightarrow> bool" where
  "serving s n m \<longleftrightarrow> (\<exists>st. lm_registry m s = Some st \<and> ss_ActiveConns st = int n \<and> ss_AbsoluteTTL st \<le> 0)"

lemma serving_with_state:
  "serving s n m \<Longrightarrow> (t = s \<Longrightarrow> \<forall>st. ss_ActiveConns st = int n \<longrightarrow> ss_ActiveConns (f st) = int n') \<Longrightarrow> (t \<noteq> s \<Longrightarrow> n' = n) \<Longrightarrow>
     \<forall>st. ss_AbsoluteTTL (f st) = ss_AbsoluteTTL st \<Longrightarrow> serving s n' (with_state t f m)"
  by (cases "t = s") (auto simp: serving_def with_state_def split: option.splits)

lemma serving_sweep: "serving s n m \<Longrightarrow> 0 < n \<Longrightarrow> serving s n (lm_sweep kill now order m)"
  by (auto simp: serving_def lm_sweep_def fold_sweep_registry sweep_rule_def)

lemma serving_end:
  "serving s n m \<Longrightarrow> (t = s \<Longrightarrow> 0 < n) \<Longrightarrow> serving s (if t = s then n - 1 else n) (lm_EndRequest kill t NoProxyErr now m)"
  by (auto simp: serving_def lm_EndRequest_def Let_def split: option.splits)

lemma serving_run: "serving s n m \<Longrightarrow> covered s n ops \<Longrightarrow> serving s (open_after s n ops) (fold (lm_step kill) ops m)"
proof (induction s n ops arbitrary: m rule: covered.induct)
  case (2 s n t ops)
  have "serving s (if t = s then Suc n else n) (lm_BeginRequest t m)"
    unfolding lm_BeginRequest_def by (rule serving_with_state [OF "2.prems"(1)]) auto
  with 2 show ?case by simp
next
  case (3 s n t now ops)
  have "serving s (if t = s then n - 1 else n) (lm_EndRequest kill t NoProxyErr now m)"
    by (rule serving_end [OF "3.prems"(1)]) (use "3.prems"(2) in simp)
  with 3 show ?case by (auto split: if_splits)
next
  case (4 s n t now ops)
  have "serving s n (lm_UpdateHeartbeat t now m)"
    unfolding lm_UpdateHeartbeat_def by (rule serving_with_state [OF "4.prems"(1)]) auto
  with 4 show ?case by simp
next
  case (5 s n now order ops)
  then show ?case by (simp add: serving_sweep)
qed simp

section \<open>Properties\<close>

text \<open>
  C15.  The reaper kills exactly the expired sessions: after a sweep at time \<open>now\<close>, in whatever
  order it goes through the registry, a lease is gone exactly when its absolute or its idle limit
  had passed, all other leases are unchanged, and the pool has lost exactly the sessions of the
  expired leases.
\<close>

theorem sweep_kills_exactly_expired:
  assumes "idle_pool (fst (lm_reaper m))" and "set order = dom (lm_registry m)"
  shows "lm_registry (lm_sweep (pool_kill close) now order m) = (\<lambda>s. if s \<in> expired now m then None else lm_registry m s) \<and>
    dom (p_registry (fst (lm_reaper (lm_sweep (pool_kill close) now order m)))) =
      dom (p_registry (fst (lm_reaper m))) - expired now m"
  using sweep_registry [OF assms(2)] pool_reaper.sweep_reaper [OF assms, of close now] by auto

definition demo_lease :: "int \<Rightarrow> session_state" where
  "demo_lease ttl = \<lparr>ss_SessionID = ''a'', ss_CreatedAt = 0, ss_LastControlHeartbeat = 0, ss_LastDataActivity = 0,
     ss_ActiveConns = 0, ss_IdleTTL = 0, ss_AbsoluteTTL = ttl, ss_PortMappings = []\<rparr>"

definition demo_leases :: "(nat pool \<times> nat) lifecycle" where
  "demo_leases = \<lparr>lm_registry = [''a'' \<mapsto> demo_lease 1000, ''b'' \<mapsto> demo_lease 0], lm_reaper = (pool_New [], 0)\<rparr>"

theorem sweep_kills_exactly_expired_witness:
  "lm_registry (lm_sweep (pool_kill (\<lambda>_ n. n)) 2000 [''b'', ''a''] demo_leases) = [''b'' \<mapsto> demo_lease 0]"
proof -
  have "idle_pool (fst (lm_reaper demo_leases))" by (simp add: demo_leases_def idle_New)
  moreover have "set [''b'', ''a''] = dom (lm_registry demo_leases)" by (auto simp: demo_leases_def)
  ultimately have "lm_registry (lm_sweep (pool_kill (\<lambda>_ n. n)) 2000 [''b'', ''a''] demo_leases) =
      (\<lambda>s. if s \<in> expired 2000 demo_leases then None else lm_registry demo_leases s)"
    using sweep_kills_exactly_expired by blast
  moreover have "expired 2000 demo_leases = {''a''}"
    by (auto simp: expired_alt demo_leases_def demo_lease_def sweep_rule_def time_Sub_def split: if_splits)
  ultimately show ?thesis by (auto simp: demo_leases_def fun_eq_iff)
qed





text \<open>
  A limit of one second more overflows to a negative duration, and the session is then never
  reaped by the absolute rule.
\<close>

theorem ttl_overflow:
  "TTLSeconds cfg = 9223372037 \<Longrightarrow> IdleTimeoutSeconds cfg = 0 \<Longrightarrow> s \<notin> expired now (lm_Register s cfg mappings t m)"
  by (simp add: expired_alt lm_Register_def sweep_rule_def seconds_def wrap64_def)

theorem ttl_overflow_witness:
  "''a'' \<notin> expired (2 ^ 62) (lm_Register ''a'' (demo_cfg\<lparr>TTLSeconds := 9223372037, IdleTimeoutSeconds := 0\<rparr>) [] 0 demo_leases)"
  by (rule ttl_overflow) (simp_all add: demo_cfg_def)

end
