(* ===== verification/Factory_Safety.thy ===== *)
theory Factory_Safety
  imports Factory
begin

text \<open>
  What \<open>Spawn\<close> and \<open>Close\<close> do to the shared books of the factory: the leased UIDs, the used IP
  addresses, the ports in use.  \<open>undo_inv s0 us s\<close> says that the undo actions \<open>us\<close> account for
  exactly what was taken between \<open>s0\<close> and \<open>s\<close>; every phase of \<open>Spawn\<close> keeps it (a small Hoare
  calculus, \<open>triple\<close>, carries it through the early returns), and running an undo stack backwards
  takes it to the empty stack, where the books are those of \<open>s0\<close>.
\<close>

section \<open>Books\<close>

definition uids_of :: "undo list \<Rightarrow> int list" where
  "uids_of us = concat (map (\<lambda>u. case u of UndoUID x \<Rightarrow> [x] | _ \<Rightarrow> []) us)"

definition ips_of :: "undo list \<Rightarrow> string list" where
  "ips_of us = concat (map (\<lambda>u. case u of UndoIP x \<Rightarrow> [x] | _ \<Rightarrow> []) us)"

definition ports_of :: "undo list \<Rightarrow> int list" where
  "ports_of us = concat (map (\<lambda>u. case u of UndoPort x \<Rightarrow> [x] | _ \<Rightarrow> []) us)"

lemmas of_defs = uids_of_def ips_of_def ports_of_def

definition ports_map :: "fc_state \<Rightarrow> (int \<rightharpoonup> string)" where
  "ports_map s = (case fs_ports s of None \<Rightarrow> Map.empty | Some pm \<Rightarrow> inUse pm)"

text \<open>The books of two states agree.\<close>

definition same_books :: "fc_state \<Rightarrow> fc_state \<Rightarrow> bool" where
  "same_books s t \<longleftrightarrow> leased (fs_uids s) = leased (fs_uids t) \<and> ipam_used (fs_ipam s) = ipam_used (fs_ipam t) \<and>
     ports_map s = ports_map t \<and> (fs_ports s = None \<longleftrightarrow> fs_ports t = None)"

definition wf_factory :: "fc_state \<Rightarrow> bool" where
  "wf_factory s \<longleftrightarrow> wf_uid_pool (fs_uids s) \<and> wf_ipam (fs_ipam s)"

definition undo_inv :: "fc_state \<Rightarrow> undo list \<Rightarrow> fc_state \<Rightarrow> bool" where
  "undo_inv s0 us s \<longleftrightarrow> wf_factory s \<and>
     distinct (uids_of us) \<and> set (uids_of us) \<inter> leased (fs_uids s0) = {} \<and>
     leased (fs_uids s) = leased (fs_uids s0) \<union> set (uids_of us) \<and>
     distinct (ips_of us) \<and> set (ips_of us) \<inter> ipam_used (fs_ipam s0) = {} \<and>
     ipam_used (fs_ipam s) = ipam_used (fs_ipam s0) \<union> set (ips_of us) \<and>
     (\<forall>p. p \<notin> set (ports_of us) \<longrightarrow> ports_map s p = ports_map s0 p) \<and>
     (\<forall>p \<in> set (ports_of us). ports_map s0 p = None) \<and> (fs_ports s = None \<longleftrightarrow> fs_ports s0 = None)"

lemma fs_st_frame [simp]:
  "fs_uids (snd (fs_st m s)) = fs_uids s" "fs_ipam (snd (fs_st m s)) = fs_ipam s"
  "fs_ports (snd (fs_st m s)) = fs_ports s" "fs_undo (snd (fs_st m s)) = fs_undo s"
  by (simp_all add: fs_st_def split: prod.splits)

lemma fs_tr_frame [simp]:
  "fs_uids (snd (fs_tr m s)) = fs_uids s" "fs_ipam (snd (fs_tr m s)) = fs_ipam s"
  "fs_ports (snd (fs_tr m s)) = fs_ports s" "fs_undo (snd (fs_tr m s)) = fs_undo s"
  by (simp_all add: fs_tr_def)

lemma fs_call_frame [simp]:
  "fs_uids (snd (fs_call h c s)) = fs_uids s" "fs_ipam (snd (fs_call h c s)) = fs_ipam s"
  "fs_ports (snd (fs_call h c s)) = fs_ports s" "fs_undo (snd (fs_call h c s)) = fs_undo s"
  by (simp_all add: fs_call_def)

text \<open>The invariant depends on the books only.\<close>

lemma undo_inv_cong:
  "fs_uids s = fs_uids t \<Longrightarrow> fs_ipam s = fs_ipam t \<Longrightarrow> fs_ports s = fs_ports t \<Longrightarrow>
   uids_of us = uids_of vs \<Longrightarrow> ips_of us = ips_of vs \<Longrightarrow> set (ports_of us) = set (ports_of vs) \<Longrightarrow>
   undo_inv s0 us s = undo_inv s0 vs t"
  by (simp add: undo_inv_def wf_factory_def ports_map_def)

lemma undo_inv_empty: "undo_inv s0 [] s \<Longrightarrow> same_books s s0 \<and> wf_factory s"
  by (auto simp: undo_inv_def same_books_def of_defs)

section \<open>Giving back\<close>

lemma uids_give_inv:
  assumes "undo_inv s0 (us @ [UndoUID u]) s"
  shows "undo_inv s0 us (uids_give u s)"
proof -
  have wf: "wf_uid_pool (fs_uids s)" and in_l: "u \<in> leased (fs_uids s)"
    using assms by (auto simp: undo_inv_def wf_factory_def of_defs)
  show ?thesis
    using assms uid_Return_wf [OF wf in_l] uid_Return_unleases [OF wf in_l]
    by (auto simp: undo_inv_def wf_factory_def uids_give_def of_defs ports_map_def)
qed

lemma ip_give_inv:
  assumes "undo_inv s0 (us @ [UndoIP a]) s"
  shows "undo_inv s0 us (ip_give a s)"
proof -
  have wf: "wf_ipam (fs_ipam s)" and in_u: "a \<in> ipam_used (fs_ipam s)"
    using assms by (auto simp: undo_inv_def wf_factory_def of_defs)
  show ?thesis
    using assms ips.give_inv [OF wf in_u] ips.give_used [OF wf in_u]
    by (auto simp: undo_inv_def wf_factory_def ip_give_def of_defs ports_map_def)
qed

lemma ports_map_give: "ports_map (port_give p s) = (ports_map s)(p := None)"
  by (cases "fs_ports s") (simp_all add: ports_map_def port_give_def port_Release_def fun_eq_iff)

lemma port_give_inv:
  assumes "undo_inv s0 (us @ [UndoPort p]) s"
  shows "undo_inv s0 us (port_give p s)"
proof -
  have frame: "fs_uids (port_give p s) = fs_uids s" "fs_ipam (port_give p s) = fs_ipam s"
    "fs_ports (port_give p s) = None \<longleftrightarrow> fs_ports s = None"
    by (simp_all add: port_give_def)
  show ?thesis
    using assms unfolding undo_inv_def wf_factory_def frame ports_map_give by (auto simp: of_defs)
qed

lemma run_undo_inv: "undo_inv s0 (us @ [u]) s \<Longrightarrow> undo_inv s0 us (run_undo h u s)"
proof (cases u)
  case (UndoUID x)
  then show "undo_inv s0 (us @ [u]) s \<Longrightarrow> ?thesis" by (simp add: run_undo_def uids_give_inv)
next
  case (UndoIP x)
  then show "undo_inv s0 (us @ [u]) s \<Longrightarrow> ?thesis" by (simp add: run_undo_def ip_give_inv)
next
  case (UndoPort x)
  then show "undo_inv s0 (us @ [u]) s \<Longrightarrow> ?thesis" by (simp add: run_undo_def port_give_inv)
qed (auto simp: run_undo_def of_defs elim!: iffD1 [OF undo_inv_cong, rotated -1])

lemma rollback_books: "undo_inv s0 (fs_undo s) s \<Longrightarrow> same_books (rollback h s) s0 \<and> wf_factory (rollback h s)"
proof -
  have "undo_inv s0 us t \<Longrightarrow> undo_inv s0 [] (fold (run_undo h) (rev us) t)" for us t
    by (induction us arbitrary: t rule: rev_induct) (simp_all add: run_undo_inv)
  then show "undo_inv s0 (fs_undo s) s \<Longrightarrow> ?thesis"
    unfolding rollback_def by (intro undo_inv_empty) blast
qed

section \<open>A calculus for actions\<close>

definition triple :: "('s \<Rightarrow> bool) \<Rightarrow> ('s, 'e, 'a) action \<Rightarrow> ('a \<Rightarrow> 's \<Rightarrow> bool) \<Rightarrow> ('s \<Rightarrow> bool) \<Rightarrow> bool" where
  "triple P m Q E \<longleftrightarrow> (\<forall>s. P s \<longrightarrow> (case m s of (Inr x, s') \<Rightarrow> Q x s' | (Inl e, s') \<Rightarrow> E s'))"

lemma tripleD:
  "triple P m Q E \<Longrightarrow> P s \<Longrightarrow> m s = (Inr x, s') \<Longrightarrow> Q x s'"
  "triple P m Q E \<Longrightarrow> P s \<Longrightarrow> m s = (Inl e, s') \<Longrightarrow> E s'"
  by (fastforce simp: triple_def)+

lemma triple_bind:
  "triple P m Q E \<Longrightarrow> (\<And>x. triple (Q x) (k x) R E) \<Longrightarrow> triple P (bindE m k) R E"
  unfolding triple_def bindE_def by (fastforce split: prod.splits sum.splits)

lemma triple_then: "triple P m (\<lambda>_. Q) E \<Longrightarrow> triple Q k R E \<Longrightarrow> triple P (thenE m k) R E"
  unfolding thenE_def by (rule triple_bind)

lemma triple_return: "(\<And>s. P s \<Longrightarrow> Q x s) \<Longrightarrow> triple P (returnE x) Q E"
  by (simp add: triple_def returnE_def)

lemma triple_push: "triple (\<lambda>s. Q (s\<lparr>fs_undo := fs_undo s @ [u]\<rparr>)) (push u) (\<lambda>_. Q) E"
  by (simp add: triple_def push_def)

lemma triple_conseq: "triple P m Q E \<Longrightarrow> (\<And>s. P' s \<Longrightarrow> P s) \<Longrightarrow> (\<And>x s. Q x s \<Longrightarrow> Q' x s) \<Longrightarrow> triple P' m Q' E"
  unfolding triple_def by (fastforce split: prod.splits sum.splits)

text \<open>An action that leaves the books alone, and pushes only undo actions that do.\<close>

definition quiet :: "(fc_state, 'e, 'a) action \<Rightarrow> bool" where
  "quiet m \<longleftrightarrow> (\<forall>s. fs_uids (snd (m s)) = fs_uids s \<and> fs_ipam (snd (m s)) = fs_ipam s \<and> fs_ports (snd (m s)) = fs_ports s \<and>
     (\<exists>new. fs_undo (snd (m s)) = fs_undo s @ new \<and> uids_of new = [] \<and> ips_of new = [] \<and> ports_of new = []))"

named_theorems quiet_intros

lemma quiet_basic [quiet_intros]:
  "quiet (fs_st a)" "quiet (fs_tr b)" "quiet (fs_call h c)" "quiet (returnE x)" "quiet (failE e)"
  by (simp_all add: quiet_def returnE_def failE_def of_defs)

lemma quiet_push [quiet_intros]:
  "uids_of [u] = [] \<Longrightarrow> ips_of [u] = [] \<Longrightarrow> ports_of [u] = [] \<Longrightarrow> quiet (push u)"
  by (auto simp: quiet_def push_def)

lemma quiet_bind [quiet_intros]:
  assumes "quiet m" and "\<And>x. quiet (k x)"
  shows "quiet (bindE m k)"
  unfolding quiet_def
proof
  fix s
  obtain r s1 where m: "m s = (r, s1)" by (cases "m s")
  note q1 = assms(1) [unfolded quiet_def, rule_format, of s, unfolded m snd_conv]
  show "fs_uids (snd (bindE m k s)) = fs_uids s \<and> fs_ipam (snd (bindE m k s)) = fs_ipam s \<and> fs_ports (snd (bindE m k s)) = fs_ports s \<and>
     (\<exists>new. fs_undo (snd (bindE m k s)) = fs_undo s @ new \<and> uids_of new = [] \<and> ips_of new = [] \<and> ports_of new = [])"
  proof (cases r)
    case (Inl e)
    with q1 m show ?thesis by (simp add: bindE_def)
  next
    case (Inr x)
    note q2 = assms(2) [unfolded quiet_def, rule_format, of x s1]
    from q1 obtain a where "fs_undo s1 = fs_undo s @ a" "uids_of a = []" "ips_of a = []" "ports_of a = []" by blast
    moreover from q2 obtain b where "fs_undo (snd (k x s1)) = fs_undo s1 @ b" "uids_of b = []" "ips_of b = []" "ports_of b = []"
      by blast
    ultimately have "\<exists>new. fs_undo (snd (k x s1)) = fs_undo s @ new \<and> uids_of new = [] \<and> ips_of new = [] \<and> ports_of new = []"
      by (intro exI [of _ "a @ b"]) (simp add: of_defs)
    with q1 q2 m Inr show ?thesis by (simp add: bindE_def)
  qed
qed

lemma quiet_then [quiet_intros]: "quiet m \<Longrightarrow> quiet k \<Longrightarrow> quiet (thenE m k)"
  unfolding thenE_def by (rule quiet_bind)

lemma quiet_wrap [quiet_intros]:
  "quiet m \<Longrightarrow> quiet (wrapE f m)" "quiet m \<Longrightarrow> quiet (tryE m)" "quiet m \<Longrightarrow> quiet (ignoreE m)"
  by (simp_all add: quiet_def ignoreE_def)

lemma quiet_if [quiet_intros]: "quiet m \<Longrightarrow> quiet n \<Longrightarrow> quiet (if b then m else n)"
  by simp

section \<open>The phases keep the books\<close>

text \<open>
  \<open>taken s0 vm us ips ps\<close>: since \<open>s0\<close> the VM took the UIDs \<open>us\<close>, the addresses \<open>ips\<close> and the ports
  \<open>ps\<close>, and the undo stack gives exactly these back.
\<close>

definition taken :: "fc_state \<Rightarrow> string \<Rightarrow> int list \<Rightarrow> string list \<Rightarrow> int set \<Rightarrow> fc_state \<Rightarrow> bool" where
  "taken s0 vm us ips ps s \<longleftrightarrow> undo_inv s0 (fs_undo s) s \<and> uids_of (fs_undo s) = us \<and> ips_of (fs_undo s) = ips \<and>
     set (ports_of (fs_undo s)) = ps \<and> (\<forall>p \<in> ps. ports_map s p = Some vm) \<and> [] \<notin> set ips"

abbreviation recoverable :: "fc_state \<Rightarrow> fc_state \<Rightarrow> bool" where
  "recoverable s0 s \<equiv> undo_inv s0 (fs_undo s) s"

lemma quiet_triple:
  assumes "quiet m"
  shows "triple (taken s0 vm us ips ps) m (\<lambda>_. taken s0 vm us ips ps) (recoverable s0)"
proof -
  have "taken s0 vm us ips ps (snd (m s))" if t: "taken s0 vm us ips ps s" for s
  proof -
    from assms obtain new where frame: "fs_uids (snd (m s)) = fs_uids s" "fs_ipam (snd (m s)) = fs_ipam s"
      "fs_ports (snd (m s)) = fs_ports s" and new: "fs_undo (snd (m s)) = fs_undo s @ new"
      "uids_of new = []" "ips_of new = []" "ports_of new = []"
      unfolding quiet_def by blast
    have of_undo: "uids_of (fs_undo (snd (m s))) = uids_of (fs_undo s)" "ips_of (fs_undo (snd (m s))) = ips_of (fs_undo s)"
      "ports_of (fs_undo (snd (m s))) = ports_of (fs_undo s)"
      using new by (simp_all add: of_defs)
    have "undo_inv s0 (fs_undo (snd (m s))) (snd (m s)) = undo_inv s0 (fs_undo s) s"
      by (rule undo_inv_cong) (simp_all add: frame of_undo)
    with t frame show ?thesis by (simp add: taken_def of_undo ports_map_def)
  qed
  then show ?thesis unfolding triple_def by (auto simp: taken_def split: prod.splits sum.splits)
      (metis snd_conv)+
qed

lemma checkout_triple:
  "triple (taken s0 vm [] [] {}) checkout_uid
     (\<lambda>u s. taken s0 vm [u] [] {} (s\<lparr>fs_undo := fs_undo s @ [UndoUID u]\<rparr>)) (recoverable s0)"
  unfolding triple_def
proof (intro allI impI)
  fix s assume t: "taken s0 vm [] [] {} s"
  then have wf: "wf_uid_pool (fs_uids s)" by (simp add: taken_def undo_inv_def wf_factory_def)
  obtain r p where c: "uid_Checkout (fs_uids s) = (r, p)" by fastforce
  have wf': "wf_uid_pool p" by (rule uid_Checkout_wf [OF wf c])
  show "case checkout_uid s of (Inl e, s') \<Rightarrow> recoverable s0 s'
      | (Inr u, s') \<Rightarrow> taken s0 vm [u] [] {} (s'\<lparr>fs_undo := fs_undo s' @ [UndoUID u]\<rparr>)"
  proof (cases r)
    case (Inl e)
    with c have "p = fs_uids s" by (simp add: uid_Checkout_Inl)
    with Inl c t show ?thesis by (simp add: checkout_uid_def taken_def)
  next
    case (Inr u)
    with c uid_Checkout_leased [OF wf] have l: "u \<notin> leased (fs_uids s)" "leased p = insert u (leased (fs_uids s))" by auto
    with Inr c t wf' show ?thesis
      by (auto simp: checkout_uid_def taken_def undo_inv_def wf_factory_def ports_map_def of_defs)
  qed
qed

lemma ip_String_nonempty: "length a = 4 \<Longrightarrow> ip_String a \<noteq> []"
  using parse_ipv4_ip_String [of a] by (auto simp: parse_ipv4_def parse_octet_def parse_dec_def)

lemma acquire_triple:
  "triple (taken s0 vm us [] ps) acquire_ip
     (\<lambda>a s. taken s0 vm us [a] ps (s\<lparr>fs_undo := fs_undo s @ [UndoIP a]\<rparr>)) (recoverable s0)"
  unfolding triple_def
proof (intro allI impI)
  fix s assume t: "taken s0 vm us [] ps s"
  then have wf: "wf_ipam (fs_ipam s)" by (simp add: taken_def undo_inv_def wf_factory_def)
  obtain r i where a: "ipam_Acquire (fs_ipam s) = Some (r, i)" and post: "acquire_post (fs_ipam s) r i"
    using ipam_Acquire_returns [OF wf] by blast
  then have wf': "wf_ipam i" by (simp add: acquire_post_def)
  show "case acquire_ip s of (Inl e, s') \<Rightarrow> recoverable s0 s'
      | (Inr x, s') \<Rightarrow> taken s0 vm us [x] ps (s'\<lparr>fs_undo := fs_undo s' @ [UndoIP x]\<rparr>)"
  proof (cases r)
    case (Inl e)
    with post have "ipam_used i = ipam_used (fs_ipam s)" by (simp add: acquire_post_def ipam_used_def)
    with Inl a t wf' show ?thesis
      by (auto simp: acquire_ip_def taken_def undo_inv_def wf_factory_def ports_map_def)
  next
    case (Inr x)
    from post Inr obtain a4 where "x = ip_String a4" "length a4 = 4" by (auto simp: acquire_post_def ipam_hosts_def)
    then have "x \<noteq> []" by (simp add: ip_String_nonempty)
    moreover have "x \<notin> ipam_used (fs_ipam s)" "ipam_used i = insert x (ipam_used (fs_ipam s))"
      using ips.take_fresh [OF wf] ips.take_used [OF wf] a Inr by (simp_all add: ipam_take_Some)
    ultimately show ?thesis using Inr a t wf'
      by (auto simp: acquire_ip_def taken_def undo_inv_def wf_factory_def ports_map_def of_defs)
  qed
qed

text \<open>The ports that a mapping adds to the books: none when the factory has no port manager.\<close>

definition booked :: "fc_state \<Rightarrow> int set \<Rightarrow> int set" where
  "booked s0 ps = (if fs_ports s0 = None then {} else ps)"

lemma allocate_triple:
  assumes "\<And>p. ports_map s0 p \<noteq> Some vm"
  shows "triple (taken s0 vm us ips ps) (allocate_port listen vm pm)
     (\<lambda>p. taken s0 vm us ips (booked s0 {p} \<union> ps)) (recoverable s0)"
  unfolding triple_def
proof (intro allI impI)
  fix s assume t: "taken s0 vm us ips ps s"
  let ?G = "case allocate_port listen vm pm s of (Inl e, s') \<Rightarrow> recoverable s0 s'
      | (Inr p, s') \<Rightarrow> taken s0 vm us ips (booked s0 {p} \<union> ps) s'"
  show ?G
  proof (cases "fs_ports s")
    case None
    then have "fs_ports s0 = None" using t by (simp add: taken_def undo_inv_def)
    with None t show ?thesis by (simp add: allocate_port_def booked_def)
  next
    case (Some m)
    with t have s0: "fs_ports s0 \<noteq> None" by (auto simp: taken_def undo_inv_def)
    obtain r m' where a: "port_Allocate listen (HostPort pm) (Protocol pm) (HostInterface pm) vm m = (r, m')" by fastforce
    show ?thesis
    proof (cases r)
      case (Inl e)
      with a have "m' = m" using port_Allocate_Inl by blast
      with Some have "s\<lparr>fs_ports := Some m'\<rparr> = s" by (cases s) simp
      with Inl a Some t show ?thesis by (simp add: allocate_port_def taken_def)
    next
      case (Inr p)
      let ?s = "s\<lparr>fs_ports := Some m', fs_undo := fs_undo s @ [UndoPort p]\<rparr>"
      from a Inr have al: "inUse m' = (inUse m)(p \<mapsto> vm)" "inUse m p = None \<or> inUse m p = Some vm"
        using port_Allocate_Inr by blast+
      have pm: "ports_map ?s = (ports_map s)(p \<mapsto> vm)" "ports_map s p = None \<or> ports_map s p = Some vm"
        using al Some by (simp_all add: ports_map_def)
      have frame: "fs_uids ?s = fs_uids s" "fs_ipam ?s = fs_ipam s" "(fs_ports ?s = None) = (fs_ports s = None)"
        "uids_of (fs_undo ?s) = uids_of (fs_undo s)" "ips_of (fs_undo ?s) = ips_of (fs_undo s)"
        "set (ports_of (fs_undo ?s)) = insert p (set (ports_of (fs_undo s)))"
        using Some by (simp_all add: of_defs)
      have new: "p \<notin> ps \<Longrightarrow> ports_map s0 p = None"
        using t pm(2) assms [of p] by (auto simp: taken_def undo_inv_def)
      have "taken s0 vm us ips (insert p ps) ?s"
        using t new unfolding taken_def undo_inv_def wf_factory_def frame pm(1) by auto
      moreover have "booked s0 {p} \<union> ps = insert p ps" using s0 by (auto simp: booked_def)
      ultimately show ?thesis using Inr a Some by (simp add: allocate_port_def)
    qed
  qed
qed

lemma mappings_triple:
  assumes "\<And>p. ports_map s0 p \<noteq> Some vm"
  shows "triple (taken s0 vm us ips ps) (apply_mappings h listen vm guestIP pms)
     (\<lambda>active. taken s0 vm us ips (booked s0 (HostPort ` set active) \<union> ps)) (recoverable s0)"
proof (induction pms arbitrary: ps)
  case Nil
  then show ?case by (auto intro: triple_return simp: booked_def)
next
  case (Cons pm pms)
  show ?case unfolding apply_mappings.simps
  proof (rule triple_bind [OF allocate_triple [OF assms]])
    fix p
    let ?ps = "booked s0 {p} \<union> ps"
    show "triple (taken s0 vm us ips ?ps)
       (thenE (wrapE (IptablesSetup (HostPort pm) (GuestPort pm)) (fs_tr (AddPortMapping h (HostInterface pm) p guestIP (GuestPort pm) (Protocol pm))))
       (thenE (push (UndoMapping (HostInterface pm) p guestIP (GuestPort pm) (Protocol pm)))
       (bindE (apply_mappings h listen vm guestIP pms) (\<lambda>active. returnE (pm\<lparr>HostPort := p\<rparr> # active)))))
       (\<lambda>active. taken s0 vm us ips (booked s0 (HostPort ` set active) \<union> ps)) (recoverable s0)"
    proof (rule triple_then [OF quiet_triple], intro quiet_intros, rule triple_then [OF quiet_triple])
      show "triple (taken s0 vm us ips ?ps)
         (bindE (apply_mappings h listen vm guestIP pms) (\<lambda>active. returnE (pm\<lparr>HostPort := p\<rparr> # active)))
         (\<lambda>active. taken s0 vm us ips (booked s0 (HostPort ` set active) \<union> ps)) (recoverable s0)"
        by (rule triple_bind [OF Cons.IH], rule triple_return)
          (auto simp: booked_def insert_commute Un_assoc Un_commute Un_left_commute split: if_splits elim!: back_subst [of "\<lambda>x. taken s0 vm us ips x _"])
    qed (simp add: quiet_push of_defs)
  qed
qed

lemma quiet_prepare_rootfs: "quiet (prepare_rootfs h f vm cfg)"
  unfolding prepare_rootfs_def Let_def
  by (intro quiet_intros) (simp_all add: of_defs)

lemma quiet_mkdir: "quiet (mkdir_exist_ok h err d)"
  unfolding mkdir_exist_ok_def
  by (intro quiet_intros) (auto intro!: quiet_intros split: sum.splits host_err.splits)

lemma quiet_build_chroot: "quiet (build_chroot h f vm u r)"
  unfolding build_chroot_def Let_def bindDeviceIntoChroot_def
  by (intro quiet_intros quiet_mkdir) (simp_all add: of_defs)

lemma quiet_launch: "quiet (launch_vm h nano f vm cfg u a)"
  unfolding launch_vm_def Let_def by (intro quiet_intros) (simp_all add: of_defs)

lemma quiet_dial: "quiet (dial_loop h p n)"
  by (induction n) (auto intro!: quiet_intros split: sum.splits)

lemma quiet_connect: "quiet (connect_guest h n f vm cfg img cmd)"
  unfolding connect_guest_def Let_def by (intro quiet_intros quiet_dial) (simp_all add: of_defs)

lemma network_triple:
  "triple (taken s0 vm us [] ps) (setup_network h w u) (\<lambda>a. taken s0 vm us [a] ps) (recoverable s0)"
  unfolding setup_network_def
proof (rule triple_bind [OF acquire_triple], rule triple_then [OF triple_push])
  fix a
  show "triple (taken s0 vm us [a] ps)
     (thenE (ignoreE (fs_tr (DeleteTap h (tap_name w))))
     (thenE (wrapE CreateTapFailed (fs_tr (CreatePointToPointTap h (tap_name w) hostIP a u u)))
     (thenE (push (UndoTap (tap_name w))) (returnE a)))) (\<lambda>a. taken s0 vm us [a] ps) (recoverable s0)"
    by (intro triple_then [OF quiet_triple] quiet_intros triple_return) (simp_all add: of_defs)
qed

lemma spawn_triple:
  assumes "\<And>p. ports_map s0 p \<noteq> Some vm"
  shows "triple (taken s0 vm [] [] {}) (spawn_body h listen n nano f vm cfg)
     (\<lambda>w. taken s0 vm [fw_leasedUID w] [fw_guestIP w] (booked s0 (HostPort ` set (fw_portMappings w)))) (recoverable s0)"
  unfolding spawn_body_def
proof (rule triple_bind [OF checkout_triple], rule triple_then [OF triple_push])
  fix u
  let ?Q = "\<lambda>w. taken s0 vm [fw_leasedUID w] [fw_guestIP w] (booked s0 (HostPort ` set (fw_portMappings w)))"
  have "triple (taken s0 vm [u] [] {})
     (thenE (build_chroot h f vm u r)
     (bindE (setup_network h vm u) (\<lambda>guestIP.
      thenE (launch_vm h nano f vm cfg u guestIP)
     (bindE (connect_guest h n f vm cfg img cmd) (\<lambda>socketPath.
      bindE (apply_mappings h listen vm guestIP (PortMappings cfg)) (\<lambda>activeMappings.
      returnE \<lparr>fw_id = vm, fw_socketPath = socketPath, fw_tapName = tap_name vm, fw_guestIP = guestIP,
        fw_chrootDir = chrootRoot f vm, fw_leasedUID = u, fw_portMappings = activeMappings\<rparr>)))))) ?Q (recoverable s0)" for img cmd r
    by (rule triple_then [OF quiet_triple [OF quiet_build_chroot]], rule triple_bind [OF network_triple],
        rule triple_then [OF quiet_triple [OF quiet_launch]], rule triple_bind [OF quiet_triple [OF quiet_connect]],
        rule triple_bind [OF mappings_triple [OF assms]], rule triple_return) simp
  then show "triple (taken s0 vm [u] [] {})
     (bindE (prepare_rootfs h f vm cfg) (\<lambda>(imgConfig, finalCmd, rootfsPath).
      thenE (build_chroot h f vm u rootfsPath)
     (bindE (setup_network h vm u) (\<lambda>guestIP.
      thenE (launch_vm h nano f vm cfg u guestIP)
     (bindE (connect_guest h n f vm cfg imgConfig finalCmd) (\<lambda>socketPath.
      bindE (apply_mappings h listen vm guestIP (PortMappings cfg)) (\<lambda>activeMappings.
      returnE \<lparr>fw_id = vm, fw_socketPath = socketPath, fw_tapName = tap_name vm, fw_guestIP = guestIP,
        fw_chrootDir = chrootRoot f vm, fw_leasedUID = u, fw_portMappings = activeMappings\<rparr>))))))) ?Q (recoverable s0)"
    by (intro triple_bind [OF quiet_triple [OF quiet_prepare_rootfs]]) (simp split: prod.splits)
qed

lemma taken_start: "wf_factory s \<Longrightarrow> taken (s\<lparr>fs_undo := []\<rparr>) vm [] [] {} (s\<lparr>fs_undo := []\<rparr>)"
  by (simp add: taken_def undo_inv_def wf_factory_def of_defs)

lemma ports_map_undo [simp]: "ports_map (s\<lparr>fs_undo := us\<rparr>) = ports_map s"
  by (simp add: ports_map_def)

lemma Spawn_Inr:
  assumes "wf_factory s" and "\<And>p. ports_map s p \<noteq> Some vm" and "Spawn h listen n nano f vm cfg s = (Inr w, s')"
  shows "taken (s\<lparr>fs_undo := []\<rparr>) vm [fw_leasedUID w] [fw_guestIP w] (booked s (HostPort ` set (fw_portMappings w))) s'"
proof -
  have "spawn_body h listen n nano f vm cfg (s\<lparr>fs_undo := []\<rparr>) = (Inr w, s')"
    using assms(3) by (auto simp: Spawn_def split: prod.splits sum.splits)
  with tripleD(1) [OF spawn_triple taken_start [OF assms(1)]] assms(2) show ?thesis by (simp add: booked_def)
qed

lemma Spawn_Inl:
  assumes "wf_factory s" and "\<And>p. ports_map s p \<noteq> Some vm" and "Spawn h listen n nano f vm cfg s = (Inl e, s')"
  shows "same_books s' s \<and> wf_factory s'"
proof -
  let ?s0 = "s\<lparr>fs_undo := []\<rparr>"
  obtain t where b: "spawn_body h listen n nano f vm cfg ?s0 = (Inl e, t)" and s': "s' = rollback h t"
    using assms(3) by (auto simp: Spawn_def split: prod.splits sum.splits)
  have "recoverable ?s0 t"
    by (rule tripleD(2) [OF spawn_triple taken_start [OF assms(1)] b]) (simp add: assms(2))
  from rollback_books [OF this, of h] show ?thesis by (simp add: s' same_books_def)
qed

section \<open>Closing a worker\<close>

lemma give_frames [simp]:
  "fs_uids (ip_give a s) = fs_uids s" "fs_ports (ip_give a s) = fs_ports s" "ports_map (ip_give a s) = ports_map s"
  "fs_ipam (uids_give u s) = fs_ipam s" "fs_ports (uids_give u s) = fs_ports s" "ports_map (uids_give u s) = ports_map s"
  "fs_uids (port_give p s) = fs_uids s" "fs_ipam (port_give p s) = fs_ipam s"
  by (simp_all add: ip_give_def uids_give_def port_give_def ports_map_def)

lemma ports_map_lift [simp]:
  "ports_map (snd (fs_st m s)) = ports_map s" "ports_map (snd (fs_tr n s)) = ports_map s"
  "ports_map (snd (fs_call h c s)) = ports_map s"
  by (simp_all add: ports_map_def)

lemma close_mappings:
  "fs_uids (fold (close_mapping h w) pms s) = fs_uids s \<and> fs_ipam (fold (close_mapping h w) pms s) = fs_ipam s \<and>
   ports_map (fold (close_mapping h w) pms s) = (\<lambda>p. if p \<in> HostPort ` set pms then None else ports_map s p)"
proof (induction pms arbitrary: s)
  case (Cons pm pms)
  have "fs_uids (close_mapping h w pm s) = fs_uids s" "fs_ipam (close_mapping h w pm s) = fs_ipam s"
    "ports_map (close_mapping h w pm s) = (ports_map s)(HostPort pm := None)"
    by (simp_all add: close_mapping_def ports_map_give)
  with Cons.IH [of "close_mapping h w pm s"] show ?case by auto
qed simp

text \<open>What \<open>Close\<close> does to the books.\<close>

lemma fc_Close_books:
  "ports_map (fc_Close h w s) = (\<lambda>p. if p \<in> HostPort ` set (fw_portMappings w) then None else ports_map s p)"
  "fs_uids (fc_Close h w s) = (if fw_leasedUID w = 0 then fs_uids s else snd (uid_Return (fw_leasedUID w) (fs_uids s)))"
  "fs_ipam (fc_Close h w s) = (if fw_guestIP w = '''' then fs_ipam s else ipam_Release (fw_guestIP w) (fs_ipam s))"
  by (simp_all add: fc_Close_def Let_def close_mappings fun_eq_iff) (simp_all add: ip_give_def uids_give_def)

lemma leased_positive: "wf_uid_pool p \<Longrightarrow> u \<in> leased p \<Longrightarrow> u \<noteq> 0"
  by (auto simp: wf_uid_pool_def leased_def uid_range_def)

text \<open>The effect of a successful \<open>Spawn\<close> on the books.\<close>

lemma spawn_effect:
  assumes "wf_factory s" and "\<And>p. ports_map s p \<noteq> Some vm"
    and "Spawn h listen attempts nano f vm cfg s = (Inr w, s')"
  shows "fw_leasedUID w \<notin> leased (fs_uids s) \<and> leased (fs_uids s') = insert (fw_leasedUID w) (leased (fs_uids s)) \<and>
    0 < fw_leasedUID w \<and>
    fw_guestIP w \<notin> ipam_used (fs_ipam s) \<and> ipam_used (fs_ipam s') = insert (fw_guestIP w) (ipam_used (fs_ipam s)) \<and>
    (\<forall>p. ports_map s' p =
       (if fs_ports s \<noteq> None \<and> p \<in> HostPort ` set (fw_portMappings w) then Some vm else ports_map s p)) \<and>
    (\<forall>p. fs_ports s \<noteq> None \<and> p \<in> HostPort ` set (fw_portMappings w) \<longrightarrow> ports_map s p = None) \<and>
    wf_factory s' \<and> fw_guestIP w \<noteq> [] \<and> (fs_ports s' = None \<longleftrightarrow> fs_ports s = None)"
proof -
  let ?s0 = "s\<lparr>fs_undo := []\<rparr>" and ?ps = "booked s (HostPort ` set (fw_portMappings w))"
  have t: "taken ?s0 vm [fw_leasedUID w] [fw_guestIP w] ?ps s'" by (rule Spawn_Inr [OF assms])
  then have inv: "undo_inv ?s0 (fs_undo s') s'" and u: "uids_of (fs_undo s') = [fw_leasedUID w]"
    and i: "ips_of (fs_undo s') = [fw_guestIP w]" and p: "set (ports_of (fs_undo s')) = ?ps"
    and own: "\<forall>q \<in> ?ps. ports_map s' q = Some vm" and ne: "fw_guestIP w \<noteq> []" by (auto simp: taken_def)
  have "wf_uid_pool (fs_uids s')" "fw_leasedUID w \<in> leased (fs_uids s')"
    using inv u by (auto simp: undo_inv_def wf_factory_def)
  then have pos: "0 < fw_leasedUID w" by (auto simp: wf_uid_pool_def leased_def uid_range_def)
  have q: "q \<in> ?ps \<longleftrightarrow> fs_ports s \<noteq> None \<and> q \<in> HostPort ` set (fw_portMappings w)" for q
    by (simp add: booked_def)
  have pm: "\<forall>q. ports_map s' q = (if q \<in> ?ps then Some vm else ports_map s q)"
    "\<forall>q. q \<in> ?ps \<longrightarrow> ports_map s q = None"
    using inv own p by (simp_all add: undo_inv_def)
  have "fw_leasedUID w \<notin> leased (fs_uids s)" "leased (fs_uids s') = insert (fw_leasedUID w) (leased (fs_uids s))"
    "fw_guestIP w \<notin> ipam_used (fs_ipam s)" "ipam_used (fs_ipam s') = insert (fw_guestIP w) (ipam_used (fs_ipam s))"
    "wf_factory s'" "fs_ports s' = None \<longleftrightarrow> fs_ports s = None"
    using inv u i by (simp_all add: undo_inv_def)
  then show ?thesis
    using pos ne pm [unfolded q] by (intro conjI) assumption+
qed

section \<open>Properties\<close>

text \<open>
  C4.  A failed \<open>Spawn\<close> gives everything back: wherever it fails, the leased UIDs, the used IP
  addresses and the owner of every host port are what they were before the call.
\<close>

theorem spawn_failure_restores_books:
  assumes "wf_factory s" and "\<And>p. ports_map s p \<noteq> Some vm"
    and "Spawn h listen attempts nano f vm cfg s = (Inl e, s')"
  shows "leased (fs_uids s') = leased (fs_uids s) \<and> ipam_used (fs_ipam s') = ipam_used (fs_ipam s) \<and>
    ports_map s' = ports_map s \<and> wf_factory s'"
  using Spawn_Inl [OF assms] by (simp add: same_books_def)

text \<open>
  C7.  Isolation of the workers of one factory: a successful \<open>Spawn\<close> hands out a UID and an IP
  address that no live worker holds and a positive UID, owns every host port it reports, and takes no
  port from another VM.
\<close>

theorem spawn_isolates:
  assumes "wf_factory s" and "\<And>p. ports_map s p \<noteq> Some vm"
    and "Spawn h listen attempts nano f vm cfg s = (Inr w, s')"
  shows "fw_leasedUID w \<notin> leased (fs_uids s) \<and> leased (fs_uids s') = insert (fw_leasedUID w) (leased (fs_uids s)) \<and>
    0 < fw_leasedUID w \<and>
    fw_guestIP w \<notin> ipam_used (fs_ipam s) \<and> ipam_used (fs_ipam s') = insert (fw_guestIP w) (ipam_used (fs_ipam s)) \<and>
    (\<forall>p. ports_map s' p =
       (if fs_ports s \<noteq> None \<and> p \<in> HostPort ` set (fw_portMappings w) then Some vm else ports_map s p)) \<and>
    (\<forall>p. fs_ports s \<noteq> None \<and> p \<in> HostPort ` set (fw_portMappings w) \<longrightarrow> ports_map s p = None) \<and>
    wf_factory s'"
  using spawn_effect [OF assms] by (elim conjE, intro conjI) assumption+

text \<open>
  C8.  \<open>Close\<close> undoes \<open>Spawn\<close>: closing the worker that \<open>Spawn\<close> returned leaves the leased UIDs,
  the used IP addresses and the owners of the host ports as they were before.
\<close>

theorem close_undoes_spawn:
  assumes "wf_factory s" and "\<And>p. ports_map s p \<noteq> Some vm"
    and "Spawn h listen attempts nano f vm cfg s = (Inr w, s')"
  shows "leased (fs_uids (fc_Close h w s')) = leased (fs_uids s) \<and>
    ipam_used (fs_ipam (fc_Close h w s')) = ipam_used (fs_ipam s) \<and>
    ports_map (fc_Close h w s') = ports_map s \<and> wf_factory (fc_Close h w s')"
proof -
  let ?s0 = "s\<lparr>fs_undo := []\<rparr>" and ?ps = "booked s (HostPort ` set (fw_portMappings w))"
  have t: "taken ?s0 vm [fw_leasedUID w] [fw_guestIP w] ?ps s'" by (rule Spawn_Inr [OF assms])
  then have inv: "undo_inv ?s0 (fs_undo s') s'" and u: "uids_of (fs_undo s') = [fw_leasedUID w]"
    and i: "ips_of (fs_undo s') = [fw_guestIP w]" and p: "set (ports_of (fs_undo s')) = ?ps"
    and ne2: "fw_guestIP w \<noteq> []"
    by (auto simp: taken_def)
  have wfu: "wf_uid_pool (fs_uids s')" and inu: "fw_leasedUID w \<in> leased (fs_uids s')"
    and wfi: "wf_ipam (fs_ipam s')" and ini: "fw_guestIP w \<in> ipam_used (fs_ipam s')"
    using inv u i by (auto simp: undo_inv_def wf_factory_def)
  have ne: "fw_leasedUID w \<noteq> 0" by (rule leased_positive [OF wfu inu])
  have "ports_map (fc_Close h w s') = ports_map s"
  proof (cases "fs_ports s")
    case None
    then have "ports_map s = Map.empty" "fs_ports s' = None"
      using inv by (simp_all add: undo_inv_def ports_map_def)
    then have "ports_map s' = Map.empty" by (simp add: ports_map_def)
    with \<open>ports_map s = Map.empty\<close> show ?thesis by (simp add: fc_Close_books fun_eq_iff)
  next
    case (Some m)
    then have "?ps = HostPort ` set (fw_portMappings w)" by (simp add: booked_def)
    with inv p show ?thesis by (auto simp: fc_Close_books undo_inv_def fun_eq_iff)
  qed
  moreover have "fw_leasedUID w \<notin> leased (fs_uids s)" "leased (fs_uids s') = insert (fw_leasedUID w) (leased (fs_uids s))"
    "fw_guestIP w \<notin> ipam_used (fs_ipam s)" "ipam_used (fs_ipam s') = insert (fw_guestIP w) (ipam_used (fs_ipam s))"
    using inv u i by (auto simp: undo_inv_def)
  ultimately show ?thesis
    using ne ne2 uid_Return_wf [OF wfu inu] uid_Return_unleases [OF wfu inu] ips.give_inv [OF wfi ini] ips.give_used [OF wfi ini]
    by (auto simp: fc_Close_books wf_factory_def)
qed

end
