(* ===== verification/Config.thy ===== *)
theory Config
  imports Complex_Main Go_Paths
begin

text \<open>
  The daemon's configuration, \<open>internal/config/config.go\<close>: the record of settings, the defaults,
  and the validation that stops the daemon at start-up.  The YAML decoder, the file system and
  the user database are arguments.  A \<open>float64\<close> is a real number here; validation only compares
  it with zero.
\<close>

section \<open>Model\<close>

record network_config =
  ControlBind :: string
  DataBind :: string
  EphemeralPortStart :: int
  EphemeralPortEnd :: int

record storage_config =
  StateDir :: string
  SnapshotterName :: string
  Namespace :: string

record resource_config =
  MaxGlobalVMs :: int
  MaxGlobalMemoryMB :: int
  CPULimitCores :: real

record binary_config =
  bin_FirecrackerPath :: string
  bin_JailerPath :: string
  bin_KernelImagePath :: string
  bin_GuestAgentPath :: string

record jailer_config =
  UIDPoolStart :: int
  UIDPoolSize :: int
  ChrootBaseDir :: string

record telemetry_config =
  LogFormat :: string
  MetricsPath :: string

record cloud_config =
  cloud_Enabled :: bool
  cloud_Endpoint :: string
  cloud_MachineToken :: string
  cloud_NodeKey :: string
  cloud_NodeKeyPath :: string
  cloud_NodeID :: string
  cloud_Interface :: string

record herd_config =
  cfg_Network :: network_config
  cfg_Storage :: storage_config
  cfg_Resources :: resource_config
  cfg_Binaries :: binary_config
  cfg_Jailer :: jailer_config
  cfg_Telemetry :: telemetry_config
  cfg_Cloud :: cloud_config

datatype bind_addr_error = NotHostPort | BindPortRange | BindNotLoopback

datatype config_error =
    ReadConfig
  | DecodeYaml
  | ControlBindRequired
  | ControlBindInvalid bind_addr_error
  | DataBindRequired
  | DataBindInvalid bind_addr_error
  | EphemeralStartRange
  | EphemeralEndRange
  | EphemeralOrder
  | MaxVMsTooSmall
  | MaxMemoryTooSmall
  | CPULimitNegative
  | LogFormatUnknown
  | FirecrackerPathRequired
  | JailerPathRequired
  | KernelImagePathRequired
  | GuestAgentPathRequired
  | UIDStartTooSmall int
  | UIDSizeTooSmall int
  | ChrootBaseRequired
  | MetricsPathInvalid

definition MemoryLimitBytes :: "resource_config \<Rightarrow> int" where
  "MemoryLimitBytes r = wrap64 (wrap64 (MaxGlobalMemoryMB r * 1024) * 1024)"

text \<open>
  \<open>getenv\<close>, \<open>lookup\<close> (the home directory of a user) and \<open>userHome\<close> stand for the operating
  system; \<open>None\<close> is an error.
\<close>

definition GetTargetHomeDir :: "(string \<Rightarrow> string) \<Rightarrow> (string \<Rightarrow> string option) \<Rightarrow> string option \<Rightarrow> string option" where
  "GetTargetHomeDir getenv lookup userHome =
     (let sudoUser = getenv ''SUDO_USER'' in
      if sudoUser \<noteq> '''' then (case lookup sudoUser of Some home \<Rightarrow> Some home | None \<Rightarrow> userHome)
      else userHome)"

definition applyDefaults :: "string option \<Rightarrow> herd_config \<Rightarrow> herd_config" where
  "applyDefaults home c =
     (let t = cfg_Telemetry c; n = cfg_Network c; cl = cfg_Cloud c;
          t1 = (if LogFormat t = '''' then t\<lparr>LogFormat := ''json''\<rparr> else t);
          t2 = (if MetricsPath t1 = '''' then t1\<lparr>MetricsPath := ''/metrics''\<rparr> else t1);
          n1 = (if EphemeralPortStart n = 0 then n\<lparr>EphemeralPortStart := 10000\<rparr> else n);
          n2 = (if EphemeralPortEnd n1 = 0 then n1\<lparr>EphemeralPortEnd := 39999\<rparr> else n1);
          cl1 = (if cloud_NodeKeyPath cl = '''' then
                   (case home of
                      Some h \<Rightarrow> if h \<noteq> '''' then cl\<lparr>cloud_NodeKeyPath := path_Join [h, ''.herd'', ''node.key'']\<rparr>
                                 else cl\<lparr>cloud_NodeKeyPath := ''/etc/herd/node.key''\<rparr>
                    | None \<Rightarrow> cl\<lparr>cloud_NodeKeyPath := ''/etc/herd/node.key''\<rparr>)
                 else cl)
      in c\<lparr>cfg_Telemetry := t2, cfg_Network := n2, cfg_Cloud := cl1\<rparr>)"

definition validateDataBind :: "string \<Rightarrow> bind_addr_error option" where
  "validateDataBind bind = (case SplitHostPort bind of
       None \<Rightarrow> Some NotHostPort
     | Some (host, portStr) \<Rightarrow> (case atoi portStr of
         None \<Rightarrow> Some BindPortRange
       | Some port \<Rightarrow>
           if port < 1 \<or> port > 65535 then Some BindPortRange
           else if host = ''localhost'' then None
           else (case ParseIP host of
               None \<Rightarrow> Some BindNotLoopback
             | Some a \<Rightarrow> if IsLoopback a then None else Some BindNotLoopback)))"

definition Validate :: "herd_config \<Rightarrow> config_error option" where
  "Validate c =
     (let n = cfg_Network c; r = cfg_Resources c; t = cfg_Telemetry c; b = cfg_Binaries c; j = cfg_Jailer c in
      if ControlBind n = '''' then Some ControlBindRequired
      else case validateDataBind (ControlBind n) of Some e \<Rightarrow> Some (ControlBindInvalid e) | None \<Rightarrow>
      if DataBind n = '''' then Some DataBindRequired
      else case validateDataBind (DataBind n) of Some e \<Rightarrow> Some (DataBindInvalid e) | None \<Rightarrow>
      if EphemeralPortStart n < 1 \<or> EphemeralPortStart n > 65535 then Some EphemeralStartRange
      else if EphemeralPortEnd n < 1 \<or> EphemeralPortEnd n > 65535 then Some EphemeralEndRange
      else if EphemeralPortStart n > EphemeralPortEnd n then Some EphemeralOrder
      else if MaxGlobalVMs r < 1 then Some MaxVMsTooSmall
      else if MaxGlobalMemoryMB r < 1 then Some MaxMemoryTooSmall
      else if CPULimitCores r < 0 then Some CPULimitNegative
      else if LogFormat t \<noteq> ''json'' \<and> LogFormat t \<noteq> ''text'' then Some LogFormatUnknown
      else if bin_FirecrackerPath b = '''' then Some FirecrackerPathRequired
      else if bin_JailerPath b = '''' then Some JailerPathRequired
      else if bin_KernelImagePath b = '''' then Some KernelImagePathRequired
      else if bin_GuestAgentPath b = '''' then Some GuestAgentPathRequired
      else if UIDPoolStart j < 65536 then Some (UIDStartTooSmall (UIDPoolStart j))
      else if UIDPoolSize j < 1 then Some (UIDSizeTooSmall (UIDPoolSize j))
      else if ChrootBaseDir j = '''' then Some ChrootBaseRequired
      else if MetricsPath t = '''' \<or> MetricsPath t ! 0 \<noteq> CHR ''/'' then Some MetricsPathInvalid
      else None)"

text \<open>\<open>decode\<close> is the strict YAML decoder on the bytes of the file.\<close>

definition Load :: "(string \<Rightarrow> string option) \<Rightarrow> (string \<Rightarrow> herd_config option) \<Rightarrow> string option \<Rightarrow> string \<Rightarrow> config_error + herd_config" where
  "Load readFile decode home path = (case readFile path of
       None \<Rightarrow> Inl ReadConfig
     | Some raw \<Rightarrow> (case decode raw of
         None \<Rightarrow> Inl DecodeYaml
       | Some cfg0 \<Rightarrow>
           (let cfg = applyDefaults home cfg0 in
            case Validate cfg of Some e \<Rightarrow> Inl e | None \<Rightarrow> Inr cfg)))"

section \<open>Lemmas\<close>

definition loopback_bind :: "string \<Rightarrow> bool" where
  "loopback_bind bind \<longleftrightarrow> (\<exists>host portStr port. SplitHostPort bind = Some (host, portStr) \<and> atoi portStr = Some port \<and>
     1 \<le> port \<and> port \<le> 65535 \<and> (host = ''localhost'' \<or> (\<exists>a. ParseIP host = Some a \<and> IsLoopback a)))"

lemma validateDataBind_iff: "validateDataBind bind = None \<longleftrightarrow> loopback_bind bind"
  by (auto simp: validateDataBind_def loopback_bind_def not_less split: option.splits prod.splits if_splits)

lemma validateDataBind_empty: "validateDataBind '''' \<noteq> None"
  by (simp add: validateDataBind_def SplitHostPort_def last_colon_def)

text \<open>What the rest of the daemon may rely on.\<close>

definition valid_config :: "herd_config \<Rightarrow> bool" where
  "valid_config c \<longleftrightarrow>
     loopback_bind (ControlBind (cfg_Network c)) \<and> loopback_bind (DataBind (cfg_Network c)) \<and>
     1 \<le> EphemeralPortStart (cfg_Network c) \<and> EphemeralPortStart (cfg_Network c) \<le> EphemeralPortEnd (cfg_Network c) \<and>
     EphemeralPortEnd (cfg_Network c) \<le> 65535 \<and>
     1 \<le> MaxGlobalVMs (cfg_Resources c) \<and> 1 \<le> MaxGlobalMemoryMB (cfg_Resources c) \<and> 0 \<le> CPULimitCores (cfg_Resources c) \<and>
     LogFormat (cfg_Telemetry c) \<in> {''json'', ''text''} \<and>
     '''' \<notin> {bin_FirecrackerPath (cfg_Binaries c), bin_JailerPath (cfg_Binaries c), bin_KernelImagePath (cfg_Binaries c),
       bin_GuestAgentPath (cfg_Binaries c), ChrootBaseDir (cfg_Jailer c)} \<and>
     65536 \<le> UIDPoolStart (cfg_Jailer c) \<and> 1 \<le> UIDPoolSize (cfg_Jailer c) \<and>
     has_prefix ''/'' (MetricsPath (cfg_Telemetry c))"

lemma has_slash: "has_prefix ''/'' s \<longleftrightarrow> s \<noteq> [] \<and> s ! 0 = CHR ''/''"
  by (cases s) (auto simp: has_prefix_def)

lemma Validate_iff: "Validate c = None \<longleftrightarrow> valid_config c"
proof -
  have guard: "(if b then Some e else x) = None \<longleftrightarrow> \<not> b \<and> x = None" for b and e :: config_error and x
    by simp
  have bind: "(case validateDataBind s of Some e \<Rightarrow> Some (f e) | None \<Rightarrow> x) = None \<longleftrightarrow> loopback_bind s \<and> x = None"
    for s and f :: "bind_addr_error \<Rightarrow> config_error" and x
    by (cases "validateDataBind s") (simp_all flip: validateDataBind_iff)
  have ne: "loopback_bind s \<Longrightarrow> s \<noteq> ''''" for s
    using validateDataBind_empty by (auto simp: validateDataBind_iff)
  show ?thesis
    unfolding Validate_def Let_def guard bind valid_config_def has_slash
    using ne [of "ControlBind (cfg_Network c)"] ne [of "DataBind (cfg_Network c)"]
    by (auto simp: not_less not_le)
qed

lemma Validate_error_kind: "Validate c \<noteq> Some ReadConfig \<and> Validate c \<noteq> Some DecodeYaml"
proof -
  have guard: "(if b then Some e else x) = Some r \<longleftrightarrow> b \<and> e = r \<or> \<not> b \<and> x = Some r" for b and e r :: config_error and x
    by simp
  have bind: "(case validateDataBind s of Some e \<Rightarrow> Some (f e) | None \<Rightarrow> x) = Some r \<Longrightarrow> (\<exists>e. f e = r) \<or> x = Some r"
    for s and f :: "bind_addr_error \<Rightarrow> config_error" and x r
    by (cases "validateDataBind s") auto
  show ?thesis
    unfolding Validate_def Let_def guard config_error.distinct simp_thms
    by (auto simp only: guard config_error.distinct simp_thms dest!: bind)
qed

lemma applyDefaults_idem: "applyDefaults home (applyDefaults home c) = applyDefaults home c"
proof -
  have "path_Join [h, ''.herd'', ''node.key''] \<noteq> []" for h
    by (simp add: path_Clean_def Let_def)
  then show ?thesis by (auto simp: applyDefaults_def Let_def split: option.splits)
qed

section \<open>Properties\<close>


text \<open>
  Every address of 127.0.0.0/8 with a port is an accepted bind address exactly when the port
  is between 1 and 65535.
\<close>

theorem loopback_bind_accepted:
  assumes "int n < 2 ^ 63"
  shows "validateDataBind (ip_String [127, a, b, c] @ '':'' @ itoa_nat n) = None \<longleftrightarrow> 1 \<le> n \<and> n \<le> 65535"
proof -
  let ?h = "ip_String [127, a, b, c]"
  have parse: "ParseIP ?h = Some [127, a, b, c]" by (rule ParseIP_ip_String) simp
  have ne: "?h \<noteq> []" using parse by (auto simp: ParseIP_def)
  have "\<not> is_digit (CHR '':'')" "\<not> is_digit (CHR ''['')" "\<not> is_digit (CHR '']'')" by (simp_all add: is_digit_def)
  then have "set (?h @ itoa_nat n) \<inter> {CHR '':'', CHR ''['', CHR '']''} = {}"
    using ip_String_charset [of "CHR '':''" "[127, a, b, c]"] ip_String_charset [of "CHR ''[''" "[127, a, b, c]"]
      ip_String_charset [of "CHR '']''" "[127, a, b, c]"] not_digit_notin_itoa [of _ n] by auto
  then have "SplitHostPort (?h @ '':'' @ itoa_nat n) = Some (?h, itoa_nat n)"
    using ne by (intro SplitHostPort_plain)
  moreover have "IsLoopback [127, a, b, c]" by (simp add: IsLoopback_def To4_def)
  ultimately show ?thesis
    using atoi_itoa_nat [OF assms] parse by (auto simp: validateDataBind_def)
qed

theorem loopback_bind_accepted_witness:
  "validateDataBind (ip_String [127, 0, 0, 1] @ '':'' @ itoa_nat 8080) = None"
  using loopback_bind_accepted [of 8080 0 0 1] by simp

text \<open>
  \<open>Load\<close> returns only validated configurations with every default filled in, and reports
  each kind of failure.
\<close>

theorem load_result:
  "case Load readFile decode home path of
     Inr cfg \<Rightarrow> valid_config cfg \<and> applyDefaults home cfg = cfg \<and>
       (\<exists>raw cfg0. readFile path = Some raw \<and> decode raw = Some cfg0 \<and> cfg = applyDefaults home cfg0)
   | Inl e \<Rightarrow> (e = ReadConfig \<longleftrightarrow> readFile path = None) \<and>
       (e = DecodeYaml \<longleftrightarrow> (\<exists>raw. readFile path = Some raw \<and> decode raw = None))"
proof (cases "readFile path")
  case None
  then show ?thesis by (simp add: Load_def)
next
  case (Some raw)
  show ?thesis
  proof (cases "decode raw")
    case None
    with Some show ?thesis by (simp add: Load_def)
  next
    case (Some cfg0)
    let ?c = "applyDefaults home cfg0"
    show ?thesis
    proof (cases "Validate ?c")
      case None
      then have "valid_config ?c" using Validate_iff by blast
      with None \<open>readFile path = Some raw\<close> Some show ?thesis by (auto simp: Load_def applyDefaults_idem)
    next
      case (Some e)
      with \<open>readFile path = Some raw\<close> \<open>decode raw = Some cfg0\<close> show ?thesis
        using Validate_error_kind [of ?c] by (auto simp: Load_def)
    qed
  qed
qed

end
