(* ===== verification/Net_Bindings.thy ===== *)
theory Net_Bindings
  imports Go_Strings
begin

text \<open>
  The network helpers of \<open>internal/network/utils.go\<close>: the parser of port bindings
  (\<open>ip:hostPort:guestPort/protocol\<close>) and the choice of an interface's IPv4 address.  Input
  strings are taken as ASCII; a byte outside ASCII is in no valid binding, whatever
  \<open>strings.ToLower\<close> makes of it.
\<close>

section \<open>Port bindings\<close>

record port_binding =
  pb_IP :: ip
  pb_HostPort :: u16
  pb_GuestPort :: u16
  pb_Protocol :: string

datatype bind_error =
    TooManySlashes
  | InvalidProtocol
  | TooManyColons
  | InvalidGuestPort
  | InvalidHostPort
  | InvalidInterfaceIP

definition default_binding :: port_binding where
  "default_binding = \<lparr>pb_IP = [0, 0, 0, 0], pb_HostPort = 0, pb_GuestPort = 0, pb_Protocol = ''tcp''\<rparr>"

text \<open>The loop over the reversed fields, from index \<open>i\<close> on; as in the source an error comes with the binding so far.\<close>

fun bind_loop :: "nat \<Rightarrow> string list \<Rightarrow> port_binding \<Rightarrow> port_binding \<times> bind_error option" where
  "bind_loop i [] out = (out, None)"
| "bind_loop i (part # parts) out =
     (if i = 0 then
        (case ParseUint16 part of
           None \<Rightarrow> (out, Some InvalidGuestPort)
         | Some n \<Rightarrow> bind_loop (Suc i) parts (out\<lparr>pb_GuestPort := of_nat n\<rparr>))
      else if i = 1 then
        (if part = '''' then bind_loop (Suc i) parts out
         else (case ParseUint16 part of
             None \<Rightarrow> (out, Some InvalidHostPort)
           | Some n \<Rightarrow> bind_loop (Suc i) parts (out\<lparr>pb_HostPort := of_nat n\<rparr>)))
      else if i = 2 then
        (if part = '''' then bind_loop (Suc i) parts out
         else (case parse_ipv4 part of
             None \<Rightarrow> (out, Some InvalidInterfaceIP)
           | Some a \<Rightarrow> bind_loop (Suc i) parts (out\<lparr>pb_IP := a\<rparr>)))
      else bind_loop (Suc i) parts out)"

definition bind_fields :: "string \<Rightarrow> port_binding \<Rightarrow> port_binding \<times> bind_error option" where
  "bind_fields input out =
     (let colon_parts = split_on (CHR '':'') input in
      if length colon_parts > 3 \<or> length colon_parts = 0 then (out, Some TooManyColons)
      else bind_loop 0 (rev colon_parts) out)"

definition SanitizeNetworkBindings :: "string \<Rightarrow> port_binding \<times> bind_error option" where
  "SanitizeNetworkBindings input0 =
     (let input = to_lower input0; parts = split_on (CHR ''/'') input; out = default_binding in
      if length parts > 2 then (out, Some TooManySlashes)
      else if length parts = 2 then
        (if parts ! 1 \<in> {''tcp'', ''udp''} then bind_fields (parts ! 0) (out\<lparr>pb_Protocol := parts ! 1\<rparr>)
         else (out, Some InvalidProtocol))
      else bind_fields input out)"

section \<open>Interface addresses\<close>

text \<open>The addresses \<open>iface.Addrs()\<close> reports; \<open>OtherAddr\<close> is any other dynamic type, which leaves \<open>ip\<close> nil.\<close>

datatype net_addr = IPNet ip | IPAddr ip | OtherAddr

fun first_ipv4 :: "net_addr list \<Rightarrow> string option" where
  "first_ipv4 [] = None"
| "first_ipv4 (addr # addrs) =
     (let ip = (case addr of IPNet a \<Rightarrow> a | IPAddr a \<Rightarrow> a | OtherAddr \<Rightarrow> []) in
      if ip = [] \<or> IsLoopback ip then first_ipv4 addrs
      else (case To4 ip of None \<Rightarrow> first_ipv4 addrs | Some a \<Rightarrow> Some (ip_String a)))"

datatype iface_error = IfaceLookup string | IfaceAddrs string | NoSuitableIPv4

text \<open>\<open>byName\<close> and \<open>addrs\<close> are the operating system's answers.\<close>

definition GetInterfaceIP :: "(string \<Rightarrow> string + 'i) \<Rightarrow> ('i \<Rightarrow> string + net_addr list) \<Rightarrow> string \<Rightarrow> iface_error + string" where
  "GetInterfaceIP byName addrs name = (case byName name of
       Inl e \<Rightarrow> Inl (IfaceLookup e)
     | Inr iface \<Rightarrow> (case addrs iface of
         Inl e \<Rightarrow> Inl (IfaceAddrs e)
       | Inr as \<Rightarrow> (case first_ipv4 as of None \<Rightarrow> Inl NoSuitableIPv4 | Some s \<Rightarrow> Inr s)))"

section \<open>Lemmas\<close>

definition wf_binding :: "port_binding \<Rightarrow> bool" where
  "wf_binding b \<longleftrightarrow> length (pb_IP b) = 4 \<and> pb_Protocol b \<in> {''tcp'', ''udp''}"

text \<open>The text form that the parser's comment and the command line use.\<close>

definition binding_String :: "port_binding \<Rightarrow> string" where
  "binding_String b = join '':'' [ip_String (pb_IP b), itoa_nat (unat (pb_HostPort b)), itoa_nat (unat (pb_GuestPort b))]
     @ ''/'' @ pb_Protocol b"

lemma parse_ipv4_length: "parse_ipv4 s = Some a \<Longrightarrow> length a = 4"
  by (auto simp: parse_ipv4_def split: list.splits option.splits)

lemma bind_loop_wf: "wf_binding out \<Longrightarrow> wf_binding (fst (bind_loop i parts out))"
  by (induction i parts out rule: bind_loop.induct)
    (auto simp: wf_binding_def dest: parse_ipv4_length split: option.splits)

lemma Sanitize_wf: "wf_binding (fst (SanitizeNetworkBindings s))"
proof -
  have f: "wf_binding out \<Longrightarrow> wf_binding (fst (bind_fields input out))" for input out
    by (simp add: bind_fields_def Let_def bind_loop_wf)
  have d: "wf_binding default_binding" by (simp add: wf_binding_def default_binding_def)
  then have "p \<in> {''tcp'', ''udp''} \<Longrightarrow> wf_binding (default_binding\<lparr>pb_Protocol := p\<rparr>)" for p
    by (simp add: wf_binding_def)
  with f d show ?thesis by (simp add: SanitizeNetworkBindings_def Let_def)
qed

lemma unat_u16_le: "unat (x :: u16) \<le> 65535"
proof -
  have "unat x < 2 ^ LENGTH(16)" by (rule unsigned_less)
  then show ?thesis by simp
qed

lemma to_lower_ip_String: "to_lower (ip_String a) = ip_String a"
proof -
  have "lower_char (CHR ''.'') = CHR ''.''" by (simp add: lower_char_def)
  then have "lower_char c = c" if "c \<in> set (ip_String a)" for c
    using ip_String_charset [OF that] lower_char_digit by auto
  then show ?thesis unfolding to_lower_def by (rule map_idI)
qed

lemma to_lower_Cons_lit:
  "to_lower (CHR '':'' # s) = CHR '':'' # to_lower s" "to_lower (CHR ''/'' # s) = CHR ''/'' # to_lower s"
  "to_lower ''tcp'' = ''tcp''" "to_lower ''udp'' = ''udp''"
  by (simp_all add: to_lower_def lower_char_def)

lemma bind_fields_ok:
  assumes "length a = 4"
  shows "bind_fields (join '':'' [ip_String a, itoa_nat (unat h), itoa_nat (unat g)]) out =
    (out\<lparr>pb_GuestPort := g, pb_HostPort := h, pb_IP := a\<rparr>, None)"
proof -
  have "CHR '':'' \<notin> set (ip_String a)" using ip_String_charset [of "CHR '':''" a] by auto
  then have "split_on (CHR '':'') (join '':'' [ip_String a, itoa_nat (unat h), itoa_nat (unat g)]) =
      [ip_String a, itoa_nat (unat h), itoa_nat (unat g)]"
    by (intro split_on_join) (auto simp: not_digit_notin_itoa)
  moreover have "ip_String a \<noteq> []"
    using parse_ipv4_ip_String [OF assms] by (auto simp: parse_ipv4_def parse_octet_def parse_dec_def)
  ultimately show ?thesis
    by (simp add: bind_fields_def ParseUint16_itoa_nat unat_u16_le parse_ipv4_ip_String assms)
qed

section \<open>Properties\<close>

text \<open>
  C32.  Round trip: every well-formed binding, printed as \<open>ip:hostPort:guestPort/protocol\<close>, is
  parsed back to itself without an error.
\<close>

theorem binding_roundtrip:
  assumes "wf_binding b"
  shows "SanitizeNetworkBindings (binding_String b) = (b, None)"
proof -
  let ?f = "join '':'' [ip_String (pb_IP b), itoa_nat (unat (pb_HostPort b)), itoa_nat (unat (pb_GuestPort b))]"
  have len: "length (pb_IP b) = 4" and proto: "pb_Protocol b \<in> {''tcp'', ''udp''}"
    using assms by (simp_all add: wf_binding_def)
  have "to_lower (binding_String b) = binding_String b"
    using proto by (auto simp: binding_String_def to_lower_ip_String to_lower_Cons_lit)
  moreover have "CHR ''/'' \<notin> set ?f"
    using ip_String_charset [of "CHR ''/''" "pb_IP b"] by (auto simp: not_digit_notin_itoa)
  then have "split_on (CHR ''/'') (binding_String b) = [?f, pb_Protocol b]"
    using proto split_on_append [of "CHR ''/''" ?f "pb_Protocol b"]
    by (auto simp: binding_String_def split_on_no_sep)
  ultimately show ?thesis
    using proto bind_fields_ok [OF len] by (simp add: SanitizeNetworkBindings_def)
qed

theorem binding_roundtrip_witness:
  "SanitizeNetworkBindings (binding_String
     \<lparr>pb_IP = [127, 0, 0, 1], pb_HostPort = 8080, pb_GuestPort = 80, pb_Protocol = ''udp''\<rparr>) =
   (\<lparr>pb_IP = [127, 0, 0, 1], pb_HostPort = 8080, pb_GuestPort = 80, pb_Protocol = ''udp''\<rparr>, None)"
  by (rule binding_roundtrip) (simp add: wf_binding_def)

end
