(* ===== verification/Daemon.thy ===== *)
theory Daemon
  imports Lifecycle Factory_Safety Config Net_Bindings
begin

text \<open>
  The daemon: the controller (\<open>internal/daemon/controller.go\<close>), its HTTP control plane
  (\<open>api.go\<close>), telemetry (\<open>telemetry.go\<close>, \<open>runtime.go\<close>), the data-plane proxy
  (\<open>proxy/proxy.go\<close>) and the start-up that builds the pool (\<open>cmd/herd/start.go\<close>).  The pool runs
  on the Firecracker factory of theory \<open>Factory\<close>: its workers are \<open>fc_worker\<close>s, and the
  lifecycle manager reaps through it.  What a request finds outside the program (the host, the clock, a
  fresh UUID, whether its context ends while it waits) is its environment \<open>env\<close>.
\<close>

section \<open>State\<close>

record env =
  e_host :: host
  e_listen :: "string \<Rightarrow> string \<Rightarrow> bool"
  e_attempts :: nat
  e_nano :: int
  e_now :: int
  e_uuid :: string
  e_ctxDone :: bool

record counters =
  acquireRequests :: "64 word"
  acquireFailures :: "64 word"
  sessionsStarted :: "64 word"
  sessionsKilled :: "64 word"
  sessionsDraining :: "64 word"

text \<open>The daemon's objects behind the controller; the event log keeps level and event name.\<close>

record daemon =
  d_lm :: "(fc_worker pool \<times> fc_state) lifecycle"
  d_cnt :: counters
  d_log :: "(string \<times> string) list"
  d_fc :: fc_config
  d_proxyAddress :: string

abbreviation d_pool :: "daemon \<Rightarrow> fc_worker pool" where
  "d_pool d \<equiv> fst (lm_reaper (d_lm d))"

abbreviation d_factory :: "daemon \<Rightarrow> fc_state" where
  "d_factory d \<equiv> snd (lm_reaper (d_lm d))"

abbreviation d_leases :: "daemon \<Rightarrow> (sid \<rightharpoonup> session_state)" where
  "d_leases d \<equiv> lm_registry (d_lm d)"

definition set_pool :: "fc_worker pool \<Rightarrow> fc_state \<Rightarrow> daemon \<Rightarrow> daemon" where
  "set_pool p fs d = d\<lparr>d_lm := (d_lm d)\<lparr>lm_reaper := (p, fs)\<rparr>\<rparr>"

definition log_event :: "string \<Rightarrow> string \<Rightarrow> daemon \<Rightarrow> daemon" where
  "log_event level event d = d\<lparr>d_log := d_log d @ [(level, event)]\<rparr>"

definition bump :: "(counters \<Rightarrow> counters) \<Rightarrow> daemon \<Rightarrow> daemon" where
  "bump f d = d\<lparr>d_cnt := f (d_cnt d)\<rparr>"

definition RecordAcquireRequest :: "counters \<Rightarrow> counters" where
  "RecordAcquireRequest c = c\<lparr>acquireRequests := acquireRequests c + 1\<rparr>"

definition RecordAcquireFailure :: "counters \<Rightarrow> counters" where
  "RecordAcquireFailure c = c\<lparr>acquireFailures := acquireFailures c + 1\<rparr>"

definition RecordSessionStarted :: "counters \<Rightarrow> counters" where
  "RecordSessionStarted c = c\<lparr>sessionsStarted := sessionsStarted c + 1\<rparr>"

definition RecordSessionKilled :: "counters \<Rightarrow> counters" where
  "RecordSessionKilled c = c\<lparr>sessionsKilled := sessionsKilled c + 1\<rparr>"

text \<open>The gauge of draining sessions counts up and down, wrapping at 64 bits.\<close>

definition RecordSessionDraining :: "counters \<Rightarrow> counters" where
  "RecordSessionDraining c = c\<lparr>sessionsDraining := sessionsDraining c + 1\<rparr>"

definition RecordSessionResumed :: "counters \<Rightarrow> counters" where
  "RecordSessionResumed c = c\<lparr>sessionsDraining := sessionsDraining c - 1\<rparr>"

section \<open>The pool on the Firecracker factory\<close>

definition fc_spawn :: "env \<Rightarrow> fc_config \<Rightarrow> sid \<Rightarrow> tenant_config \<Rightarrow> fc_state \<Rightarrow> (spawn_error + fc_worker worker) \<times> fc_state" where
  "fc_spawn e f s cfg fs = (case Spawn (e_host e) (e_listen e) (e_attempts e) (e_nano e) f s cfg fs of
       (Inl err, fs') \<Rightarrow> (Inl err, fs')
     | (Inr w, fs') \<Rightarrow> (Inr \<lparr>worker_ID = fc_ID w, worker_obj = w\<rparr>, fs'))"

definition fc_close :: "env \<Rightarrow> fc_worker worker \<Rightarrow> fc_state \<Rightarrow> fc_state" where
  "fc_close e w fs = fc_Close (e_host e) (worker_obj w) fs"

section \<open>Controller\<close>

record create_request =
  rq_SessionID :: string
  rq_Image :: string
  rq_Command :: "string list"
  rq_Env :: "(string \<times> string) list"
  rq_IdleTimeoutSeconds :: int
  rq_TTLSeconds :: int
  rq_HealthInterval :: string
  rq_Warm :: bool
  rq_VCPUs :: int
  rq_MemoryMB :: int
  rq_PortMappings :: "port_mapping list"

record create_response =
  rs_SessionID :: string
  rs_InternalIP :: string
  rs_ProxyAddress :: string
  rs_PortMappings :: "port_mapping list"

datatype create_error = WarmFailed storage_error | AcquireFailed acquire_error

definition tenant_of :: "create_request \<Rightarrow> tenant_config" where
  "tenant_of req = \<lparr>Image = rq_Image req, Command = rq_Command req, Env = rq_Env req,
     IdleTimeoutSeconds = rq_IdleTimeoutSeconds req, TTLSeconds = rq_TTLSeconds req,
     HealthInterval = rq_HealthInterval req, VCPUs = rq_VCPUs req, MemoryMB = rq_MemoryMB req,
     PortMappings = rq_PortMappings req\<rparr>"

text \<open>The optional warm-up: \<open>None\<close> when it succeeds or is not asked for.\<close>

definition warm_if_asked :: "env \<Rightarrow> create_request \<Rightarrow> daemon \<Rightarrow> storage_error option \<times> daemon" where
  "warm_if_asked e req d =
     (if rq_Warm req then
        (case fc_WarmImage (e_host e) (rq_Image req) (d_factory d) of
           (Inl err, fs) \<Rightarrow> (Some err, log_event ''error'' ''failed_to_warm_image'' (set_pool (d_pool d) fs d))
         | (Inr _, fs) \<Rightarrow> (None, set_pool (d_pool d) fs d))
      else (None, d))"

definition session_id_of :: "env \<Rightarrow> create_request \<Rightarrow> sid" where
  "session_id_of e req = (if rq_SessionID req = '''' then e_uuid e else rq_SessionID req)"

definition finish_create :: "env \<Rightarrow> create_request \<Rightarrow> sid \<Rightarrow> fc_worker \<Rightarrow> daemon \<Rightarrow> create_response \<times> daemon" where
  "finish_create e req sessionID w d =
     (let mappings = fc_PortMappings w;
          d1 = d\<lparr>d_lm := lm_Register sessionID (tenant_of req) mappings (e_now e) (d_lm d)\<rparr>;
          d2 = log_event ''info'' ''session_acquired'' (bump RecordSessionStarted d1)
      in (\<lparr>rs_SessionID = sessionID, rs_InternalIP = fc_GuestIP w, rs_ProxyAddress = d_proxyAddress d,
           rs_PortMappings = fc_PortMappings w\<rparr>, d2))"

definition CreateSession :: "env \<Rightarrow> create_request \<Rightarrow> daemon \<Rightarrow> (create_error + create_response) outcome \<times> daemon" where
  "CreateSession e req d0 =
     (case warm_if_asked e req (bump RecordAcquireRequest d0) of
        (Some err, d) \<Rightarrow> (Returns (Inl (WarmFailed err)), d)
      | (None, d1) \<Rightarrow>
          (let sessionID = session_id_of e req;
               d2 = log_event ''info'' ''acquire_request_received'' d1
           in case pool_Acquire (fc_spawn e (d_fc d2)) (\<lambda>w fs. (None :: unit option, fc_close e w fs)) (e_ctxDone e)
                  sessionID (tenant_of req) (d_pool d2) (d_factory d2) of
                (Blocks, p, fs) \<Rightarrow> (Blocks, set_pool p fs d2)
              | (Panics, p, fs) \<Rightarrow> (Panics, set_pool p fs d2)
              | (Returns (Inl err), p, fs) \<Rightarrow>
                  (Returns (Inl (AcquireFailed err)),
                   log_event ''error'' ''session_acquire_failed'' (bump RecordAcquireFailure (set_pool p fs d2)))
              | (Returns (Inr w), p, fs) \<Rightarrow>
                  (case finish_create e req sessionID (worker_obj w) (set_pool p fs d2) of
                     (resp, d3) \<Rightarrow> (Returns (Inr resp), d3))))"

definition DeleteSession :: "env \<Rightarrow> sid \<Rightarrow> string \<Rightarrow> daemon \<Rightarrow> kill_result option \<times> daemon" where
  "DeleteSession e sessionID reason d =
     (case lm_UnregisterAndKill (pool_kill (fc_close e)) sessionID reason (d_lm d) of
        (Some err, lm) \<Rightarrow> (Some err, log_event ''error'' ''session_cleanup_failed'' (d\<lparr>d_lm := lm\<rparr>))
      | (None, lm) \<Rightarrow> (None, log_event ''info'' ''session_killed'' (bump RecordSessionKilled (d\<lparr>d_lm := lm\<rparr>))))"

definition ListSessions :: "sid list \<Rightarrow> daemon \<Rightarrow> session_state list" where
  "ListSessions order d = lm_ListSessions order (d_lm d)"

definition UpdateHeartbeat :: "env \<Rightarrow> sid \<Rightarrow> daemon \<Rightarrow> daemon" where
  "UpdateHeartbeat e sessionID d = d\<lparr>d_lm := lm_UpdateHeartbeat sessionID (e_now e) (d_lm d)\<rparr>"

datatype logs_error = SessionNotFound | LogsNotAvailable

text \<open>\<open>open_ok\<close> says whether the file can be opened; the result is the path of the log.\<close>

definition GetLogs :: "(string \<Rightarrow> bool) \<Rightarrow> sid \<Rightarrow> daemon \<Rightarrow> logs_error + string" where
  "GetLogs open_ok sessionID d = (case pool_GetSession sessionID (d_pool d) of
       Inl _ \<Rightarrow> Inl SessionNotFound
     | Inr None \<Rightarrow> Inl SessionNotFound
     | Inr (Some w) \<Rightarrow>
         (let logPath = ''/tmp/'' @ worker_ID w @ ''.log''
          in if open_ok logPath then Inr logPath else Inl LogsNotAvailable))"

definition controller_WarmImage :: "env \<Rightarrow> string \<Rightarrow> daemon \<Rightarrow> storage_error option \<times> daemon" where
  "controller_WarmImage e imageRef d = (case fc_WarmImage (e_host e) imageRef (d_factory d) of
       (Inl err, fs) \<Rightarrow> (Some err, set_pool (d_pool d) fs d)
     | (Inr _, fs) \<Rightarrow> (None, set_pool (d_pool d) fs d))"

text \<open>One tick of the reaper.\<close>

definition daemon_sweep :: "env \<Rightarrow> sid list \<Rightarrow> daemon \<Rightarrow> daemon" where
  "daemon_sweep e order d = d\<lparr>d_lm := lm_sweep (pool_kill (fc_close e)) (e_now e) order (d_lm d)\<rparr>"

section \<open>Control plane API\<close>

text \<open>
  A request as the mux hands it over: the method and the path segments, with the wildcard
  segment already decoded, and the body (\<open>None\<close> for a nil body).
\<close>

datatype endpoint =
    EHealth | ECreate | EList | EDelete sid | ELogs sid | EExec sid | EHeartbeat sid | EWarm
  | EMethodNotAllowed | ENotFound

fun route :: "string \<Rightarrow> string list \<Rightarrow> endpoint" where
  "route meth path =
     (let get = (meth = ''GET'' \<or> meth = ''HEAD'') in
      if path = [''healthz''] then (if get then EHealth else EMethodNotAllowed)
      else if path = [''v1'', ''sessions''] then
        (if meth = ''POST'' then ECreate else if get then EList else EMethodNotAllowed)
      else if path = [''v1'', ''images'', ''warm''] then (if meth = ''POST'' then EWarm else EMethodNotAllowed)
      else if length path = 3 \<and> take 2 path = [''v1'', ''sessions''] \<and> path ! 2 \<noteq> '''' then
        (if meth = ''DELETE'' then EDelete (path ! 2) else EMethodNotAllowed)
      else if length path = 4 \<and> take 2 path = [''v1'', ''sessions''] \<and> path ! 2 \<noteq> '''' \<and> path ! 3 = ''logs'' then
        (if get then ELogs (path ! 2) else EMethodNotAllowed)
      else if length path = 4 \<and> take 2 path = [''v1'', ''sessions''] \<and> path ! 2 \<noteq> '''' \<and> path ! 3 = ''exec'' then
        (if meth = ''POST'' then EExec (path ! 2) else EMethodNotAllowed)
      else if length path = 4 \<and> take 2 path = [''v1'', ''sessions''] \<and> path ! 2 \<noteq> '''' \<and> path ! 3 = ''heartbeat'' then
        (if meth = ''PUT'' then EHeartbeat (path ! 2) else EMethodNotAllowed)
      else ENotFound)"

declare route.simps [simp del]

datatype reply =
    Status nat string
  | CreatedReply create_response
  | SessionsReply "session_state list"
  | LogReply string
  | ExecReply string

definition handleHealthCheck :: reply where
  "handleHealthCheck = Status 200 ''OK''"

text \<open>\<open>decodeWarm\<close> and \<open>decodeCreate\<close> are the JSON decoder on the body.\<close>

definition handleWarmImage :: "(string \<Rightarrow> string option) \<Rightarrow> env \<Rightarrow> string \<Rightarrow> daemon \<Rightarrow> reply \<times> daemon" where
  "handleWarmImage decodeWarm e body d = (case decodeWarm body of
       None \<Rightarrow> (Status 400 ''invalid json'', d)
     | Some img \<Rightarrow>
         if img = '''' then (Status 400 ''image required'', d)
         else (case controller_WarmImage e img d of
             (Some err, d') \<Rightarrow> (Status 500 ''warm failed'', d')
           | (None, d') \<Rightarrow> (Status 200 '''', d')))"

definition handleLogsSession :: "(string \<Rightarrow> bool) \<Rightarrow> sid \<Rightarrow> daemon \<Rightarrow> reply" where
  "handleLogsSession open_ok sessionID d =
     (if sessionID = '''' then Status 400 ''invalid session id''
      else (case GetLogs open_ok sessionID d of
          Inl _ \<Rightarrow> Status 404 ''logs'' | Inr logPath \<Rightarrow> LogReply logPath))"

definition handleHeartbeat :: "env \<Rightarrow> sid \<Rightarrow> daemon \<Rightarrow> reply \<times> daemon" where
  "handleHeartbeat e sessionID d =
     (if sessionID = '''' then (Status 400 ''invalid session id'', d)
      else (Status 200 '''', UpdateHeartbeat e sessionID d))"

definition handleCreateSession :: "(string \<Rightarrow> create_request option) \<Rightarrow> env \<Rightarrow> string option \<Rightarrow> daemon \<Rightarrow> reply outcome \<times> daemon" where
  "handleCreateSession decodeCreate e body d = (case body of
       None \<Rightarrow> (Returns (Status 400 ''missing request body''), d)
     | Some b \<Rightarrow> (case decodeCreate b of
         None \<Rightarrow> (Returns (Status 400 ''invalid json body''), log_event ''error'' ''failed_to_decode_create_request'' d)
       | Some req \<Rightarrow>
           if rq_Image req = '''' then (Returns (Status 400 ''missing image field''), d)
           else (case CreateSession e req d of
               (Blocks, d') \<Rightarrow> (Blocks, d')
             | (Panics, d') \<Rightarrow> (Panics, d')
             | (Returns (Inl err), d') \<Rightarrow> (Returns (Status 500 ''create failed''), d')
             | (Returns (Inr resp), d') \<Rightarrow> (Returns (CreatedReply resp), d'))))"

definition handleDeleteSession :: "env \<Rightarrow> sid \<Rightarrow> daemon \<Rightarrow> reply \<times> daemon" where
  "handleDeleteSession e sessionID d =
     (if sessionID = '''' then (Status 400 ''invalid session id'', d)
      else (case DeleteSession e sessionID ''api_requested'' d of
          (Some err, d') \<Rightarrow> (Status 500 ''delete failed'', d')
        | (None, d') \<Rightarrow> (Status 200 '''', d')))"

definition handleListSessions :: "sid list \<Rightarrow> daemon \<Rightarrow> reply" where
  "handleListSessions order d = SessionsReply (ListSessions order d)"

text \<open>
  The exec handler up to the pipe between the client and the guest: \<open>hijack\<close> says whether the
  connection can be taken over (\<open>None\<close>: the server does not support it), \<open>dial\<close> whether the guest's
  vsock port answers.
\<close>

definition handleExecSession :: "bool option \<Rightarrow> (string \<Rightarrow> nat \<Rightarrow> bool) \<Rightarrow> sid \<Rightarrow> daemon \<Rightarrow> reply" where
  "handleExecSession hijack dial sessionID d =
     (if sessionID = '''' then Status 400 ''invalid session id''
      else (case pool_GetSession sessionID (d_pool d) of
          Inl _ \<Rightarrow> Status 404 ''session not found''
        | Inr None \<Rightarrow> Status 404 ''session not found''
        | Inr (Some w) \<Rightarrow>
            (let socketPath = fc_VsockUDSPath (worker_obj w) in
             if socketPath = '''' then Status 400 ''worker vsock path unavailable''
             else (case hijack of
                 None \<Rightarrow> Status 500 ''webserver does not support hijacking''
               | Some False \<Rightarrow> Status 500 ''hijack failed''
               | Some True \<Rightarrow>
                   if dial socketPath 5001 then ExecReply socketPath else Status 101 ''failed to dial vsock''))))"

section \<open>Data plane\<close>

definition SessionHeader :: string where
  "SessionHeader = ''X-Session-ID''"

record reverse_proxy =
  rp_hasManager :: bool
  rp_LookupOnly :: bool

definition NewReverseProxy :: reverse_proxy where
  "NewReverseProxy = \<lparr>rp_hasManager = False, rp_LookupOnly = False\<rparr>"

definition WithLifecycleManager :: "reverse_proxy \<Rightarrow> reverse_proxy" where
  "WithLifecycleManager rp = rp\<lparr>rp_hasManager := True\<rparr>"

definition WithLookupOnly :: "reverse_proxy \<Rightarrow> reverse_proxy" where
  "WithLookupOnly rp = rp\<lparr>rp_LookupOnly := True\<rparr>"

definition empty_tenant :: tenant_config where
  "empty_tenant = \<lparr>Image = '''', Command = [], Env = [], IdleTimeoutSeconds = 0, TTLSeconds = 0,
     HealthInterval = '''', VCPUs = 0, MemoryMB = 0, PortMappings = []\<rparr>"

text \<open>The answer of the worker at an address: its status, or an upstream error.\<close>

definition forward :: "(string \<Rightarrow> bool) \<Rightarrow> (string \<Rightarrow> nat option) \<Rightarrow> fc_worker worker \<Rightarrow> reply" where
  "forward url_ok upstream w =
     (let addr = fc_Address (worker_obj w) in
      if \<not> url_ok addr then Status 500 ''herd: bad worker address''
      else (case upstream addr of None \<Rightarrow> Status 502 ''herd: upstream error'' | Some st \<Rightarrow> Status st ''''))"

definition proxy_lookup :: "(string \<Rightarrow> bool) \<Rightarrow> (string \<Rightarrow> nat option) \<Rightarrow> env \<Rightarrow> reverse_proxy \<Rightarrow> sid \<Rightarrow> daemon \<Rightarrow> reply outcome \<times> daemon" where
  "proxy_lookup url_ok upstream e rp sessionID d =
     (if rp_LookupOnly rp then
        (case pool_GetSession sessionID (d_pool d) of
           Inl err \<Rightarrow> (Returns (Status 500 ''herd: could not lookup worker''), d)
         | Inr None \<Rightarrow> (Returns (Status 404 ''herd: session not found''), d)
         | Inr (Some w) \<Rightarrow> (Returns (forward url_ok upstream w), d))
      else
        (case pool_Acquire (fc_spawn e (d_fc d)) (\<lambda>w fs. (None :: unit option, fc_close e w fs)) (e_ctxDone e)
            sessionID empty_tenant (d_pool d) (d_factory d) of
           (Blocks, p, fs) \<Rightarrow> (Blocks, set_pool p fs d)
         | (Panics, p, fs) \<Rightarrow> (Panics, set_pool p fs d)
         | (Returns (Inl err), p, fs) \<Rightarrow> (Returns (Status 503 ''herd: could not acquire worker''), set_pool p fs d)
         | (Returns (Inr w), p, fs) \<Rightarrow> (Returns (forward url_ok upstream w), set_pool p fs d)))"

text \<open>\<open>ctxErr\<close> is the error of the request's context when the handler returns, and \<open>e_now e\<close> the time then.\<close>

definition proxy_ServeHTTP :: "(string \<Rightarrow> bool) \<Rightarrow> (string \<Rightarrow> nat option) \<Rightarrow> proxy_err \<Rightarrow> env \<Rightarrow> reverse_proxy \<Rightarrow> sid \<Rightarrow> daemon \<Rightarrow>
    reply outcome \<times> daemon" where
  "proxy_ServeHTTP url_ok upstream ctxErr e rp sessionID d =
     (if sessionID = '''' then (Returns (Status 400 ''herd: missing session ID''), d)
      else if rp_hasManager rp then
        (let d1 = d\<lparr>d_lm := lm_BeginRequest sessionID (d_lm d)\<rparr> in
         case proxy_lookup url_ok upstream e rp sessionID d1 of
           (Returns r, d2) \<Rightarrow>
             (Returns r, d2\<lparr>d_lm := lm_EndRequest (pool_kill (fc_close e)) sessionID ctxErr (e_now e) (d_lm d2)\<rparr>)
         | (Blocks, d2) \<Rightarrow> (Blocks, d2)
         | (Panics, d2) \<Rightarrow> (Panics, d2\<lparr>d_lm := lm_EndRequest (pool_kill (fc_close e)) sessionID ctxErr (e_now e) (d_lm d2)\<rparr>))
      else proxy_lookup url_ok upstream e rp sessionID d)"

text \<open>The proxy of \<open>NewDataPlaneHandler\<close>.\<close>

definition data_plane_proxy :: reverse_proxy where
  "data_plane_proxy = WithLookupOnly (WithLifecycleManager NewReverseProxy)"

section \<open>Runtime policy, telemetry and start-up\<close>

datatype policy = FullGuarantees | ReducedGuarantees | UnsupportedPlatform string

definition EnforceRuntimePolicy :: "string \<Rightarrow> policy" where
  "EnforceRuntimePolicy goos =
     (if goos = ''linux'' then FullGuarantees else if goos = ''darwin'' then ReducedGuarantees else UnsupportedPlatform goos)"

definition NewEventLogger :: "string \<Rightarrow> string" where
  "NewEventLogger format = (if format \<noteq> ''json'' \<and> format \<noteq> ''text'' then ''text'' else format)"

text \<open>
  A log line in text format: the fields, given with their printed values, in the order of their keys.
\<close>

fun insert_field :: "string \<times> string \<Rightarrow> (string \<times> string) list \<Rightarrow> (string \<times> string) list" where
  "insert_field f [] = [f]"
| "insert_field f (g # gs) = (if lexordp_eq (map (of_char :: char \<Rightarrow> nat) (fst f)) (map of_char (fst g)) then f # g # gs else g # insert_field f gs)"

definition emit_text :: "string \<Rightarrow> string \<Rightarrow> (string \<times> string) list \<Rightarrow> string" where
  "emit_text level event kvs =
     join '' '' ([''level='' @ level, ''event='' @ event] @ map (\<lambda>(k, v). k @ ''='' @ v) (foldr insert_field kvs []))"

definition metric :: "string \<Rightarrow> string \<Rightarrow> string \<Rightarrow> string \<Rightarrow> string" where
  "metric name help kind val = ''# HELP '' @ name @ '' '' @ help @ [CHR 0x0A] @ ''# TYPE '' @ name @ '' '' @ kind @ [CHR 0x0A] @
     name @ '' '' @ val @ [CHR 0x0A]"

definition MetricsHandler :: "daemon \<Rightarrow> string" where
  "MetricsHandler d =
     (let stats = pool_Stats () (d_pool d); life = d_cnt d in
      metric ''herd_total_workers'' ''Total workers tracked by herd pool.'' ''gauge'' (itoa_nat (TotalWorkers stats)) @
      metric ''herd_active_sessions'' ''Active sticky sessions.'' ''gauge'' (itoa_nat (ActiveSessions stats)) @
      metric ''herd_sessions_draining'' ''Sessions in grace period awaiting reconnect.'' ''gauge'' (itoa (sint (sessionsDraining life))) @
      metric ''herd_inflight_acquires'' ''Acquire operations in progress.'' ''gauge'' (itoa_nat (InflightAcquires stats)) @
      metric ''herd_acquire_requests_total'' ''Total control-plane acquire requests received.'' ''counter'' (itoa_nat (unat (acquireRequests life))) @
      metric ''herd_acquire_failures_total'' ''Total acquire requests that failed.'' ''counter'' (itoa_nat (unat (acquireFailures life))) @
      metric ''herd_sessions_started_total'' ''Total sessions successfully started by control-plane streams.'' ''counter'' (itoa_nat (unat (sessionsStarted life))) @
      metric ''herd_sessions_killed_total'' ''Total sessions force-killed during stream cleanup.'' ''counter'' (itoa_nat (unat (sessionsKilled life))))"

datatype build_error = ResolveSocket | ConnectContainerd | InitIPAM ipam_error | CreateUIDPool uid_error

text \<open>
  \<open>absPath\<close> and \<open>connect\<close> are \<open>filepath.Abs\<close> (which needs the working directory) and the containerd
  client; \<open>None\<close> as result is the panic of \<open>WithMaxWorkers\<close>.
\<close>

definition buildPool :: "(string \<Rightarrow> string option) \<Rightarrow> (string \<Rightarrow> bool) \<Rightarrow> herd_config \<Rightarrow>
    (build_error + fc_worker pool \<times> fc_state \<times> fc_config) option" where
  "buildPool absPath connect cfg =
     (case absPath (path_Join [StateDir (cfg_Storage cfg), ''containerd.sock'']) of
        None \<Rightarrow> Some (Inl ResolveSocket)
      | Some absSock \<Rightarrow>
          if \<not> connect absSock then Some (Inl ConnectContainerd)
          else (case NewIPAM ''10.200.0.0/16'' of
              Inl err \<Rightarrow> Some (Inl (InitIPAM err))
            | Inr ipam \<Rightarrow> (case uid_NewPool (UIDPoolStart (cfg_Jailer cfg)) (UIDPoolSize (cfg_Jailer cfg)) of
                Inl err \<Rightarrow> Some (Inl (CreateUIDPool err))
              | Inr uidPool \<Rightarrow>
                  (let portMgr = NewPortManager (EphemeralPortStart (cfg_Network cfg)) (EphemeralPortEnd (cfg_Network cfg));
                       factory = \<lparr>FirecrackerPath = bin_FirecrackerPath (cfg_Binaries cfg), JailerPath = bin_JailerPath (cfg_Binaries cfg),
                         KernelImagePath = bin_KernelImagePath (cfg_Binaries cfg), GuestAgentPath = bin_GuestAgentPath (cfg_Binaries cfg),
                         JailerChrootBaseDir = ChrootBaseDir (cfg_Jailer cfg)\<rparr>;
                       st = \<lparr>fs_uids = uidPool, fs_ipam = ipam, fs_ports = Some portMgr,
                         fs_store = \<lparr>st_parents = Map.empty, st_trace = []\<rparr>, fs_undo = []\<rparr>
                   in case WithMaxWorkers (MaxGlobalVMs (cfg_Resources cfg)) of
                        None \<Rightarrow> None
                      | Some opt \<Rightarrow> Some (Inr (pool_New [opt], st, factory))))))"

definition start_daemon :: "fc_worker pool \<Rightarrow> fc_state \<Rightarrow> fc_config \<Rightarrow> string \<Rightarrow> daemon" where
  "start_daemon p fs f dataBind =
     \<lparr>d_lm = NewManager (p, fs),
      d_cnt = \<lparr>acquireRequests = 0, acquireFailures = 0, sessionsStarted = 0, sessionsKilled = 0, sessionsDraining = 0\<rparr>,
      d_log = [], d_fc = f, d_proxyAddress = ''http://'' @ dataBind\<rparr>"

end
