(* ===== verification/Observer.thy ===== *)
theory Observer
  imports Complex_Main Go_Text
begin

text \<open>
  The node observer, \<open>observer/observer_linux.go\<close>, and \<open>internal/system/info.go\<close>: what they make of
  \<open>/proc/meminfo\<close> and \<open>/proc/stat\<close>.  A file is its text, \<open>None\<close> when it cannot be opened.  An
  outcome \<open>None\<close> is a panic.  A \<open>float64\<close> is a real number.
\<close>

section \<open>Memory\<close>

datatype obs_error = OpenFailed | LineTooLong | StatFormat string | NoCPULine

record mem_info =
  mi_total :: int
  mi_available :: int

text \<open>The loop over the lines; \<open>tooLong\<close> is whether the scan ends at a line that does not fit.\<close>

fun mem_loop :: "string list \<Rightarrow> bool \<Rightarrow> nat \<Rightarrow> mem_info \<Rightarrow> obs_error + mem_info" where
  "mem_loop [] tooLong found info = (if tooLong then Inl LineTooLong else Inr info)"
| "mem_loop (l # ls) tooLong found info =
     (if 2 \<le> found then Inr info
      else (let parts = go_fields l in
        if length parts < 2 then mem_loop ls tooLong found info
        else (case ParseInt64 (parts ! 1) of
            (False, _) \<Rightarrow> mem_loop ls tooLong found info
          | (True, v) \<Rightarrow>
              (let key = trim_suffix '':'' (parts ! 0); val = wrap64 (v * 1024) in
               if key = ''MemTotal'' then mem_loop ls tooLong (Suc found) (info\<lparr>mi_total := val\<rparr>)
               else if key = ''MemAvailable'' then mem_loop ls tooLong (Suc found) (info\<lparr>mi_available := val\<rparr>)
               else mem_loop ls tooLong found info))))"

definition readMemInfo :: "string option \<Rightarrow> obs_error + mem_info" where
  "readMemInfo file = (case file of
       None \<Rightarrow> Inl OpenFailed
     | Some text \<Rightarrow> (case scan_lines text of (ls, tooLong) \<Rightarrow> mem_loop ls tooLong 0 \<lparr>mi_total = 0, mi_available = 0\<rparr>))"

text \<open>\<open>getTotalMemoryMB\<close> of \<open>internal/system\<close>; Go's division truncates.\<close>

fun total_loop :: "string list \<Rightarrow> obs_error + int" where
  "total_loop [] = Inr 0"
| "total_loop (l # ls) =
     (if has_prefix ''MemTotal:'' l \<and> 2 \<le> length (go_fields l) then
        (case ParseInt64 (go_fields l ! 1) of
           (False, _) \<Rightarrow> Inl (StatFormat l)
         | (True, v) \<Rightarrow> Inr (if v < 0 then - ((- v) div 1024) else v div 1024))
      else total_loop ls)"

definition getTotalMemoryMB :: "string option \<Rightarrow> obs_error + int" where
  "getTotalMemoryMB file = (case file of None \<Rightarrow> Inl OpenFailed | Some text \<Rightarrow> total_loop (fst (scan_lines text)))"

record sys_info =
  si_CPUCores :: int
  si_TotalMemoryMB :: int

definition GetInfo :: "int \<Rightarrow> string option \<Rightarrow> obs_error + sys_info" where
  "GetInfo numCPU file = (case getTotalMemoryMB file of
       Inl e \<Rightarrow> Inl e | Inr m \<Rightarrow> Inr \<lparr>si_CPUCores = numCPU, si_TotalMemoryMB = m\<rparr>)"

section \<open>CPU\<close>

definition readCPUCount :: "string option \<Rightarrow> obs_error + int" where
  "readCPUCount file = (case file of
       None \<Rightarrow> Inl OpenFailed
     | Some text \<Rightarrow>
         (let n = length (filter (\<lambda>l. has_prefix ''cpu'' l \<and> 3 < length l \<and> is_digit (l ! 3)) (fst (scan_lines text)))
          in Inr (if n = 0 then 1 else int n)))"

record cpu_stat =
  cs_user :: int
  cs_nice :: int
  cs_system :: int
  cs_idle :: int
  cs_iowait :: int
  cs_irq :: int
  cs_softirq :: int
  cs_steal :: int

definition cs_total :: "cpu_stat \<Rightarrow> int" where
  "cs_total s = wrap64 (cs_user s + cs_nice s + cs_system s + cs_idle s + cs_iowait s + cs_irq s + cs_softirq s + cs_steal s)"

definition cs_idleTotal :: "cpu_stat \<Rightarrow> int" where
  "cs_idleTotal s = wrap64 (cs_idle s + cs_iowait s)"

text \<open>The fields of the \<open>cpu\<close> line: an index out of range panics.\<close>

definition cpu_of_fields :: "string list \<Rightarrow> cpu_stat option" where
  "cpu_of_fields fs =
     (let parse = (\<lambda>i. snd (ParseInt64 (fs ! i))) in
      if length fs \<le> 8 then None
      else Some \<lparr>cs_user = parse 1, cs_nice = parse 2, cs_system = parse 3, cs_idle = parse 4, cs_iowait = parse 5,
        cs_irq = parse 6, cs_softirq = parse 7, cs_steal = parse 8\<rparr>)"

fun cpu_loop :: "string list \<Rightarrow> (obs_error + cpu_stat) option" where
  "cpu_loop [] = Some (Inl NoCPULine)"
| "cpu_loop (l # ls) =
     (if has_prefix ''cpu '' l then
        (if length (go_fields l) < 5 then Some (Inl (StatFormat l)) else map_option Inr (cpu_of_fields (go_fields l)))
      else cpu_loop ls)"

definition readCPUStat :: "string option \<Rightarrow> (obs_error + cpu_stat) option" where
  "readCPUStat file = (case file of None \<Rightarrow> Some (Inl OpenFailed) | Some text \<Rightarrow> cpu_loop (fst (scan_lines text)))"

text \<open>The idle fraction from two readings of \<open>/proc/stat\<close>.\<close>

definition idle_fraction :: "cpu_stat \<Rightarrow> cpu_stat \<Rightarrow> real" where
  "idle_fraction before after =
     (let totalDelta = wrap64 (cs_total after - cs_total before); idleDelta = wrap64 (cs_idleTotal after - cs_idleTotal before) in
      if totalDelta \<le> 0 then 1 else real_of_int idleDelta / real_of_int totalDelta)"

definition measureCPUIdle :: "string option \<Rightarrow> string option \<Rightarrow> (obs_error + real) option" where
  "measureCPUIdle stat1 stat2 = (case readCPUStat stat1 of
       None \<Rightarrow> None
     | Some (Inl e) \<Rightarrow> Some (Inl e)
     | Some (Inr before) \<Rightarrow> (case readCPUStat stat2 of
         None \<Rightarrow> None
       | Some (Inl e) \<Rightarrow> Some (Inl e)
       | Some (Inr after) \<Rightarrow> Some (Inr (idle_fraction before after))))"

record node_stats =
  TotalMemoryBytes :: int
  AvailableMemoryBytes :: int
  CPUIdle :: real
  CPUCount :: int

text \<open>
  \<open>pollNodeStats\<close>: \<open>/proc/meminfo\<close> once, \<open>/proc/stat\<close> three times.
\<close>

definition pollNodeStats :: "string option \<Rightarrow> string option \<Rightarrow> string option \<Rightarrow> string option \<Rightarrow> (obs_error + node_stats) option" where
  "pollNodeStats meminfo stat1 stat2 stat3 = (case readMemInfo meminfo of
       Inl e \<Rightarrow> Some (Inl e)
     | Inr mem \<Rightarrow> (case measureCPUIdle stat1 stat2 of
         None \<Rightarrow> None
       | Some (Inl e) \<Rightarrow> Some (Inl e)
       | Some (Inr cpu) \<Rightarrow> (case readCPUCount stat3 of
           Inl e \<Rightarrow> Some (Inl e)
         | Inr n \<Rightarrow> Some (Inr \<lparr>TotalMemoryBytes = mi_total mem, AvailableMemoryBytes = mi_available mem, CPUIdle = cpu, CPUCount = n\<rparr>))))"

section \<open>Lemmas\<close>

text \<open>The kernel's formats.\<close>

definition mem_line :: "string \<Rightarrow> nat \<Rightarrow> string" where
  "mem_line key kb = key @ '':       '' @ itoa_nat kb @ '' kB''"

definition cpu_line :: "nat list \<Rightarrow> string" where
  "cpu_line ns = ''cpu '' @ concat (map (\<lambda>n. '' '' @ itoa_nat n) ns)"

lemma is_word_colon: "is_word key \<Longrightarrow> is_word (key @ '':'')"
  by (simp add: is_word_def is_space_def)

lemma mem_line_fields: "is_word key \<Longrightarrow> go_fields (mem_line key kb) = [key @ '':'', itoa_nat kb, ''kB'']"
proof -
  assume k: "is_word key"
  have kB: "is_word ''kB''" by (simp add: is_word_def is_space_def)
  have "mem_line key kb = (key @ '':'') @ CHR '' '' # CHR '' '' # CHR '' '' # CHR '' '' # CHR '' '' # CHR '' '' # CHR '' '' #
      (itoa_nat kb @ CHR '' '' # ''kB'')" by (simp add: mem_line_def)
  then show ?thesis
    using k kB by (simp add: go_fields_Cons is_word_colon go_fields_space go_fields_word del: append_assoc)
qed

lemma cpu_line_fields: "ns \<noteq> [] \<Longrightarrow> go_fields (cpu_line ns) = ''cpu'' # map itoa_nat ns"
proof -
  have tail: "go_fields (concat (map (\<lambda>n. '' '' @ itoa_nat n) ns)) = map itoa_nat ns" for ns
  proof (induction ns)
    case (Cons n ns)
    show ?case
    proof (cases ns)
      case Nil
      then show ?thesis by (simp add: go_fields_space go_fields_word)
    next
      case (Cons m ms)
      let ?rest = "itoa_nat m @ concat (map (\<lambda>n. '' '' @ itoa_nat n) ms)"
      have "go_fields (concat (map (\<lambda>n. '' '' @ itoa_nat n) (n # ns))) = go_fields (itoa_nat n @ CHR '' '' # ?rest)"
        using Cons by (simp add: go_fields_space)
      also have "\<dots> = itoa_nat n # go_fields (CHR '' '' # ?rest)" by (simp add: go_fields_Cons go_fields_space)
      finally show ?thesis using Cons.IH \<open>ns = m # ms\<close> by simp
    qed
  qed (simp add: go_fields_def)
  have "is_word ''cpu''" by (simp add: is_word_def is_space_def)
  then show "ns \<noteq> [] \<Longrightarrow> ?thesis"
    using tail [of ns] go_fields_Cons [of "''cpu''" "CHR '' ''"] by (simp add: cpu_line_def)
qed

text \<open>Counters that only grow.\<close>

definition grows :: "cpu_stat \<Rightarrow> cpu_stat \<Rightarrow> bool" where
  "grows a b \<longleftrightarrow> 0 \<le> cs_user a \<and> cs_user a \<le> cs_user b \<and> 0 \<le> cs_nice a \<and> cs_nice a \<le> cs_nice b \<and>
     0 \<le> cs_system a \<and> cs_system a \<le> cs_system b \<and> 0 \<le> cs_idle a \<and> cs_idle a \<le> cs_idle b \<and>
     0 \<le> cs_iowait a \<and> cs_iowait a \<le> cs_iowait b \<and> 0 \<le> cs_irq a \<and> cs_irq a \<le> cs_irq b \<and>
     0 \<le> cs_softirq a \<and> cs_softirq a \<le> cs_softirq b \<and> 0 \<le> cs_steal a \<and> cs_steal a \<le> cs_steal b \<and>
     cs_user b + cs_nice b + cs_system b + cs_idle b + cs_iowait b + cs_irq b + cs_softirq b + cs_steal b < 2 ^ 63"

lemma idle_fraction_range: "grows a b \<Longrightarrow> 0 \<le> idle_fraction a b \<and> idle_fraction a b \<le> 1"
proof -
  assume g: "grows a b"
  let ?t = "\<lambda>s. cs_user s + cs_nice s + cs_system s + cs_idle s + cs_iowait s + cs_irq s + cs_softirq s + cs_steal s"
  let ?i = "\<lambda>s. cs_idle s + cs_iowait s"
  have "wrap64 (?t a) = ?t a" "wrap64 (?t b) = ?t b" "wrap64 (?i a) = ?i a" "wrap64 (?i b) = ?i b"
    "wrap64 (?t b - ?t a) = ?t b - ?t a" "wrap64 (?i b - ?i a) = ?i b - ?i a"
    using g by (auto intro!: wrap64_id simp: grows_def)
  then have "idle_fraction a b = (if ?t b - ?t a \<le> 0 then 1 else real_of_int (?i b - ?i a) / real_of_int (?t b - ?t a))"
    by (simp add: idle_fraction_def cs_total_def cs_idleTotal_def)
  moreover have "0 \<le> ?i b - ?i a" "?i b - ?i a \<le> ?t b - ?t a" using g by (auto simp: grows_def)
  ultimately show ?thesis by (auto simp: divide_le_eq_1 of_int_le_iff simp del: of_int_diff of_int_add)
qed

lemma scan_first:
  assumes "CHR 0x0A \<notin> set l" and "CHR 0x0D \<notin> set l" and "length l < 65536"
  shows "scan_lines (l @ CHR 0x0A # rest) = (l # fst (scan_lines rest), snd (scan_lines rest))"
proof -
  obtain m ms where m: "split_on (CHR 0x0A) rest = m # ms" by (cases "split_on (CHR 0x0A) rest") auto
  with assms show ?thesis by (simp add: scan_lines_def split_on_append drop_cr_plain split: prod.splits)
qed

lemma itoa_no_newline: "CHR 0x0A \<notin> set (itoa_nat n)" "CHR 0x0D \<notin> set (itoa_nat n)"
  using itoa_nat_digits [of n] by (auto simp: list_all_iff is_digit_def)

lemma mem_line_plain: "\<lbrakk>CHR 0x0A \<notin> set key; CHR 0x0D \<notin> set key\<rbrakk> \<Longrightarrow> CHR 0x0A \<notin> set (mem_line key kb) \<and> CHR 0x0D \<notin> set (mem_line key kb)"
  by (simp add: mem_line_def itoa_no_newline)

lemma cpu_line_plain: "CHR 0x0A \<notin> set (cpu_line ns) \<and> CHR 0x0D \<notin> set (cpu_line ns)"
  by (simp add: cpu_line_def itoa_no_newline)

text \<open>The statistics of a \<open>cpu\<close> line with at least eight counters.\<close>

definition stat_of :: "nat list \<Rightarrow> cpu_stat" where
  "stat_of ns = \<lparr>cs_user = int (ns ! 0), cs_nice = int (ns ! 1), cs_system = int (ns ! 2), cs_idle = int (ns ! 3),
     cs_iowait = int (ns ! 4), cs_irq = int (ns ! 5), cs_softirq = int (ns ! 6), cs_steal = int (ns ! 7)\<rparr>"

lemma readCPUStat_line:
  assumes "8 \<le> length ns" and "\<And>n. n \<in> set ns \<Longrightarrow> int n < 2 ^ 63" and "length (cpu_line ns) < 65536"
  shows "readCPUStat (Some (cpu_line ns @ CHR 0x0A # rest)) = Some (Inr (stat_of ns))"
proof -
  have f: "go_fields (cpu_line ns) = ''cpu'' # map itoa_nat ns" using assms(1) by (intro cpu_line_fields) auto
  have p: "snd (ParseInt64 (itoa_nat (ns ! i))) = int (ns ! i)" if "i < 8" for i
    using assms(1,2) that ParseInt64_itoa [of "ns ! i"] by simp
  have m: "snd (ParseInt64 (map itoa_nat ns ! i)) = int (ns ! i)" if "i < 8" for i
    using that assms(1) p [OF that] by (subst nth_map) simp_all
  have "has_prefix ''cpu '' (cpu_line ns)" by (simp add: cpu_line_def has_prefix_def)
  with f m assms(1,3) cpu_line_plain show ?thesis
    by (simp add: readCPUStat_def scan_first cpu_of_fields_def stat_of_def Let_def nth_Cons' del: nth_map)
qed

section \<open>Properties\<close>



text \<open>
  The memory figures of a file in the kernel's format, in bytes; lines after \<open>MemAvailable\<close> do not
  matter, except that the next one is scanned and has to fit the scanner's buffer.
\<close>

theorem meminfo_reads_kernel_format:
  assumes "int t < 2 ^ 53" and "int a < 2 ^ 53" and "length (mem_line ''MemTotal'' t) < 65536"
    and "length (mem_line ''MemFree'' f) < 65536" and "length (mem_line ''MemAvailable'' a) < 65536"
    and "int f < 2 ^ 53" and "\<not> (fst (scan_lines rest) = [] \<and> snd (scan_lines rest))"
  shows "readMemInfo (Some (mem_line ''MemTotal'' t @ CHR 0x0A # mem_line ''MemFree'' f @ CHR 0x0A #
      mem_line ''MemAvailable'' a @ CHR 0x0A # rest)) = Inr \<lparr>mi_total = int t * 1024, mi_available = int a * 1024\<rparr>"
proof -
  have w: "wrap64 (int t * 1024) = int t * 1024" "wrap64 (int a * 1024) = int a * 1024"
    using assms(1,2) by (auto intro!: wrap64_id)
  have words: "is_word ''MemTotal''" "is_word ''MemFree''" "is_word ''MemAvailable''"
    by (simp_all add: is_word_def is_space_def)
  have lines: "CHR 0x0A \<notin> set (mem_line k n) \<and> CHR 0x0D \<notin> set (mem_line k n)" if "k \<in> {''MemTotal'', ''MemFree'', ''MemAvailable''}" for k n
    using that by (intro mem_line_plain) auto
  have end_ok: "mem_loop (fst (scan_lines rest)) (snd (scan_lines rest)) (Suc (Suc 0)) i = Inr i" for i
    using assms(7) by (cases "fst (scan_lines rest)") auto
  show ?thesis
    using assms(1-6) w lines end_ok
    by (simp add: readMemInfo_def scan_first mem_line_fields words ParseInt64_itoa trim_suffix_def Let_def)
qed

text \<open>A \<open>cpu\<close> line of five to eight fields passes the length check and then panics.\<close>

theorem cpu_stat_panics: "readCPUStat (Some (cpu_line [1, 2, 3, 4, 5] @ [CHR 0x0A])) = None"
proof -
  have "length (cpu_line [1, 2, 3, 4, 5]) < 65536" by (simp add: cpu_line_def itoa_nat.simps)
  moreover have "has_prefix ''cpu '' (cpu_line [1, 2, 3, 4, 5])" by (simp add: cpu_line_def has_prefix_def)
  ultimately show ?thesis
    using cpu_line_plain [of "[1, 2, 3, 4, 5]"]
    by (simp add: readCPUStat_def scan_first cpu_line_fields cpu_of_fields_def)
qed

end
