(* ===== verification/Cli_Init.thy ===== *)
theory Cli_Init
  imports Host_Bootstrap Daemon Observer
begin

text \<open>
  \<open>herd init\<close>, \<open>cmd/herd/init.go\<close>: the choice of binaries and kernel, the downloads, the resource
  limits, the configuration that is written, and the set-up of storage and network.  Standard
  input is a list of lines (at its end every read gives the empty line).  The answers of web
  servers, the architecture, the YAML encoder and the scanner of decimal fractions are arguments.
\<close>

section \<open>Prompts\<close>

definition read_input :: "string list \<Rightarrow> string \<times> string list" where
  "read_input ls = (case ls of [] \<Rightarrow> ('''', []) | l # ls' \<Rightarrow> (trim_space l, ls'))"

definition promptString :: "string \<Rightarrow> string list \<Rightarrow> string \<times> string list" where
  "promptString dflt ls = (case read_input ls of (i, ls') \<Rightarrow> (if i = '''' then dflt else i, ls'))"

text \<open>The loop of the numeric prompts: it ends at the first empty or readable line.\<close>

fun prompt_number :: "(string \<Rightarrow> 'n option) \<Rightarrow> 'n \<Rightarrow> string list \<Rightarrow> 'n \<times> string list" where
  "prompt_number scan_n dflt [] = (dflt, [])"
| "prompt_number scan_n dflt (l # ls) =
     (if trim_space l = '''' then (dflt, ls)
      else (case scan_n (trim_space l) of Some v \<Rightarrow> (v, ls) | None \<Rightarrow> prompt_number scan_n dflt ls))"

definition promptInt :: "int \<Rightarrow> string list \<Rightarrow> int \<times> string list" where
  "promptInt dflt = prompt_number sscanf_d dflt"

fun promptConfirm :: "bool \<Rightarrow> string list \<Rightarrow> bool \<times> string list" where
  "promptConfirm dflt [] = (dflt, [])"
| "promptConfirm dflt (l # ls) =
     (let i = trim_space (to_lower l) in
      if i = '''' then (dflt, ls)
      else if i = ''y'' \<or> i = ''yes'' then (True, ls)
      else if i = ''n'' \<or> i = ''no'' then (False, ls)
      else promptConfirm dflt ls)"

section \<open>Downloads\<close>

text \<open>A web server as \<open>init\<close> sees it: the status, whether the body is a gzip stream, and the names in its archive.\<close>

record web =
  w_status :: "string \<Rightarrow> int"
  w_gzip :: "string \<Rightarrow> host_err option"
  w_entries :: "string \<Rightarrow> string list \<times> host_err option"

datatype init_error =
    NotRoot
  | NoHome
  | MakeDir string host_err
  | HttpFailed string host_err
  | BadStatus string int
  | GzipFailed host_err
  | TarFailed host_err
  | ExtractFailed string host_err
  | NotInArchive string
  | SaveFailed string host_err
  | SystemInfo obs_error
  | MarshalFailed
  | WriteConfigFile host_err
  | StorageSetup boot_error
  | NetworkSetup nat_error

definition http_get :: "host \<Rightarrow> web \<Rightarrow> string \<Rightarrow> (trace, init_error, unit) action" where
  "http_get h w url =
     thenE (wrapE (HttpFailed url) (perform h (HttpGet url)))
           (if w_status w url \<noteq> 200 then failE (BadStatus url (w_status w url)) else returnE ())"

definition extractBinaryFromTar :: "host \<Rightarrow> string \<Rightarrow> string \<Rightarrow> (trace, host_err, unit) action" where
  "extractBinaryFromTar h entry outputPath =
     thenE (perform h (CreateFile outputPath))
           (deferE (perform h (CloseFile outputPath))
             (thenE (perform h (CopyFile entry outputPath)) (perform h (ChmodFile outputPath 493))))"

definition is_firecracker_entry :: "string \<Rightarrow> bool" where
  "is_firecracker_entry n \<longleftrightarrow> contains_str ''firecracker-v'' n \<and> \<not> contains_str ''.debug'' n \<and> \<not> contains_str ''jailer'' n"

definition is_jailer_entry :: "string \<Rightarrow> bool" where
  "is_jailer_entry n \<longleftrightarrow> contains_str ''jailer-v'' n \<and> \<not> contains_str ''.debug'' n"

fun extract_loop :: "host \<Rightarrow> string \<Rightarrow> string \<Rightarrow> string list \<Rightarrow> host_err option \<Rightarrow> bool \<Rightarrow> bool \<Rightarrow> (trace, init_error, bool \<times> bool) action" where
  "extract_loop h fcOut jailerOut [] err fc jl = (case err of None \<Rightarrow> returnE (fc, jl) | Some e \<Rightarrow> failE (TarFailed e))"
| "extract_loop h fcOut jailerOut (n # ns) err fc jl =
     (let go = (\<lambda>fc jl. if fc \<and> jl then returnE (fc, jl) else extract_loop h fcOut jailerOut ns err fc jl) in
      if is_firecracker_entry n then thenE (wrapE (ExtractFailed ''firecracker'') (extractBinaryFromTar h n fcOut)) (go True jl)
      else if is_jailer_entry n then thenE (wrapE (ExtractFailed ''jailer'') (extractBinaryFromTar h n jailerOut)) (go fc True)
      else go fc jl)"

text \<open>The architecture names of the release; the first case is spelled as in the source.\<close>

definition release_arch :: "string \<Rightarrow> string" where
  "release_arch goarch = (if goarch = ''amd4'' then ''x86_64'' else if goarch = ''arm64'' then ''aarch64'' else goarch)"

definition firecracker_url :: "string \<Rightarrow> string" where
  "firecracker_url goarch =
     ''https://github.com/firecracker-microvm/firecracker/releases/download/v1.14.3/firecracker-v1.14.3-'' @ release_arch goarch @ ''.tgz''"

definition downloadFirecrackerAndJailer :: "host \<Rightarrow> web \<Rightarrow> string \<Rightarrow> string \<Rightarrow> string \<Rightarrow> (trace, init_error, unit) action" where
  "downloadFirecrackerAndJailer h w goarch fcOutputPath jailerOutputPath =
     (let url = firecracker_url goarch in
      thenE (http_get h w url)
     (thenE (case w_gzip w url of None \<Rightarrow> returnE () | Some e \<Rightarrow> failE (GzipFailed e))
     (bindE (case w_entries w url of (ns, err) \<Rightarrow> extract_loop h fcOutputPath jailerOutputPath ns err False False) (\<lambda>(fc, jl).
      if \<not> fc then failE (NotInArchive ''firecracker'') else if \<not> jl then failE (NotInArchive ''jailer'') else returnE ()))))"

definition Version :: string where
  "Version = ''v0.5.5''"

definition downloadGuestAgent :: "host \<Rightarrow> web \<Rightarrow> string \<Rightarrow> string \<Rightarrow> (trace, init_error, unit) action" where
  "downloadGuestAgent h w goarch path =
     (let url = ''https://github.com/herd-core/herd/releases/download/'' @ Version @ ''/herd-guest-agent-linux-'' @ goarch in
      thenE (http_get h w url)
     (wrapE (SaveFailed path) (thenE (perform h (CreateFile path))
       (deferE (perform h (CloseFile path)) (thenE (perform h (CopyFile url path)) (perform h (ChmodFile path 493)))))))"

definition downloadKernel :: "host \<Rightarrow> web \<Rightarrow> string \<Rightarrow> (trace, init_error, unit) action" where
  "downloadKernel h w path =
     (let url = ''https://github.com/herd-core/herd/releases/download/'' @ Version @ ''/vmlinux-v6.1.bin'' in
      thenE (http_get h w url)
     (wrapE (SaveFailed path) (thenE (perform h (CreateFile path))
       (deferE (perform h (CloseFile path)) (perform h (CopyFile url path))))))"

section \<open>The steps of init\<close>

record init_flags =
  autoYes :: bool
  fcBinaryPath :: string
  jailerBinPath :: string
  kernelImgPath :: string
  chrootBase :: string
  maxGlobalVMs :: int
  maxGlobalMemMB :: int
  cpuLimitCores :: real
  cloudEndpoint :: string
  machineToken :: string

record machine =
  m_root :: bool
  m_home :: "string option"
  m_arch :: string
  m_cores :: int
  m_meminfo :: "string option"
  m_web :: web

record init_state =
  in_trace :: trace
  in_lines :: "string list"

definition in_do :: "(trace, 'e, 'a) action \<Rightarrow> (init_state, 'e, 'a) action" where
  "in_do m s = (case m (in_trace s) of (r, tr) \<Rightarrow> (r, s\<lparr>in_trace := tr\<rparr>))"

definition ask :: "(string list \<Rightarrow> 'a \<times> string list) \<Rightarrow> (init_state, 'e, 'a) action" where
  "ask p s = (case p (in_lines s) of (x, ls) \<Rightarrow> (Inr x, s\<lparr>in_lines := ls\<rparr>))"

text \<open>\<open>os.IsNotExist(err)\<close> after \<open>os.Stat\<close>.\<close>

definition missing :: "host \<Rightarrow> string \<Rightarrow> (trace, init_error, bool) action" where
  "missing h path = bindE (tryE (perform h (StatFile path))) (\<lambda>r. returnE (r = Inl NotFound))"

definition choose_binaries :: "host \<Rightarrow> machine \<Rightarrow> init_flags \<Rightarrow> string \<Rightarrow> (init_state, init_error, string \<times> string) action" where
  "choose_binaries h mc fl binDir =
     (let fcPath = path_Join [binDir, ''firecracker'']; jailerPath = path_Join [binDir, ''jailer''];
          download = in_do (downloadFirecrackerAndJailer h (m_web mc) (m_arch mc) fcPath jailerPath)
      in if fcBinaryPath fl \<noteq> '''' \<and> jailerBinPath fl \<noteq> '''' then returnE (fcBinaryPath fl, jailerBinPath fl)
         else if autoYes fl then
           bindE (in_do (missing h fcPath)) (\<lambda>m1.
           if m1 then thenE download (returnE (fcPath, jailerPath))
           else bindE (in_do (missing h jailerPath)) (\<lambda>m2.
             if m2 then thenE download (returnE (fcPath, jailerPath)) else returnE (fcPath, jailerPath)))
         else bindE (ask (promptConfirm False)) (\<lambda>useExisting.
           if useExisting then
             bindE (ask (promptString ''/usr/local/bin/firecracker'')) (\<lambda>fc.
             bindE (ask (promptString ''/usr/local/bin/jailer'')) (\<lambda>jl. returnE (fc, jl)))
           else thenE download (returnE (fcPath, jailerPath))))"

definition choose_kernel :: "host \<Rightarrow> machine \<Rightarrow> init_flags \<Rightarrow> string \<Rightarrow> (init_state, init_error, string) action" where
  "choose_kernel h mc fl stateDir =
     (let kernelPath = path_Join [stateDir, ''vmlinux-v6.1.bin''];
          download = in_do (downloadKernel h (m_web mc) kernelPath)
      in if kernelImgPath fl \<noteq> '''' then returnE (kernelImgPath fl)
         else if autoYes fl then
           bindE (in_do (missing h kernelPath)) (\<lambda>m. thenE (if m then download else returnE ()) (returnE kernelPath))
         else bindE (ask (promptConfirm False)) (\<lambda>useExisting.
           if useExisting then ask (promptString '''') else thenE download (returnE kernelPath)))"

definition choose_chroot :: "host \<Rightarrow> init_flags \<Rightarrow> (init_state, init_error, string) action" where
  "choose_chroot h fl =
     bindE (if autoYes fl then returnE (chrootBase fl) else ask (promptString ''/srv/jailer'')) (\<lambda>d.
     thenE (wrapE (MakeDir d) (in_do (perform h (MkdirAll d)))) (returnE d))"

text \<open>
  Eight tenths of the memory: the product with the double nearest to 0.8, cut to an integer, is
  this quotient for every total from 0 to \<open>2 ^ 50\<close>.
\<close>

definition default_mem :: "int \<Rightarrow> int" where
  "default_mem mb = 4 * mb div 5"

definition default_cpu :: "int \<Rightarrow> real" where
  "default_cpu cores = (if real_of_int cores - 1 < 1 then 1 else real_of_int cores - 1)"

definition choose_limits :: "(string \<Rightarrow> real option) \<Rightarrow> init_flags \<Rightarrow> sys_info \<Rightarrow> (init_state, init_error, resource_config) action" where
  "choose_limits scan_f fl si =
     (let dVMs = si_CPUCores si * 4; dMem = default_mem (si_TotalMemoryMB si); dCPU = default_cpu (si_CPUCores si) in
      if autoYes fl then
        returnE \<lparr>MaxGlobalVMs = (if maxGlobalVMs fl > 0 then maxGlobalVMs fl else dVMs),
          MaxGlobalMemoryMB = (if maxGlobalMemMB fl > 0 then maxGlobalMemMB fl else dMem),
          CPULimitCores = (if cpuLimitCores fl > 0 then cpuLimitCores fl else dCPU)\<rparr>
      else
        bindE (ask (promptInt dVMs)) (\<lambda>vms.
        bindE (ask (promptInt dMem)) (\<lambda>mem.
        bindE (ask (prompt_number scan_f dCPU)) (\<lambda>cpu.
        returnE \<lparr>MaxGlobalVMs = vms, MaxGlobalMemoryMB = mem, CPULimitCores = cpu\<rparr>))))"

definition init_config :: "init_flags \<Rightarrow> string \<Rightarrow> string \<Rightarrow> string \<Rightarrow> string \<Rightarrow> string \<Rightarrow> string \<Rightarrow> resource_config \<Rightarrow> herd_config" where
  "init_config fl stateDir fcPath jailerPath kernelPath agentPath chrootBaseDir limits =
     \<lparr>cfg_Network = \<lparr>ControlBind = ''127.0.0.1:8081'', DataBind = ''127.0.0.1:8080'', EphemeralPortStart = 10000, EphemeralPortEnd = 39999\<rparr>,
      cfg_Storage = \<lparr>StateDir = stateDir, SnapshotterName = ''devmapper'', Namespace = ''herd''\<rparr>,
      cfg_Resources = limits,
      cfg_Binaries = \<lparr>bin_FirecrackerPath = fcPath, bin_JailerPath = jailerPath, bin_KernelImagePath = kernelPath, bin_GuestAgentPath = agentPath\<rparr>,
      cfg_Jailer = \<lparr>UIDPoolStart = 300000, UIDPoolSize = 200, ChrootBaseDir = chrootBaseDir\<rparr>,
      cfg_Telemetry = \<lparr>LogFormat = ''json'', MetricsPath = ''/metrics''\<rparr>,
      cfg_Cloud = \<lparr>cloud_Enabled = (cloudEndpoint fl \<noteq> '''' \<and> machineToken fl \<noteq> ''''), cloud_Endpoint = cloudEndpoint fl,
        cloud_MachineToken = machineToken fl, cloud_NodeKey = '''', cloud_NodeKeyPath = '''', cloud_NodeID = '''', cloud_Interface = ''''\<rparr>\<rparr>"

definition save_and_bootstrap :: "host \<Rightarrow> (trace \<Rightarrow> call \<Rightarrow> string) \<Rightarrow> (herd_config \<Rightarrow> string option) \<Rightarrow> string \<Rightarrow> herd_config \<Rightarrow>
    (init_state, init_error, herd_config) action" where
  "save_and_bootstrap h out marshal herdDir cfg = (case marshal cfg of
       None \<Rightarrow> failE MarshalFailed
     | Some data \<Rightarrow>
         thenE (wrapE WriteConfigFile (in_do (perform h (WriteFile (path_Join [herdDir, ''herd.yaml'']) data))))
        (thenE (wrapE StorageSetup (in_do (bootstrap_storage h out (StateDir (cfg_Storage cfg)))))
        (thenE (wrapE NetworkSetup (in_do (Bootstrap h)))
               (returnE cfg))))"

text \<open>From the guest agent on, with the binaries chosen.\<close>

definition init_rest :: "host \<Rightarrow> (trace \<Rightarrow> call \<Rightarrow> string) \<Rightarrow> (herd_config \<Rightarrow> string option) \<Rightarrow> (string \<Rightarrow> real option) \<Rightarrow> machine \<Rightarrow> init_flags \<Rightarrow>
    string \<Rightarrow> string \<Rightarrow> string \<Rightarrow> (init_state, init_error, herd_config) action" where
  "init_rest h out marshal scan_f mc fl herdDir fcPath jailerPath =
     (let stateDir = path_Join [herdDir, ''state'']; agentPath = path_Join [path_Join [herdDir, ''bin''], ''herd-guest-agent''] in
      bindE (in_do (missing h agentPath)) (\<lambda>m.
      thenE (if m then in_do (downloadGuestAgent h (m_web mc) (m_arch mc) agentPath) else returnE ())
     (bindE (choose_kernel h mc fl stateDir) (\<lambda>kernelPath.
      bindE (choose_chroot h fl) (\<lambda>chrootBaseDir.
      case GetInfo (m_cores mc) (m_meminfo mc) of
        Inl e \<Rightarrow> failE (SystemInfo e)
      | Inr si \<Rightarrow> bindE (choose_limits scan_f fl si) (\<lambda>limits.
          save_and_bootstrap h out marshal herdDir
            (init_config fl stateDir fcPath jailerPath kernelPath agentPath chrootBaseDir limits)))))))"

definition runInit :: "host \<Rightarrow> (trace \<Rightarrow> call \<Rightarrow> string) \<Rightarrow> (herd_config \<Rightarrow> string option) \<Rightarrow> (string \<Rightarrow> real option) \<Rightarrow> machine \<Rightarrow> init_flags \<Rightarrow>
    (init_state, init_error, herd_config) action" where
  "runInit h out marshal scan_f mc fl =
     (if \<not> m_root mc then failE NotRoot
      else (case m_home mc of None \<Rightarrow> failE NoHome | Some homeDir \<Rightarrow>
        (let herdDir = path_Join [homeDir, ''.herd'']; binDir = path_Join [herdDir, ''bin'']; stateDir = path_Join [herdDir, ''state'']
         in thenE (wrapE (MakeDir binDir) (in_do (perform h (MkdirAll binDir))))
           (thenE (wrapE (MakeDir stateDir) (in_do (perform h (MkdirAll stateDir))))
           (bindE (choose_binaries h mc fl binDir) (\<lambda>(fcPath, jailerPath).
            init_rest h out marshal scan_f mc fl herdDir fcPath jailerPath))))))"

section \<open>What init writes\<close>

text \<open>\<open>gives P m\<close>: whenever \<open>m\<close> succeeds, its result satisfies \<open>P\<close>.\<close>

definition gives :: "('a \<Rightarrow> bool) \<Rightarrow> ('s, 'e, 'a) action \<Rightarrow> bool" where
  "gives P m \<longleftrightarrow> (\<forall>s x s'. m s = (Inr x, s') \<longrightarrow> P x)"

lemma givesD: "gives P m \<Longrightarrow> m s = (Inr x, s') \<Longrightarrow> P x"
  by (auto simp: gives_def)

lemma gives_True [simp]: "gives (\<lambda>_. True) m"
  by (simp add: gives_def)

lemma gives_return [simp]: "gives P (returnE x) = P x"
  by (auto simp: gives_def returnE_def)

lemma gives_fail [simp]: "gives P (failE e)"
  by (simp add: gives_def failE_def)

lemma gives_bind:
  assumes "gives Q m" and "\<And>x. Q x \<Longrightarrow> gives P (k x)"
  shows "gives P (bindE m k)"
  using assms by (fastforce simp: gives_def bindE_def split: prod.splits sum.splits)

lemma gives_bind_any: "(\<And>x. gives P (k x)) \<Longrightarrow> gives P (bindE m k)"
  by (rule gives_bind [where Q = "\<lambda>_. True"]) simp_all

lemma gives_then: "gives P k \<Longrightarrow> gives P (thenE m k)"
  unfolding thenE_def by (rule gives_bind_any)

lemma path_Join_ne: "a \<noteq> [] \<Longrightarrow> path_Join [d, a] \<noteq> []"
  by (simp add: path_Clean_def Let_def)

lemma gives_binaries:
  assumes "autoYes fl"
  shows "gives (\<lambda>(fc, jl). fc \<noteq> '''' \<and> jl \<noteq> '''') (choose_binaries h mc fl d)"
  using path_Join_ne [of "''firecracker''" d] path_Join_ne [of "''jailer''" d] assms
  by (auto simp: choose_binaries_def Let_def simp del: path_Join.simps intro!: gives_bind_any gives_then)

lemma gives_kernel:
  assumes "autoYes fl"
  shows "gives (\<lambda>k. k \<noteq> '''') (choose_kernel h mc fl d)"
  using path_Join_ne [of "''vmlinux-v6.1.bin''" d] assms
  by (auto simp: choose_kernel_def Let_def simp del: path_Join.simps intro!: gives_bind_any gives_then)

lemma gives_chroot: "autoYes fl \<Longrightarrow> gives (\<lambda>d. d = chrootBase fl) (choose_chroot h fl)"
  by (auto simp: choose_chroot_def intro!: gives_bind [where Q = "\<lambda>d. d = chrootBase fl"] gives_then)

lemma default_limits:
  assumes "1 \<le> si_CPUCores si" and "2 \<le> si_TotalMemoryMB si" and "autoYes fl"
  shows "gives (\<lambda>r. 1 \<le> MaxGlobalVMs r \<and> 1 \<le> MaxGlobalMemoryMB r \<and> 0 \<le> CPULimitCores r) (choose_limits scan_f fl si)"
  using assms by (auto simp: choose_limits_def default_mem_def default_cpu_def Let_def)

lemma init_binds: "loopback_bind ''127.0.0.1:8081''" "loopback_bind ''127.0.0.1:8080''"
proof -
  have "validateDataBind ''127.0.0.1:8081'' = None" "validateDataBind ''127.0.0.1:8080'' = None" by code_simp+
  then show "loopback_bind ''127.0.0.1:8081''" "loopback_bind ''127.0.0.1:8080''" by (simp_all add: validateDataBind_iff)
qed

lemma init_config_valid:
  assumes "fc \<noteq> ''''" "jl \<noteq> ''''" "kp \<noteq> ''''" "ap \<noteq> ''''" "cd \<noteq> ''''"
    and "1 \<le> MaxGlobalVMs r" "1 \<le> MaxGlobalMemoryMB r" "0 \<le> CPULimitCores r"
  shows "valid_config (applyDefaults home (init_config fl sd fc jl kp ap cd r))"
  using assms init_binds by (simp add: init_config_def applyDefaults_def Let_def valid_config_def has_prefix_def)

text \<open>What \<open>init\<close> fixes whatever it is told.\<close>

definition init_fixed :: "string \<Rightarrow> herd_config \<Rightarrow> bool" where
  "init_fixed stateDir c \<longleftrightarrow> StateDir (cfg_Storage c) = stateDir \<and> ControlBind (cfg_Network c) = ''127.0.0.1:8081'' \<and>
     DataBind (cfg_Network c) = ''127.0.0.1:8080'' \<and> MetricsPath (cfg_Telemetry c) = ''/metrics''"

lemma init_config_fixed: "init_fixed sd (init_config fl sd fc jl kp ap cd r)"
  by (simp add: init_config_def init_fixed_def)

lemma gives_mono: "gives Q m \<Longrightarrow> (\<And>x. Q x \<Longrightarrow> P x) \<Longrightarrow> gives P m"
  unfolding gives_def by blast

lemma gives_save: "gives (\<lambda>c. c = cfg \<and> marshal cfg \<noteq> None) (save_and_bootstrap h out marshal d cfg)"
  by (auto simp: save_and_bootstrap_def intro!: gives_then split: option.splits)

text \<open>Whatever path \<open>init --yes\<close> takes, the configuration it has written is accepted once the defaults are filled in.\<close>

lemma init_yes_valid:
  assumes "autoYes fl" and "chrootBase fl \<noteq> ''''" and "GetInfo (m_cores mc) (m_meminfo mc) = Inr si"
    and "1 \<le> si_CPUCores si" and "2 \<le> si_TotalMemoryMB si" and "m_home mc = Some homeDir"
  shows "gives (\<lambda>c. valid_config (applyDefaults home c) \<and> marshal c \<noteq> None \<and>
      init_fixed (path_Join [path_Join [homeDir, ''.herd''], ''state'']) c) (runInit h out marshal scan_f mc fl)"
proof -
  let ?hd = "path_Join [homeDir, ''.herd'']"
  let ?ap = "path_Join [path_Join [?hd, ''bin''], ''herd-guest-agent'']"
  let ?P = "\<lambda>c. valid_config (applyDefaults home c) \<and> marshal c \<noteq> None \<and> init_fixed (path_Join [?hd, ''state'']) c"
  have ap: "?ap \<noteq> ''''" by (rule path_Join_ne) simp
  have save: "gives ?P (save_and_bootstrap h out marshal ?hd (init_config fl (path_Join [?hd, ''state'']) fc jl kp ?ap cd r))"
    if "fc \<noteq> ''''" "jl \<noteq> ''''" "kp \<noteq> ''''" "cd \<noteq> ''''" "1 \<le> MaxGlobalVMs r" "1 \<le> MaxGlobalMemoryMB r" "0 \<le> CPULimitCores r" for fc jl kp cd r
    by (rule gives_mono [OF gives_save])
       (use init_config_valid [OF that(1-3) ap that(4-7), of home fl "path_Join [?hd, ''state'']"] init_config_fixed in metis)
  have limits: "gives ?P (bindE (choose_limits scan_f fl si) (\<lambda>limits.
      save_and_bootstrap h out marshal ?hd (init_config fl (path_Join [?hd, ''state'']) fc jl kp ?ap cd limits)))"
    if "fc \<noteq> ''''" "jl \<noteq> ''''" "kp \<noteq> ''''" "cd \<noteq> ''''" for fc jl kp cd
    by (rule gives_bind [OF default_limits [OF assms(4,5,1)]]) (use save [OF that] in blast)
  have rest: "gives ?P (init_rest h out marshal scan_f mc fl ?hd fc jl)" if "fc \<noteq> ''''" "jl \<noteq> ''''" for fc jl
    unfolding init_rest_def Let_def assms(3) sum.case
    by (rule gives_bind_any, rule gives_then, rule gives_bind [OF gives_kernel [OF assms(1)]], rule gives_bind [OF gives_chroot [OF assms(1)]])
       (rule limits; use that assms(2) in simp)
  have "gives ?P (case x of (fc, jl) \<Rightarrow> init_rest h out marshal scan_f mc fl ?hd fc jl)"
    if "case x of (fc, jl) \<Rightarrow> fc \<noteq> '''' \<and> jl \<noteq> ''''" for x
    using that rest by (cases x) (simp del: path_Join.simps)
  note bins = gives_bind [OF gives_binaries [OF assms(1)] this]
  show ?thesis
    unfolding runInit_def Let_def assms(6) option.case
    by (cases "m_root mc") (simp_all only: not_True_eq_False not_False_eq_True if_True if_False gives_fail gives_then bins)
qed

end
