(* ===== verification/Daemon_Safety.thy ===== *)
theory Daemon_Safety
  imports Daemon
begin

text \<open>
  The end-to-end invariant of the daemon: the sessions pinned in the pool, its worker list, the
  leases of the lifecycle manager, and the UIDs, addresses and ports of the factory tell one
  story.  It is established by the start-up with a validated configuration and kept by every
  control-plane call, every proxied request and every sweep.
\<close>

section \<open>Books of one resource\<close>

text \<open>
  \<open>held reg f S\<close>: the set \<open>S\<close> holds exactly the \<open>f\<close>-values of the pinned workers, a
  different one for each.
\<close>

definition held :: "('i \<rightharpoonup> 'w) \<Rightarrow> ('w \<Rightarrow> 'r) \<Rightarrow> 'r set \<Rightarrow> bool" where
  "held reg f S \<longleftrightarrow> S = {f w |i w. reg i = Some w} \<and>
     (\<forall>i j w v. reg i = Some w \<longrightarrow> reg j = Some v \<longrightarrow> f w = f v \<longrightarrow> i = j)"

lemma held_empty [simp]: "held Map.empty f S \<longleftrightarrow> S = {}"
  by (simp add: held_def)

lemma held_mem: "held reg f S \<Longrightarrow> reg i = Some w \<Longrightarrow> f w \<in> S"
  by (auto simp: held_def)

lemma held_unique: "held reg f S \<Longrightarrow> held reg f T \<Longrightarrow> S = T"
  by (simp add: held_def)

lemma held_add:
  assumes "held reg f S" and "reg i = None" and "f w \<notin> S"
  shows "held (reg(i \<mapsto> w)) f (insert (f w) S)"
proof -
  have "(\<exists>j v. x = f v \<and> (reg(i \<mapsto> w)) j = Some v) \<longleftrightarrow> x = f w \<or> (\<exists>j v. x = f v \<and> reg j = Some v)" for x
    using assms(2) by (metis fun_upd_other fun_upd_same option.distinct(1) option.inject)
  then have "{f v |j v. (reg(i \<mapsto> w)) j = Some v} = insert (f w) S" using assms(1) by (auto simp: held_def)
  then show ?thesis using assms by (auto simp: held_def)
qed

lemma held_remove:
  assumes "held reg f S" and "reg i = Some w"
  shows "held (reg(i := None)) f (S - {f w})"
proof -
  have S: "S = {f w |i w. reg i = Some w}"
    and inj: "\<And>j v. reg j = Some v \<Longrightarrow> f v = f w \<Longrightarrow> j = i"
    using assms by (auto simp: held_def)
  have "(\<exists>j v. x = f v \<and> (reg(i := None)) j = Some v) \<longleftrightarrow> (\<exists>j v. x = f v \<and> reg j = Some v) \<and> x \<noteq> f w" for x
    using assms(2) inj by (metis fun_upd_other fun_upd_same option.distinct(1) option.inject)
  then have "{f v |j v. (reg(i := None)) j = Some v} = S - {f w}" unfolding S by auto
  then show ?thesis using assms(1) by (auto simp: held_def)
qed

section \<open>The factory's books\<close>

abbreviation uid_of :: "fc_worker worker \<Rightarrow> int" where
  "uid_of w \<equiv> fw_leasedUID (worker_obj w)"

abbreviation ip_of :: "fc_worker worker \<Rightarrow> string" where
  "ip_of w \<equiv> fw_guestIP (worker_obj w)"

abbreviation host_ports :: "fc_worker worker \<Rightarrow> int set" where
  "host_ports w \<equiv> HostPort ` set (fw_portMappings (worker_obj w))"

definition port_books :: "(sid \<rightharpoonup> fc_worker worker) \<Rightarrow> (int \<rightharpoonup> string) \<Rightarrow> bool" where
  "port_books reg m \<longleftrightarrow> (\<forall>p i. m p = Some i \<longleftrightarrow> (\<exists>w. reg i = Some w \<and> p \<in> host_ports w))"

definition fc_inv :: "(sid \<rightharpoonup> fc_worker worker) \<Rightarrow> fc_state \<Rightarrow> bool" where
  "fc_inv reg s \<longleftrightarrow> wf_factory s \<and> fs_ports s \<noteq> None \<and>
     (\<forall>i w. reg i = Some w \<longrightarrow> worker_ID w = i \<and> 0 < uid_of w \<and> ip_of w \<noteq> []) \<and>
     held reg uid_of (leased (fs_uids s)) \<and> held reg ip_of (ipam_used (fs_ipam s)) \<and> port_books reg (ports_map s)"

lemma fc_inv_free: "fc_inv reg s \<Longrightarrow> reg i = None \<Longrightarrow> ports_map s p \<noteq> Some i"
  by (auto simp: fc_inv_def port_books_def)

text \<open>The invariant depends on the books only.\<close>

lemma fc_inv_same: "fc_inv reg s \<Longrightarrow> same_books s' s \<Longrightarrow> wf_factory s' \<Longrightarrow> fc_inv reg s'"
  unfolding fc_inv_def same_books_def by metis

lemma triple_true: "triple (\<lambda>_. True) m (\<lambda>_ _. True) (\<lambda>_. True)"
  by (simp add: triple_def split: prod.splits sum.splits)

lemma spawn_body_id: "triple (\<lambda>_. True) (spawn_body h listen n nano f vm cfg) (\<lambda>w _. fw_id w = vm) (\<lambda>_. True)"
  unfolding spawn_body_def thenE_def case_prod_beta
  by (intro triple_bind [OF triple_true] triple_return) simp

lemma Spawn_id: "Spawn h listen n nano f vm cfg s = (Inr w, s') \<Longrightarrow> fw_id w = vm"
  using tripleD(1) [OF spawn_body_id] by (fastforce simp: Spawn_def split: prod.splits sum.splits)

lemma fc_inv_spawn:
  assumes inv: "fc_inv reg s" and new: "reg i = None" and sp: "Spawn h listen n nano f i cfg s = (Inr w, s')"
  shows "fc_inv (reg(i \<mapsto> \<lparr>worker_ID = fc_ID w, worker_obj = w\<rparr>)) s'"
proof -
  let ?w = "\<lparr>worker_ID = fc_ID w, worker_obj = w\<rparr>"
  have wf: "wf_factory s" using inv by (simp add: fc_inv_def)
  note eff = spawn_effect [OF wf fc_inv_free [OF inv new] sp]
  have some: "fs_ports s \<noteq> None" using inv by (simp add: fc_inv_def)
  have pb: "port_books reg (ports_map s)" using inv by (simp add: fc_inv_def)
  have "port_books (reg(i \<mapsto> ?w)) (ports_map s')"
    unfolding port_books_def
  proof (intro allI)
    fix p j
    have "ports_map s' p = (if p \<in> host_ports ?w then Some i else ports_map s p)"
      and "p \<in> host_ports ?w \<longrightarrow> ports_map s p = None" using eff some by simp_all
    then show "ports_map s' p = Some j \<longleftrightarrow> (\<exists>v. (reg(i \<mapsto> ?w)) j = Some v \<and> p \<in> host_ports v)"
      using pb [unfolded port_books_def, rule_format, of p j] new by (cases "p \<in> host_ports ?w"; cases "j = i") simp_all
  qed
  moreover have "held (reg(i \<mapsto> ?w)) uid_of (leased (fs_uids s'))"
    using held_add [of reg uid_of "leased (fs_uids s)" i ?w] inv new eff by (simp add: fc_inv_def)
  moreover have "held (reg(i \<mapsto> ?w)) ip_of (ipam_used (fs_ipam s'))"
    using held_add [of reg ip_of "ipam_used (fs_ipam s)" i ?w] inv new eff by (simp add: fc_inv_def)
  ultimately show ?thesis
    using eff inv some Spawn_id [OF sp] by (simp add: fc_inv_def fc_ID_def)
qed

lemma fs_ports_Close: "fs_ports (fc_Close h w s) = None \<longleftrightarrow> fs_ports s = None"
proof -
  have "fs_ports (close_mapping h w pm t) = None \<longleftrightarrow> fs_ports t = None" for pm t
    by (simp add: close_mapping_def port_give_def)
  then have "fs_ports (fold (close_mapping h w) pms t) = None \<longleftrightarrow> fs_ports t = None" for pms t
    by (induction pms arbitrary: t) simp_all
  then show ?thesis by (simp add: fc_Close_def Let_def)
qed

lemma fc_inv_close:
  assumes inv: "fc_inv reg s" and w: "reg i = Some w"
  shows "fc_inv (reg(i := None)) (fc_Close h (worker_obj w) s)"
proof -
  have wfu: "wf_uid_pool (fs_uids s)" and wfi: "wf_ipam (fs_ipam s)" using inv by (simp_all add: fc_inv_def wf_factory_def)
  have bu: "held reg uid_of (leased (fs_uids s))" and bi: "held reg ip_of (ipam_used (fs_ipam s))"
    and pb: "port_books reg (ports_map s)" using inv by (simp_all add: fc_inv_def)
  have "0 < uid_of w" "ip_of w \<noteq> []" using inv w unfolding fc_inv_def by blast+
  then have ne: "uid_of w \<noteq> 0" "ip_of w \<noteq> []" by simp_all
  note inu = held_mem [OF bu w] and ini = held_mem [OF bi w]
  have "port_books (reg(i := None)) (ports_map (fc_Close h (worker_obj w) s))"
    unfolding port_books_def
  proof (intro allI)
    fix p j
    have "p \<in> host_ports w \<Longrightarrow> ports_map s p = Some i" using pb w unfolding port_books_def by blast
    then show "ports_map (fc_Close h (worker_obj w) s) p = Some j \<longleftrightarrow> (\<exists>v. (reg(i := None)) j = Some v \<and> p \<in> host_ports v)"
      using pb [unfolded port_books_def, rule_format, of p j] w unfolding fc_Close_books
      by (cases "p \<in> host_ports w"; cases "j = i") auto
  qed
  then show ?thesis
    using inv ne uid_Return_wf [OF wfu inu] uid_Return_unleases [OF wfu inu] ips.give_inv [OF wfi ini] ips.give_used [OF wfi ini]
      held_remove [OF bu w] held_remove [OF bi w]
    by (simp add: fc_inv_def wf_factory_def fc_Close_books fs_ports_Close)
qed

section \<open>The pool's calls with the Firecracker factory\<close>

text \<open>The worker list of the pool is the list of the pinned workers.\<close>

definition workers_ok :: "fc_worker pool \<Rightarrow> bool" where
  "workers_ok p \<longleftrightarrow> distinct (map worker_ID (p_workers p)) \<and> set (p_workers p) = ran (p_registry p)"

definition core_inv :: "nat \<Rightarrow> fc_worker pool \<times> fc_state \<Rightarrow> bool" where
  "core_inv N pf \<longleftrightarrow> p_max (fst pf) = N \<and> idle_pool (fst pf) \<and> workers_ok (fst pf) \<and> fc_inv (p_registry (fst pf)) (snd pf)"

lemma remove_by_id_distinct:
  "distinct (map worker_ID ws) \<Longrightarrow> remove_by_id i ws = filter (\<lambda>w. worker_ID w \<noteq> i) ws"
  by (induction ws) (auto simp: image_iff intro!: filter_True [symmetric])

lemma ran_remove:
  assumes "\<And>i w. reg i = Some w \<Longrightarrow> worker_ID w = i"
  shows "ran (reg(i := None)) = {w \<in> ran reg. worker_ID w \<noteq> i}"
  using assms by (auto simp: ran_def)

lemma fc_inv_IDs: "fc_inv reg s \<Longrightarrow> reg i = Some w \<Longrightarrow> worker_ID w = i"
  by (simp add: fc_inv_def)

lemma kill_idle:
  assumes "idle_pool p"
  shows "\<exists>p'. pool_kill close s reason (p, f) = (None, p', case p_registry p s of None \<Rightarrow> f | Some w \<Rightarrow> close w f) \<and>
    p_registry p' = (p_registry p)(s := None) \<and> p_done p' = p_done p \<and> p_max p' = p_max p \<and>
    p_workers p' = (case p_registry p s of None \<Rightarrow> p_workers p | Some w \<Rightarrow> remove_by_id (worker_ID w) (p_workers p))"
  using assms card_dom_del [of "p_registry p" s]
  by (auto simp: pool_kill_def pool_KillWorker_def idle_pool_def kill_check_def registry_Get_def registry_Delete_def
      put_ticket_def removeWorker_def fun_upd_idem split: option.splits)

lemma core_kill:
  assumes inv: "core_inv N (p, f)"
  shows "\<exists>p' f'. pool_kill (fc_close e) s reason (p, f) = (None, p', f') \<and> core_inv N (p', f') \<and>
    p_registry p' = (p_registry p)(s := None) \<and> p_done p' = p_done p \<and> p_max p' = p_max p"
proof -
  have idle: "idle_pool p" and wk: "workers_ok p" and fc: "fc_inv (p_registry p) f" and N: "p_max p = N"
    using inv by (simp_all add: core_inv_def)
  obtain p' where k: "pool_kill (fc_close e) s reason (p, f) =
      (None, p', case p_registry p s of None \<Rightarrow> f | Some w \<Rightarrow> fc_close e w f)"
    and reg: "p_registry p' = (p_registry p)(s := None)" and rest: "p_done p' = p_done p" "p_max p' = p_max p"
    and ws: "p_workers p' = (case p_registry p s of None \<Rightarrow> p_workers p | Some w \<Rightarrow> remove_by_id (worker_ID w) (p_workers p))"
    using kill_idle [OF idle, of "fc_close e" s reason f] by (elim exE conjE)
  have "idle_pool p'" using pool_reaper.kill_inv [of "(p, f)" "fc_close e" s reason] idle k by simp
  moreover have "workers_ok p' \<and> fc_inv (p_registry p') (case p_registry p s of None \<Rightarrow> f | Some w \<Rightarrow> fc_close e w f)"
  proof (cases "p_registry p s")
    case None
    then have "(p_registry p)(s := None) = p_registry p" by (simp add: fun_upd_idem)
    with None wk fc show ?thesis by (simp add: workers_ok_def reg ws)
  next
    case (Some w)
    have "worker_ID w = s" by (rule fc_inv_IDs [OF fc Some])
    with Some wk ran_remove [of "p_registry p" s, OF fc_inv_IDs [OF fc]] have "workers_ok p'"
      by (simp add: workers_ok_def reg ws remove_by_id_distinct distinct_map_filter)
    with Some fc_inv_close [OF fc Some, of "e_host e"] show ?thesis by (simp add: reg fc_close_def)
  qed
  ultimately show ?thesis using k reg rest N by (auto simp: core_inv_def)
qed

lemma fc_spawn_Inr:
  "fc_inv reg f \<Longrightarrow> reg s = None \<Longrightarrow> fc_spawn e g s cfg f = (Inr w, f') \<Longrightarrow> fc_inv (reg(s \<mapsto> w)) f' \<and> worker_ID w = s"
  using fc_inv_spawn Spawn_id by (fastforce simp: fc_spawn_def fc_ID_def split: prod.splits sum.splits)

lemma fc_spawn_Inl:
  assumes inv: "fc_inv reg f" and new: "reg s = None" and sp: "fc_spawn e g s cfg f = (Inl err, f')"
  shows "fc_inv reg f'"
proof -
  have "Spawn (e_host e) (e_listen e) (e_attempts e) (e_nano e) g s cfg f = (Inl err, f')"
    using sp by (auto simp: fc_spawn_def split: prod.splits sum.splits)
  moreover have "wf_factory f" using inv by (simp add: fc_inv_def)
  ultimately show ?thesis using Spawn_Inl fc_inv_free [OF inv new] fc_inv_same [OF inv] by blast
qed

lemma workers_ok_pin:
  assumes ok: "workers_ok p" and ids: "\<And>i w. p_registry p i = Some w \<Longrightarrow> worker_ID w = i" and new: "p_registry p s = None"
    and w: "worker_ID w = s" and p': "p_registry p' = (p_registry p)(s \<mapsto> w)" "p_workers p' = p_workers p @ [w]"
  shows "workers_ok p'"
proof -
  have "s \<notin> worker_ID ` ran (p_registry p)"
  proof
    assume "s \<in> worker_ID ` ran (p_registry p)"
    then obtain v j where "worker_ID v = s" "p_registry p j = Some v" by (auto simp: ran_def)
    with ids new show False by auto
  qed
  with assms show ?thesis by (simp add: workers_ok_def)
qed

text \<open>The frame of a call that the registry, the worker list and the factory's books survive.\<close>

lemma core_acquire:
  assumes inv: "core_inv N (p, f)" and a: "pool_Acquire (fc_spawn e g) close ctx s cfg p f = (Returns r, p', f')"
  shows "core_inv N (p', f') \<and> p_done p' = p_done p \<and> p_max p' = p_max p \<and>
    (case r of Inl err \<Rightarrow> p_registry p' = p_registry p | Inr w \<Rightarrow> p_registry p' = (p_registry p)(s \<mapsto> w))"
proof -
  have idle: "idle_pool p" and wk: "workers_ok p" and fc: "fc_inv (p_registry p) f" and N: "p_max p = N"
    using inv by (simp_all add: core_inv_def)
  note spec = acquire_idle [where spawn = "fc_spawn e g" and close = close and ctx_done = ctx and s = s and cfg = cfg and f = f,
      OF idle, unfolded a prod.case]
  have idle': "idle_pool p'" by (rule idle_Acquire [OF idle a])
  show ?thesis
  proof (cases "p_registry p s")
    case (Some w)
    with spec inv show ?thesis by (simp add: fun_upd_idem)
  next
    case None
    note free = this
    show ?thesis
    proof (cases "p_tickets p = 0")
      case True
      with spec None idle' wk fc N show ?thesis by (auto simp: core_inv_def workers_ok_def split: if_splits)
    next
      case False
      obtain x f1 where sp: "fc_spawn e g s cfg f = (x, f1)" by fastforce
      show ?thesis
      proof (cases x)
        case (Inl err)
        with fc_spawn_Inl [OF fc free] sp have "fc_inv (p_registry p) f1" by blast
        with Inl sp spec None False idle' wk N show ?thesis by (simp add: core_inv_def workers_ok_def)
      next
        case (Inr w)
        with fc_spawn_Inr [OF fc free] sp have w: "fc_inv ((p_registry p)(s \<mapsto> w)) f1" "worker_ID w = s" by blast+
        have p': "p_registry p' = (p_registry p)(s \<mapsto> w)" "p_workers p' = p_workers p @ [w]"
          using Inr sp spec None False by simp_all
        have "workers_ok p'" by (rule workers_ok_pin [OF wk fc_inv_IDs [OF fc] free w(2) p'])
        with Inr sp spec None False idle' w N show ?thesis by (simp add: core_inv_def)
      qed
    qed
  qed
qed

lemma acquire_never_panics:
  assumes "core_inv N (p, f)"
  shows "case fst (pool_Acquire (fc_spawn e g) close ctx s cfg p f) of
      Panics \<Rightarrow> False | Blocks \<Rightarrow> p_tickets p = 0 \<and> \<not> ctx \<and> p_registry p s = None | Returns r \<Rightarrow> True"
proof -
  have "idle_pool p" using assms by (simp add: core_inv_def)
  from acquire_idle [where spawn = "fc_spawn e g" and close = close and ctx_done = ctx and s = s and cfg = cfg and f = f, OF this]
  show ?thesis by (auto split: outcome.splits option.splits sum.splits if_splits prod.splits)
qed

section \<open>The daemon's invariant\<close>

text \<open>Every lease belongs to a pinned session, and every pinned session has one.\<close>

definition lease_inv :: "nat \<Rightarrow> (fc_worker pool \<times> fc_state) lifecycle \<Rightarrow> bool" where
  "lease_inv N m \<longleftrightarrow> core_inv N (lm_reaper m) \<and> dom (lm_registry m) = dom (p_registry (fst (lm_reaper m))) \<and>
     (\<forall>i st. lm_registry m i = Some st \<longrightarrow> ss_SessionID st = i \<and> 0 \<le> ss_ActiveConns st)"

definition daemon_inv :: "nat \<Rightarrow> daemon \<Rightarrow> bool" where
  "daemon_inv N d \<longleftrightarrow> lease_inv N (d_lm d)"

text \<open>The invariant sees the lifecycle manager only.\<close>

lemma daemon_inv_frame [simp]:
  "daemon_inv N (log_event l ev d) = daemon_inv N d" "daemon_inv N (bump g d) = daemon_inv N d"
  "d_lm (log_event l ev d) = d_lm d" "d_lm (bump g d) = d_lm d"
  "d_fc (log_event l ev d) = d_fc d" "d_fc (bump g d) = d_fc d"
  by (simp_all add: daemon_inv_def log_event_def bump_def)

lemma WarmImage_books:
  "fc_WarmImage h img fs = (r, fs') \<Longrightarrow> fs_uids fs' = fs_uids fs \<and> fs_ipam fs' = fs_ipam fs \<and> fs_ports fs' = fs_ports fs"
  unfolding fc_WarmImage_def using fs_st_frame(1-3) [where s = fs] by (metis snd_conv)

lemma fc_inv_cong:
  "fs_uids s' = fs_uids s \<Longrightarrow> fs_ipam s' = fs_ipam s \<Longrightarrow> fs_ports s' = fs_ports s \<Longrightarrow> fc_inv reg s' = fc_inv reg s"
  by (simp add: fc_inv_def wf_factory_def ports_map_def)

lemma daemon_inv_store:
  assumes "daemon_inv N d" and "fc_WarmImage h img (d_factory d) = (r, fs)"
  shows "daemon_inv N (set_pool (d_pool d) fs d)"
  using assms(1) WarmImage_books [OF assms(2)] fc_inv_cong [of fs "d_factory d"]
  by (simp add: daemon_inv_def lease_inv_def core_inv_def set_pool_def)

lemma warm_inv:
  assumes "daemon_inv N d" and "warm_if_asked e req d = (r, d')"
  shows "daemon_inv N d' \<and> d_pool d' = d_pool d \<and> d_leases d' = d_leases d"
  using assms daemon_inv_store [OF assms(1)]
  by (auto simp: warm_if_asked_def set_pool_def split: if_splits prod.splits sum.splits)

lemma controller_WarmImage_inv: "daemon_inv N d \<Longrightarrow> daemon_inv N (snd (controller_WarmImage e img d))"
  using daemon_inv_store by (auto simp: controller_WarmImage_def split: prod.splits sum.splits)

section \<open>Every operation keeps the invariant\<close>

lemma kill_lease_inv:
  assumes "lease_inv N m"
  shows "\<exists>pf. lm_UnregisterAndKill (pool_kill (fc_close e)) s reason m = (None, m\<lparr>lm_registry := (lm_registry m)(s := None), lm_reaper := pf\<rparr>) \<and>
    lease_inv N (m\<lparr>lm_registry := (lm_registry m)(s := None), lm_reaper := pf\<rparr>) \<and>
    p_registry (fst pf) = (p_registry (fst (lm_reaper m)))(s := None) \<and> p_max (fst pf) = p_max (fst (lm_reaper m))"
proof -
  obtain p f where pf: "lm_reaper m = (p, f)" by fastforce
  then have "core_inv N (p, f)" using assms by (simp add: lease_inv_def)
  from core_kill [OF this, of e s reason] obtain p' f' where k: "pool_kill (fc_close e) s reason (p, f) = (None, p', f')"
    and c: "core_inv N (p', f')" and r: "p_registry p' = (p_registry p)(s := None)" "p_max p' = p_max p" by blast
  show ?thesis
  proof (intro exI [of _ "(p', f')"] conjI)
    show "lm_UnregisterAndKill (pool_kill (fc_close e)) s reason m =
        (None, m\<lparr>lm_registry := (lm_registry m)(s := None), lm_reaper := (p', f')\<rparr>)"
      by (simp add: lm_UnregisterAndKill_def lm_Remove_def pf k)
    show "lease_inv N (m\<lparr>lm_registry := (lm_registry m)(s := None), lm_reaper := (p', f')\<rparr>)"
      using assms c r pf by (auto simp: lease_inv_def)
  qed (simp_all add: r pf)
qed

lemma with_state_inv:
  assumes "lease_inv N m" and "\<And>st. ss_SessionID (g st) = ss_SessionID st" and "\<And>st. 0 \<le> ss_ActiveConns st \<Longrightarrow> 0 \<le> ss_ActiveConns (g st)"
  shows "lease_inv N (with_state s g m)"
  using assms by (auto simp: with_state_def lease_inv_def split: option.splits)

lemma Begin_inv: "lease_inv N m \<Longrightarrow> lease_inv N (lm_BeginRequest s m)"
  unfolding lm_BeginRequest_def by (rule with_state_inv) simp_all

lemma Heartbeat_inv: "lease_inv N m \<Longrightarrow> lease_inv N (lm_UpdateHeartbeat s now m)"
  unfolding lm_UpdateHeartbeat_def by (rule with_state_inv) simp_all

lemma End_inv:
  assumes inv: "lease_inv N m"
  shows "lease_inv N (lm_EndRequest (pool_kill (fc_close e)) s err now m)"
proof (cases "lm_registry m s")
  case (Some st)
  let ?st = "st\<lparr>ss_ActiveConns := if ss_ActiveConns st - 1 < 0 then 0 else ss_ActiveConns st - 1, ss_LastDataActivity := now\<rparr>"
  let ?m = "m\<lparr>lm_registry := (lm_registry m)(s \<mapsto> ?st)\<rparr>"
  have m: "lease_inv N ?m" using inv Some by (auto simp: lease_inv_def)
  show ?thesis
  proof (cases "err = DeadlineExceeded")
    case True
    have "lm_EndRequest (pool_kill (fc_close e)) s err now m =
        snd (lm_UnregisterAndKill (pool_kill (fc_close e)) s ''data_plane_deadlock'' ?m)"
      using True Some by (simp add: lm_EndRequest_def lm_UnregisterAndKill_def lm_Remove_def Let_def split: prod.splits)
    with kill_lease_inv [OF m, of e s "''data_plane_deadlock''"] show ?thesis by auto
  qed (use m Some in \<open>simp add: lm_EndRequest_def Let_def\<close>)
qed (use inv in \<open>simp add: lm_EndRequest_def\<close>)

lemma sweep_inv: "lease_inv N m \<Longrightarrow> lease_inv N (lm_sweep (pool_kill (fc_close e)) now order m)"
proof -
  have kill: "lease_inv N m \<Longrightarrow> lease_inv N (snd (lm_UnregisterAndKill (pool_kill (fc_close e)) s reason m))" for s reason m
    using kill_lease_inv [of N m e s reason] by auto
  have one: "lease_inv N m \<Longrightarrow> lease_inv N (sweep_one (pool_kill (fc_close e)) now snap s m)" for snap s m
    by (simp add: sweep_one_def kill split: option.splits)
  have "lease_inv N m \<Longrightarrow> lease_inv N (fold (sweep_one (pool_kill (fc_close e)) now snap) order m)" for snap m
    by (induction order arbitrary: m) (simp_all add: one)
  then show "lease_inv N m \<Longrightarrow> ?thesis" by (simp add: lm_sweep_def)
qed

lemma finish_create_inv:
  assumes "core_inv N (p, fs)" and "p_registry p = (p_registry (d_pool d))(s \<mapsto> w)" and "daemon_inv N d"
  shows "daemon_inv N (snd (finish_create e req s (worker_obj w) (set_pool p fs d)))"
  using assms by (auto simp: finish_create_def Let_def daemon_inv_def lease_inv_def set_pool_def lm_Register_def log_event_def bump_def)

lemma daemon_inv_set_pool:
  "daemon_inv N d \<Longrightarrow> core_inv N (p, fs) \<Longrightarrow> p_registry p = p_registry (d_pool d) \<Longrightarrow> daemon_inv N (set_pool p fs d)"
  by (simp add: daemon_inv_def lease_inv_def set_pool_def)

lemma CreateSession_inv:
  assumes inv: "daemon_inv N d" and c: "CreateSession e req d = (Returns r, d')"
  shows "daemon_inv N d'"
proof -
  obtain wr d1 where w: "warm_if_asked e req (bump RecordAcquireRequest d) = (wr, d1)" by fastforce
  have inv1: "daemon_inv N d1" using warm_inv [OF _ w] inv by simp
  show ?thesis
  proof (cases wr)
    case (Some err)
    with c w inv1 show ?thesis by (simp add: CreateSession_def)
  next
    case None
    let ?d = "log_event ''info'' ''acquire_request_received'' d1" and ?s = "session_id_of e req"
    obtain oc p fs where a: "pool_Acquire (fc_spawn e (d_fc ?d)) (\<lambda>w fs. (None :: unit option, fc_close e w fs)) (e_ctxDone e)
        ?s (tenant_of req) (d_pool ?d) (d_factory ?d) = (oc, p, fs)" by (metis prod_cases3)
    from c w None a obtain v where oc: "oc = Returns v"
      by (auto simp: CreateSession_def Let_def split: outcome.splits)
    have core: "core_inv N (d_pool ?d, d_factory ?d)" and d: "daemon_inv N ?d" using inv1 by (simp_all add: daemon_inv_def lease_inv_def)
    note acq = core_acquire [OF core a [unfolded oc]]
    show ?thesis
    proof (cases v)
      case (Inl err)
      with acq daemon_inv_set_pool [OF d, of p fs] c w None a oc show ?thesis by (auto simp: CreateSession_def Let_def)
    next
      case (Inr x)
      with acq finish_create_inv [OF _ _ d, of p fs ?s x e req] c w None a oc show ?thesis
        by (auto simp: CreateSession_def Let_def split: prod.splits)
    qed
  qed
qed

lemma DeleteSession_inv: "daemon_inv N d \<Longrightarrow> daemon_inv N (snd (DeleteSession e s reason d))"
  using kill_lease_inv [of N "d_lm d" e s reason] by (auto simp: DeleteSession_def daemon_inv_def)

lemma lookup_frame:
  "rp_LookupOnly rp \<Longrightarrow> \<exists>r. proxy_lookup url_ok upstream e rp s d = (Returns r, d)"
  by (simp add: proxy_lookup_def split: sum.splits option.splits)

lemma data_plane_only: "rp_LookupOnly data_plane_proxy" "rp_hasManager data_plane_proxy"
  by (simp_all add: data_plane_proxy_def WithLookupOnly_def WithLifecycleManager_def NewReverseProxy_def)

lemma proxy_returns:
  "\<exists>r. proxy_ServeHTTP url_ok upstream err e data_plane_proxy s d = (Returns r,
     if s = '''' then d
     else d\<lparr>d_lm := lm_EndRequest (pool_kill (fc_close e)) s err (e_now e) (lm_BeginRequest s (d_lm d))\<rparr>)"
  using lookup_frame [OF data_plane_only(1), of url_ok upstream e s "d\<lparr>d_lm := lm_BeginRequest s (d_lm d)\<rparr>"]
  by (auto simp: proxy_ServeHTTP_def data_plane_only Let_def)

lemma proxy_inv: "daemon_inv N d \<Longrightarrow> daemon_inv N (snd (proxy_ServeHTTP url_ok upstream err e data_plane_proxy s d))"
  using proxy_returns [of url_ok upstream err e s d] by (auto simp: daemon_inv_def End_inv Begin_inv)

section \<open>Histories\<close>

text \<open>
  What happens to a running daemon: control-plane calls, ticks of the reaper and requests on the
  data plane, one after the other; \<open>None\<close> when the call never returns.
\<close>

datatype daemon_op =
    OpCreate env create_request
  | OpDelete env sid string
  | OpHeartbeat env sid
  | OpWarm env string
  | OpSweep env "sid list"
  | OpProxy "string \<Rightarrow> bool" "string \<Rightarrow> nat option" proxy_err env sid

fun daemon_step :: "daemon_op \<Rightarrow> daemon \<Rightarrow> daemon option" where
  "daemon_step (OpCreate e req) d = (case CreateSession e req d of (Returns r, d') \<Rightarrow> Some d' | _ \<Rightarrow> None)"
| "daemon_step (OpDelete e s reason) d = Some (snd (DeleteSession e s reason d))"
| "daemon_step (OpHeartbeat e s) d = Some (UpdateHeartbeat e s d)"
| "daemon_step (OpWarm e img) d = Some (snd (controller_WarmImage e img d))"
| "daemon_step (OpSweep e order) d = Some (daemon_sweep e order d)"
| "daemon_step (OpProxy url_ok upstream err e s) d =
     Some (snd (proxy_ServeHTTP url_ok upstream err e data_plane_proxy s d))"

inductive daemon_runs :: "daemon \<Rightarrow> daemon \<Rightarrow> bool" where
  start: "daemon_runs d d"
| op: "daemon_runs d0 d \<Longrightarrow> daemon_step x d = Some d' \<Longrightarrow> daemon_runs d0 d'"

lemma daemon_step_inv: "daemon_inv N d \<Longrightarrow> daemon_step x d = Some d' \<Longrightarrow> daemon_inv N d'"
proof (cases x)
  case (OpCreate e req)
  then show "daemon_inv N d \<Longrightarrow> daemon_step x d = Some d' \<Longrightarrow> ?thesis"
    by (auto split: prod.splits outcome.splits dest: CreateSession_inv)
next
  case (OpHeartbeat e s)
  then show "daemon_inv N d \<Longrightarrow> daemon_step x d = Some d' \<Longrightarrow> ?thesis"
    by (auto simp: UpdateHeartbeat_def daemon_inv_def Heartbeat_inv)
next
  case (OpSweep e order)
  then show "daemon_inv N d \<Longrightarrow> daemon_step x d = Some d' \<Longrightarrow> ?thesis"
    by (auto simp: daemon_sweep_def daemon_inv_def sweep_inv)
qed (auto simp: DeleteSession_inv controller_WarmImage_inv proxy_inv)

lemma daemon_runs_inv: "daemon_runs d0 d \<Longrightarrow> daemon_inv N d0 \<Longrightarrow> daemon_inv N d"
  by (induction rule: daemon_runs.induct) (auto dest: daemon_step_inv)

section \<open>Start-up and shutdown\<close>

lemma ipam_of_daemon: "\<exists>i. NewIPAM ''10.200.0.0/16'' = Inr i \<and> wf_ipam i \<and> ipam_used i = {}"
  using herd_ipam_ok by blast

lemma buildPool_valid:
  assumes "valid_config cfg" and "absPath (path_Join [StateDir (cfg_Storage cfg), ''containerd.sock'']) = Some sock" and "connect sock"
  shows "\<exists>p fs f. buildPool absPath connect cfg = Some (Inr (p, fs, f))"
proof -
  obtain i where "NewIPAM ''10.200.0.0/16'' = Inr i" using ipam_of_daemon by blast
  moreover obtain u where "uid_NewPool (UIDPoolStart (cfg_Jailer cfg)) (UIDPoolSize (cfg_Jailer cfg)) = Inr u"
    using uid_NewPool_ok [of "UIDPoolStart (cfg_Jailer cfg)" "UIDPoolSize (cfg_Jailer cfg)"] assms(1) by (auto simp: valid_config_def)
  moreover have "\<not> MaxGlobalVMs (cfg_Resources cfg) < 1" using assms(1) by (simp add: valid_config_def)
  ultimately show ?thesis using assms(2,3) by (simp add: buildPool_def WithMaxWorkers_def Let_def)
qed

lemma start_inv:
  assumes v: "valid_config cfg" and b: "buildPool absPath connect cfg = Some (Inr (p, fs, f))"
  shows "daemon_inv (nat (MaxGlobalVMs (cfg_Resources cfg))) (start_daemon p fs f bind)"
proof -
  obtain i where i: "NewIPAM ''10.200.0.0/16'' = Inr i" "wf_ipam i" "ipam_used i = {}" using ipam_of_daemon by blast
  obtain u where u: "uid_NewPool (UIDPoolStart (cfg_Jailer cfg)) (UIDPoolSize (cfg_Jailer cfg)) = Inr u" "wf_uid_pool u" "leased u = {}"
    using uid_NewPool_ok [of "UIDPoolStart (cfg_Jailer cfg)" "UIDPoolSize (cfg_Jailer cfg)"] v by (auto simp: valid_config_def)
  have p: "p = pool_New [MaxWorkers (MaxGlobalVMs (cfg_Resources cfg))]" and fs: "fs_uids fs = u" "fs_ipam fs = i"
    "fs_ports fs = Some (NewPortManager (EphemeralPortStart (cfg_Network cfg)) (EphemeralPortEnd (cfg_Network cfg)))"
    using b i u by (auto simp: buildPool_def WithMaxWorkers_def Let_def split: option.splits if_splits)
  have reg: "p_registry p = Map.empty" "p_workers p = []" "p_max p = nat (MaxGlobalVMs (cfg_Resources cfg))"
    by (simp_all add: p pool_New_def NewLocalRegistry_def Let_def)
  have "idle_pool p" unfolding p by (rule idle_New)
  moreover have "ports_map fs = Map.empty" by (simp add: ports_map_def fs NewPortManager_def)
  ultimately show ?thesis
    using i u fs reg
    by (simp add: daemon_inv_def lease_inv_def core_inv_def start_daemon_def NewManager_def workers_ok_def fc_inv_def wf_factory_def port_books_def)
qed

lemma close_all_inv:
  assumes "fc_inv reg f" and "distinct (map worker_ID ws)" and "set ws = ran reg"
  shows "\<exists>f'. close_all (\<lambda>w f. (None :: unit option, fc_close e w f)) ws f = (None, f') \<and> fc_inv Map.empty f'"
  using assms
proof (induction ws arbitrary: reg f)
  case Nil
  then have "reg = Map.empty" by (simp add: fun_eq_iff ran_def) (metis not_None_eq)
  with Nil show ?case by simp
next
  case (Cons w ws)
  let ?i = "worker_ID w"
  have "w \<in> ran reg" using Cons.prems(3) by auto
  then have w: "reg ?i = Some w" using fc_inv_IDs [OF Cons.prems(1)] by (auto simp: ran_def)
  have "set ws = {v \<in> ran reg. worker_ID v \<noteq> ?i}" using Cons.prems(2) by (auto simp: image_iff simp flip: Cons.prems(3))
  then have "set ws = ran (reg(?i := None))" using ran_remove [of reg ?i, OF fc_inv_IDs [OF Cons.prems(1)]] by simp
  from Cons.IH [OF fc_inv_close [OF Cons.prems(1) w, of "e_host e"] _ this] Cons.prems(2)
  show ?case by (simp add: fc_close_def)
qed

text \<open>A daemon that was started from a validated configuration and has handled any number of operations since.\<close>

definition running :: "(string \<Rightarrow> string option) \<Rightarrow> (string \<Rightarrow> bool) \<Rightarrow> herd_config \<Rightarrow> string \<Rightarrow> daemon \<Rightarrow> bool" where
  "running absPath connect cfg bind d \<longleftrightarrow> valid_config cfg \<and>
     (\<exists>p fs f. buildPool absPath connect cfg = Some (Inr (p, fs, f)) \<and> daemon_runs (start_daemon p fs f bind) d)"

lemma running_inv: "running absPath connect cfg bind d \<Longrightarrow> daemon_inv (nat (MaxGlobalVMs (cfg_Resources cfg))) d"
  using start_inv daemon_runs_inv unfolding running_def by blast

lemmas inv_defs = daemon_inv_def lease_inv_def core_inv_def idle_pool_def workers_ok_def fc_inv_def held_def port_books_def

section \<open>The outcome of a create request\<close>

definition create_post :: "env \<Rightarrow> create_request \<Rightarrow> daemon \<Rightarrow> (create_error + create_response) outcome \<Rightarrow> daemon \<Rightarrow> bool" where
  "create_post e req d out d' = (case out of
       Panics \<Rightarrow> False
     | Blocks \<Rightarrow> p_tickets (d_pool d) = 0 \<and> \<not> e_ctxDone e \<and> p_registry (d_pool d) (session_id_of e req) = None
     | Returns (Inl err) \<Rightarrow> p_registry (d_pool d') = p_registry (d_pool d) \<and> d_leases d' = d_leases d
     | Returns (Inr r) \<Rightarrow> (\<exists>w. p_registry (d_pool d) (session_id_of e req) \<in> {None, Some w} \<and>
         p_registry (d_pool d') = (p_registry (d_pool d))(session_id_of e req \<mapsto> w) \<and>
         (\<forall>i. i \<noteq> session_id_of e req \<longrightarrow> d_leases d' i = d_leases d i) \<and>
         map_option ss_ActiveConns (d_leases d' (session_id_of e req)) = Some 0 \<and>
         rs_SessionID r = session_id_of e req \<and> rs_InternalIP r = fw_guestIP (worker_obj w) \<and>
         rs_PortMappings r = fw_portMappings (worker_obj w)))"

lemma CreateSession_post:
  assumes inv: "daemon_inv N d" and c: "CreateSession e req d = (out, d')"
  shows "create_post e req d out d'"
proof -
  obtain wr d1 where w: "warm_if_asked e req (bump RecordAcquireRequest d) = (wr, d1)" by fastforce
  have inv1: "daemon_inv N d1" and pl: "d_pool d1 = d_pool d" "d_leases d1 = d_leases d"
    using warm_inv [OF _ w] inv by simp_all
  show ?thesis
  proof (cases wr)
    case (Some err)
    with c w pl show ?thesis by (auto simp: CreateSession_def create_post_def)
  next
    case None
    let ?d = "log_event ''info'' ''acquire_request_received'' d1" and ?s = "session_id_of e req"
    let ?close = "\<lambda>w fs. (None :: unit option, fc_close e w fs)"
    obtain oc p fs where a: "pool_Acquire (fc_spawn e (d_fc ?d)) ?close (e_ctxDone e)
        ?s (tenant_of req) (d_pool ?d) (d_factory ?d) = (oc, p, fs)" by (metis prod_cases3)
    have core: "core_inv N (d_pool ?d, d_factory ?d)" using inv1 by (simp add: daemon_inv_def lease_inv_def)
    then have idle: "idle_pool (d_pool ?d)" by (simp add: core_inv_def)
    note spec = acquire_idle [where spawn = "fc_spawn e (d_fc ?d)" and close = ?close and ctx_done = "e_ctxDone e" and
        s = ?s and cfg = "tenant_of req" and f = "d_factory ?d", OF idle, unfolded a prod.case]
    show ?thesis
    proof (cases oc)
      case (Returns v)
      note acq = core_acquire [OF core a [unfolded Returns]]
      show ?thesis
      proof (cases v)
        case (Inl err)
        with Returns acq c w None a pl show ?thesis by (auto simp: CreateSession_def create_post_def Let_def set_pool_def)
      next
        case (Inr x)
        have "p_registry (d_pool d) ?s \<in> {None, Some x}"
          using spec Returns Inr pl by (auto split: option.splits sum.splits if_splits)
        with Inr Returns acq c w None a pl show ?thesis
          by (auto simp: CreateSession_def create_post_def Let_def set_pool_def finish_create_def lm_Register_def
              fc_GuestIP_def fc_PortMappings_def split: prod.splits)
      qed
    next
      case Blocks
      with spec c w None a pl show ?thesis
        by (auto simp: CreateSession_def create_post_def Let_def split: option.splits sum.splits if_splits)
    next
      case Panics
      with spec show ?thesis by (auto split: option.splits sum.splits if_splits)
    qed
  qed
qed

section \<open>Consequences\<close>

lemma daemon_fc_inv: "daemon_inv N d \<Longrightarrow> fc_inv (p_registry (d_pool d)) (d_factory d)"
  by (simp add: daemon_inv_def lease_inv_def core_inv_def)

text \<open>The registry determines the books.\<close>

lemma fc_inv_books_eq:
  assumes "fc_inv reg s" and "fc_inv reg t"
  shows "leased (fs_uids s) = leased (fs_uids t) \<and> ipam_used (fs_ipam s) = ipam_used (fs_ipam t) \<and> ports_map s = ports_map t"
proof -
  have "port_books reg (ports_map s)" "port_books reg (ports_map t)" using assms by (simp_all add: fc_inv_def)
  then have iff: "ports_map s p = Some i \<longleftrightarrow> ports_map t p = Some i" for p i unfolding port_books_def by simp
  have "ports_map s p = ports_map t p" for p
  proof (cases "ports_map t p")
    case None
    then have "\<forall>i. ports_map s p \<noteq> Some i" using iff by simp
    with None show ?thesis by simp
  next
    case (Some i)
    with iff [of p i] show ?thesis by simp
  qed
  then have "ports_map s = ports_map t" by (rule ext)
  moreover have u: "held reg uid_of (leased (fs_uids s))" "held reg uid_of (leased (fs_uids t))"
    and i: "held reg ip_of (ipam_used (fs_ipam s))" "held reg ip_of (ipam_used (fs_ipam t))"
    using assms by (simp_all add: fc_inv_def)
  ultimately show ?thesis using held_unique [OF u] held_unique [OF i] by (intro conjI)
qed

lemma held_released:
  assumes "held reg f S" and "held reg' f S'" and "reg' \<subseteq>\<^sub>m reg" and "reg i = Some w" and "i \<notin> dom reg'"
  shows "f w \<notin> S'"
proof
  assume "f w \<in> S'"
  then obtain j v where v: "reg' j = Some v" "f w = f v" using assms(2) by (auto simp: held_def)
  then have "reg j = Some v" using assms(3) by (auto simp: map_le_def dom_def)
  with v assms(1,4) have "j = i" by (auto simp: held_def)
  with v assms(5) show False by auto
qed

text \<open>Sessions that are gone hold nothing.\<close>

lemma fc_inv_released:
  assumes "fc_inv reg s" and "fc_inv reg' s'" and "reg' \<subseteq>\<^sub>m reg" and "reg i = Some w" and "i \<notin> dom reg'"
  shows "uid_of w \<notin> leased (fs_uids s') \<and> ip_of w \<notin> ipam_used (fs_ipam s') \<and> (\<forall>p \<in> host_ports w. ports_map s' p = None)"
proof (intro conjI ballI)
  show "uid_of w \<notin> leased (fs_uids s')" "ip_of w \<notin> ipam_used (fs_ipam s')"
    using assms(1,2) by (auto simp: fc_inv_def dest: held_released [OF _ _ assms(3-5)])
  fix p assume p: "p \<in> host_ports w"
  have "ports_map s' p \<noteq> Some j" for j
  proof
    assume "ports_map s' p = Some j"
    then obtain v where v: "reg' j = Some v" "p \<in> host_ports v" using assms(2) by (auto simp: fc_inv_def port_books_def)
    then have "reg j = Some v" using assms(3) by (auto simp: map_le_def dom_def)
    with v p assms(1,4) have "Some j = Some i" unfolding fc_inv_def port_books_def by metis
    with v assms(5) show False by auto
  qed
  then show "ports_map s' p = None" by (cases "ports_map s' p") auto
qed

lemma DeleteSession_effect:
  assumes "daemon_inv N d" and "DeleteSession e s reason d = (err, d')"
  shows "err = None \<and> p_registry (d_pool d') = (p_registry (d_pool d))(s := None) \<and> d_leases d' = (d_leases d)(s := None)"
  using kill_lease_inv [of N "d_lm d" e s reason] assms by (auto simp: DeleteSession_def daemon_inv_def)

lemma sweep_registry_sub:
  assumes "lease_inv N m"
  shows "p_registry (fst (lm_reaper (lm_sweep (pool_kill (fc_close e)) now order m))) \<subseteq>\<^sub>m p_registry (fst (lm_reaper m))"
proof -
  have one: "lease_inv N (sweep_one (pool_kill (fc_close e)) now snap s m) \<and>
      p_registry (fst (lm_reaper (sweep_one (pool_kill (fc_close e)) now snap s m))) \<subseteq>\<^sub>m p_registry (fst (lm_reaper m))"
    if "lease_inv N m" for snap s m
  proof -
    have "lease_inv N (snd (lm_UnregisterAndKill (pool_kill (fc_close e)) s reason m)) \<and>
        p_registry (fst (lm_reaper (snd (lm_UnregisterAndKill (pool_kill (fc_close e)) s reason m)))) \<subseteq>\<^sub>m p_registry (fst (lm_reaper m))" for reason
      using kill_lease_inv [OF that, of e s reason] by (auto simp: map_le_def split: if_splits)
    with that show ?thesis by (simp add: sweep_one_def split: option.splits)
  qed
  have "p_registry (fst (lm_reaper (fold (sweep_one (pool_kill (fc_close e)) now snap) order m))) \<subseteq>\<^sub>m p_registry (fst (lm_reaper m))"
    if "lease_inv N m" for snap m using that
  proof (induction order arbitrary: m)
    case (Cons s order)
    with one [OF Cons.prems, of snap s] show ?case by (auto intro: map_le_trans)
  qed simp
  with assms show ?thesis by (simp add: lm_sweep_def)
qed

text \<open>What a request on the data plane does.\<close>

definition proxy_post :: "(string \<Rightarrow> bool) \<Rightarrow> (string \<Rightarrow> nat option) \<Rightarrow> proxy_err \<Rightarrow> env \<Rightarrow> sid \<Rightarrow> daemon \<Rightarrow> reply outcome \<times> daemon \<Rightarrow> bool" where
  "proxy_post url_ok upstream ctxErr e s d res = (case res of (out, d') \<Rightarrow>
    (case p_registry (d_pool d) s of
       None \<Rightarrow> out = Returns (Status 404 ''herd: session not found'') \<and> d' = d
     | Some w \<Rightarrow> out = Returns (forward url_ok upstream w) \<and>
         (if ctxErr = DeadlineExceeded
          then p_registry (d_pool d') = (p_registry (d_pool d))(s := None) \<and> d_leases d' = (d_leases d)(s := None)
          else lm_reaper (d_lm d') = lm_reaper (d_lm d) \<and>
            d_leases d' = (d_leases d)(s := map_option (\<lambda>st. st\<lparr>ss_LastDataActivity := e_now e\<rparr>) (d_leases d s)))))"

lemma proxy_effect:
  assumes inv: "daemon_inv N d" and s: "s \<noteq> ''''"
  shows "proxy_post url_ok upstream ctxErr e s d (proxy_ServeHTTP url_ok upstream ctxErr e data_plane_proxy s d)"
proof (cases "p_registry (d_pool d) s")
  case None
  then have "s \<notin> dom (d_leases d)" using inv by (simp add: daemon_inv_def lease_inv_def domIff)
  then have "d_leases d s = None" by (simp add: domIff)
  with None s show ?thesis
    by (simp add: proxy_post_def proxy_ServeHTTP_def data_plane_only proxy_lookup_def pool_GetSession_def registry_Get_def
        lm_BeginRequest_def lm_EndRequest_def with_state_def Let_def)
next
  case (Some w)
  have "s \<in> dom (d_leases d)" using inv Some unfolding daemon_inv_def lease_inv_def by blast
  then obtain st where st: "d_leases d s = Some st" by blast
  have "0 \<le> ss_ActiveConns st" using inv st by (simp add: daemon_inv_def lease_inv_def)
  moreover obtain p f where pf: "lm_reaper (d_lm d) = (p, f)" by fastforce
  moreover have "core_inv N (p, f)" using inv pf by (simp add: daemon_inv_def lease_inv_def)
  then obtain p' f' where "pool_kill (fc_close e) s ''data_plane_deadlock'' (p, f) = (None, p', f')"
    "p_registry p' = (p_registry p)(s := None)" using core_kill by blast
  ultimately show ?thesis
    using Some s st
    by (simp add: proxy_post_def proxy_ServeHTTP_def data_plane_only proxy_lookup_def pool_GetSession_def registry_Get_def
        lm_BeginRequest_def lm_EndRequest_def lm_Remove_def with_state_def Let_def)
qed

end
