(* ===== verification/Json.thy ===== *)
theory Json
  imports Go_Strings
begin

text \<open>
  JSON as the daemon and its command line exchange it: the text that \<open>encoding/json\<close> writes and
  the texts it reads.  Strings are bytes of valid UTF-8 (the library replaces others).  The
  parser has fuel; \<open>parse_value_fuel\<close> shows that the fuel of \<open>parse_json\<close> is always enough.
\<close>

section \<open>Values and their text\<close>

text \<open>\<open>JFrac\<close> is a number with a fraction or an exponent, kept as its literal.\<close>

datatype json =
    JNull
  | JBool bool
  | JNum int
  | JFrac string
  | JStr string
  | JArr "json list"
  | JObj "(string \<times> json) list"

definition hex_char :: "nat \<Rightarrow> char" where
  "hex_char n = (if n < 10 then char_of (48 + n) else char_of (87 + n))"

text \<open>One byte of a string; the HTML characters are escaped as \<open>json.Marshal\<close> does.\<close>

definition quote_char :: "char \<Rightarrow> string" where
  "quote_char c =
     (if c = CHR 0x22 \<or> c = CHR 0x5C then [CHR 0x5C, c]
      else if c = CHR 0x08 then [CHR 0x5C, CHR ''b'']
      else if c = CHR 0x0C then [CHR 0x5C, CHR ''f'']
      else if c = CHR 0x0A then [CHR 0x5C, CHR ''n'']
      else if c = CHR 0x0D then [CHR 0x5C, CHR ''r'']
      else if c = CHR 0x09 then [CHR 0x5C, CHR ''t'']
      else if (of_char c :: nat) < 32 \<or> c \<in> {CHR ''<'', CHR ''>'', CHR ''&''}
      then [CHR 0x5C, CHR ''u'', CHR ''0'', CHR ''0'', hex_char (of_char c div 16), hex_char (of_char c mod 16)]
      else [c])"

definition quote :: "string \<Rightarrow> string" where
  "quote s = [CHR 0x22] @ concat (map quote_char s) @ [CHR 0x22]"

fun render :: "json \<Rightarrow> string"
and render_elems :: "json list \<Rightarrow> string"
and render_members :: "(string \<times> json) list \<Rightarrow> string" where
  "render JNull = ''null''"
| "render (JBool b) = (if b then ''true'' else ''false'')"
| "render (JNum i) = itoa i"
| "render (JFrac l) = l"
| "render (JStr s) = quote s"
| "render (JArr js) = ''['' @ render_elems js @ '']''"
| "render (JObj ms) = ''{'' @ render_members ms @ ''}''"
| "render_elems [] = ''''"
| "render_elems [j] = render j"
| "render_elems (j # k # js) = render j @ '','' @ render_elems (k # js)"
| "render_members [] = ''''"
| "render_members [(k, j)] = quote k @ '':'' @ render j"
| "render_members ((k, j) # m # ms) = quote k @ '':'' @ render j @ '','' @ render_members (m # ms)"

section \<open>Reading strings and numbers\<close>

definition utf8 :: "nat \<Rightarrow> string" where
  "utf8 n =
     (if n < 128 then [char_of n]
      else if n < 2048 then [char_of (192 + n div 64), char_of (128 + n mod 64)]
      else if n < 65536 then [char_of (224 + n div 4096), char_of (128 + n div 64 mod 64), char_of (128 + n mod 64)]
      else [char_of (240 + n div 262144), char_of (128 + n div 4096 mod 64), char_of (128 + n div 64 mod 64), char_of (128 + n mod 64)])"

definition code4 :: "string \<Rightarrow> (nat \<times> string) option" where
  "code4 s = (if 4 \<le> length s \<and> list_all is_hex (take 4 s)
     then Some (foldl (\<lambda>a c. a * 16 + hex_val c) 0 (take 4 s), drop 4 s) else None)"

text \<open>The rest of a surrogate pair, when it is one; a lone surrogate is the replacement character.\<close>

definition low_surrogate :: "string \<Rightarrow> (nat \<times> string) option" where
  "low_surrogate s = (if take 2 s = [CHR 0x5C, CHR ''u''] then
       (case code4 (drop 2 s) of Some (m, r) \<Rightarrow> if 0xDC00 \<le> m \<and> m < 0xE000 then Some (m, r) else None | None \<Rightarrow> None)
     else None)"

definition unescape :: "string \<Rightarrow> (string \<times> string) option" where
  "unescape s = (case s of [] \<Rightarrow> None | e # ds \<Rightarrow>
     if e = CHR 0x22 \<or> e = CHR 0x5C \<or> e = CHR ''/'' then Some ([e], ds)
     else if e = CHR ''b'' then Some ([CHR 0x08], ds)
     else if e = CHR ''f'' then Some ([CHR 0x0C], ds)
     else if e = CHR ''n'' then Some ([CHR 0x0A], ds)
     else if e = CHR ''r'' then Some ([CHR 0x0D], ds)
     else if e = CHR ''t'' then Some ([CHR 0x09], ds)
     else if e = CHR ''u'' then
       (case code4 ds of
          None \<Rightarrow> None
        | Some (n, r) \<Rightarrow>
            if 0xD800 \<le> n \<and> n < 0xE000 then
              (case low_surrogate r of
                 Some (m, r') \<Rightarrow> if n < 0xDC00 then Some (utf8 (0x10000 + (n - 0xD800) * 1024 + (m - 0xDC00)), r') else Some (utf8 0xFFFD, r)
               | None \<Rightarrow> Some (utf8 0xFFFD, r))
            else Some (utf8 n, r))
     else None)"

lemma code4_length: "code4 s = Some (n, r) \<Longrightarrow> length r < length s"
  by (auto simp: code4_def split: if_splits)

lemma unescape_length: "unescape s = Some (x, r) \<Longrightarrow> length r < length s"
  by (auto simp: unescape_def low_surrogate_def dest!: code4_length split: list.splits if_splits option.splits)

text \<open>The text of a string after its opening quote.\<close>

function parse_chars :: "string \<Rightarrow> (string \<times> string) option" where
  "parse_chars [] = None"
| "parse_chars (c # cs) =
     (if c = CHR 0x22 then Some ('''', cs)
      else if c = CHR 0x5C then
        (case unescape cs of None \<Rightarrow> None | Some (x, r) \<Rightarrow> map_option (apfst (append x)) (parse_chars r))
      else if (of_char c :: nat) < 32 then None
      else map_option (apfst (Cons c)) (parse_chars cs))"
  by pat_completeness auto
termination by (relation "measure length") (auto dest: unescape_length)

definition num_char :: "char \<Rightarrow> bool" where
  "num_char c \<longleftrightarrow> is_digit c \<or> c \<in> {CHR ''+'', CHR ''-'', CHR ''.'', CHR ''e'', CHR ''E''}"

definition exp_tail :: "string \<Rightarrow> bool" where
  "exp_tail s = (case s of [] \<Rightarrow> True | c # r \<Rightarrow> (c = CHR ''e'' \<or> c = CHR ''E'') \<and>
     (let ds = (if r \<noteq> [] \<and> hd r \<in> {CHR ''+'', CHR ''-''} then tl r else r) in ds \<noteq> [] \<and> list_all is_digit ds))"

definition frac_tail :: "string \<Rightarrow> bool" where
  "frac_tail s = (case s of [] \<Rightarrow> True | c # r \<Rightarrow>
     if c = CHR ''.'' then takeWhile is_digit r \<noteq> [] \<and> exp_tail (dropWhile is_digit r) else exp_tail (c # r))"

definition number :: "string \<Rightarrow> json option" where
  "number lit =
     (let neg = (lit \<noteq> [] \<and> hd lit = CHR ''-''); body = (if neg then tl lit else lit);
          ip = takeWhile is_digit body; r = dropWhile is_digit body in
      if ip = [] \<or> (hd ip = CHR ''0'' \<and> 1 < length ip) then None
      else if r = [] then Some (JNum (if neg then - int (dec_val ip) else int (dec_val ip)))
      else if frac_tail r then Some (JFrac lit) else None)"

section \<open>Reading values\<close>

definition skip_ws :: "string \<Rightarrow> string" where
  "skip_ws = dropWhile (\<lambda>c. c = CHR '' '' \<or> c = CHR 0x09 \<or> c = CHR 0x0A \<or> c = CHR 0x0D)"

text \<open>\<open>expect c s\<close>: the text after the character \<open>c\<close>, white space before it skipped.\<close>

definition expect :: "char \<Rightarrow> string \<Rightarrow> string option" where
  "expect c s = (case skip_ws s of [] \<Rightarrow> None | d # r \<Rightarrow> if d = c then Some r else None)"

definition parse_key :: "string \<Rightarrow> (string \<times> string) option" where
  "parse_key s = (case expect (CHR 0x22) s of None \<Rightarrow> None | Some r \<Rightarrow>
     (case parse_chars r of None \<Rightarrow> None | Some (k, r') \<Rightarrow> map_option (Pair k) (expect (CHR '':'') r')))"

definition parse_atom :: "string \<Rightarrow> (json \<times> string) option" where
  "parse_atom s =
     (if has_prefix [CHR 0x22] s then map_option (apfst JStr) (parse_chars (tl s))
      else if has_prefix ''null'' s then Some (JNull, drop 4 s)
      else if has_prefix ''true'' s then Some (JBool True, drop 4 s)
      else if has_prefix ''false'' s then Some (JBool False, drop 5 s)
      else map_option (\<lambda>j. (j, dropWhile num_char s)) (number (takeWhile num_char s)))"

fun parse_value :: "nat \<Rightarrow> string \<Rightarrow> (json \<times> string) option"
and parse_elems :: "nat \<Rightarrow> string \<Rightarrow> (json list \<times> string) option"
and parse_members :: "nat \<Rightarrow> string \<Rightarrow> ((string \<times> json) list \<times> string) option" where
  "parse_value 0 s = None"
| "parse_value (Suc n) s = (case expect (CHR ''{'') s of
       Some r \<Rightarrow> (case expect (CHR ''}'') r of
           Some r' \<Rightarrow> Some (JObj [], r') | None \<Rightarrow> map_option (apfst JObj) (parse_members n r))
     | None \<Rightarrow> (case expect (CHR ''['') s of
         Some r \<Rightarrow> (case expect (CHR '']'') r of
             Some r' \<Rightarrow> Some (JArr [], r') | None \<Rightarrow> map_option (apfst JArr) (parse_elems n r))
       | None \<Rightarrow> parse_atom (skip_ws s)))"
| "parse_elems 0 s = None"
| "parse_elems (Suc n) s = (case parse_value n s of
       None \<Rightarrow> None
     | Some (j, r) \<Rightarrow> (case expect (CHR '','') r of
         Some r' \<Rightarrow> map_option (apfst (Cons j)) (parse_elems n r')
       | None \<Rightarrow> map_option (Pair [j]) (expect (CHR '']'') r)))"
| "parse_members 0 s = None"
| "parse_members (Suc n) s = (case parse_key s of
       None \<Rightarrow> None
     | Some (k, s') \<Rightarrow> (case parse_value n s' of
         None \<Rightarrow> None
       | Some (j, r) \<Rightarrow> (case expect (CHR '','') r of
           Some r' \<Rightarrow> map_option (apfst (Cons (k, j))) (parse_members n r')
         | None \<Rightarrow> map_option (Pair [(k, j)]) (expect (CHR ''}'') r))))"

text \<open>\<open>json.NewDecoder(r).Decode\<close>: the first value of the text; what follows it stays unread.\<close>

definition parse_json :: "string \<Rightarrow> json option" where
  "parse_json s = map_option fst (parse_value (2 * length s + 2) s)"

section \<open>The fuel is enough\<close>

lemma skip_ws_length: "length (skip_ws s) \<le> length s"
  by (simp add: skip_ws_def length_dropWhile_le)

lemma expect_length: "expect c s = Some r \<Longrightarrow> length r < length s"
  using skip_ws_length [of s] by (auto simp: expect_def split: list.splits if_splits)

lemma parse_chars_length: "parse_chars s = Some (x, r) \<Longrightarrow> length r < length s"
proof (induction s arbitrary: x r rule: parse_chars.induct)
  case (2 c cs)
  then show ?case by (fastforce dest: unescape_length split: if_splits option.splits prod.splits)
qed simp

lemma parse_key_length: "parse_key s = Some (k, r) \<Longrightarrow> length r < length s"
  by (fastforce simp: parse_key_def dest: expect_length parse_chars_length split: option.splits)

lemma parse_atom_length:
  assumes "parse_atom s = Some (j, r)"
  shows "length r < length s"
proof (cases s)
  case Nil
  with assms show ?thesis by (simp add: parse_atom_def has_prefix_def number_def)
next
  case (Cons c cs)
  have "length (dropWhile num_char s) < length s" if "number (takeWhile num_char s) \<noteq> None"
    using that Cons length_dropWhile_le [of num_char cs] by (auto simp: number_def Let_def split: if_splits)
  with assms Cons show ?thesis
    by (auto simp: parse_atom_def dest: parse_chars_length split: if_splits)
qed

definition fuel_ok :: "(nat \<Rightarrow> string \<Rightarrow> ('a \<times> string) option) \<Rightarrow> string \<Rightarrow> ('a \<times> string) option \<Rightarrow> bool" where
  "fuel_ok p s v \<longleftrightarrow> (\<forall>x r. v = Some (x, r) \<longrightarrow>
     length r < length s \<and> (\<forall>m. 2 * (length s - length r) \<le> m \<longrightarrow> p m s = Some (x, r)))"

lemma fuel_okD:
  "fuel_ok p s (Some (x, r)) \<Longrightarrow> length r < length s"
  "fuel_ok p s (Some (x, r)) \<Longrightarrow> 2 * (length s - length r) \<le> m \<Longrightarrow> p m s = Some (x, r)"
  by (auto simp: fuel_ok_def)

lemma fuel_okI:
  assumes "\<And>x r. v = Some (x, r) \<Longrightarrow> length r < length s"
    and "\<And>x r m. v = Some (x, r) \<Longrightarrow> 2 * (length s - length r) \<le> Suc m \<Longrightarrow> p (Suc m) s = Some (x, r)"
  shows "fuel_ok p s v"
  unfolding fuel_ok_def
proof (intro allI impI conjI)
  fix x r m
  assume v: "v = Some (x, r)" and m: "2 * (length s - length r) \<le> m"
  from assms(1) [OF v] m obtain k where "m = Suc k" by (cases m) auto
  with assms(2) [OF v, of k] m show "p m s = Some (x, r)" by simp
qed (use assms(1) in blast)

lemma parse_fuel:
  "fuel_ok parse_value s (parse_value n s)"
  "fuel_ok parse_elems s (parse_elems n s)"
  "fuel_ok parse_members s (parse_members n s)"
proof (induction n s and n s and n s rule: parse_value_parse_elems_parse_members.induct)
  case (2 n s)
  show ?case
  proof (rule fuel_okI)
    fix x r assume v: "parse_value (Suc n) s = Some (x, r)"
    show "length r < length s"
      using v 2 skip_ws_length [of s]
      by (fastforce dest: expect_length fuel_okD(1) parse_atom_length split: option.splits)
    fix m assume m: "2 * (length s - length r) \<le> Suc m"
    have mem: "parse_members m q = Some (ms, r)"
      if "expect (CHR ''{'') s = Some q" "expect (CHR ''}'') q = None" "parse_members n q = Some (ms, r)" for q ms
      using 2(2) [OF that(1,2)] m expect_length [OF that(1)] fuel_okD [of parse_members q ms r] unfolding that(3) by simp
    have elt: "parse_elems m q = Some (js, r)"
      if "expect (CHR ''{'') s = None" "expect (CHR ''['') s = Some q" "expect (CHR '']'') q = None" "parse_elems n q = Some (js, r)" for q js
      using 2(1) [OF that(1-3)] m expect_length [OF that(2)] fuel_okD [of parse_elems q js r] unfolding that(4) by simp
    show "parse_value (Suc m) s = Some (x, r)"
      using v mem elt by (auto split: option.splits)
  qed
next
  case (4 n s)
  show ?case
  proof (rule fuel_okI)
    fix x r assume v: "parse_elems (Suc n) s = Some (x, r)"
    from v obtain j q where j: "parse_value n s = Some (j, q)" by (auto split: option.splits)
    have q: "length q < length s" "\<And>m. 2 * (length s - length q) \<le> m \<Longrightarrow> parse_value m s = Some (j, q)"
      using fuel_okD [OF 4(1) [unfolded j]] by simp_all
    have more: "length r < length q' \<and> (\<forall>m. 2 * (length q' - length r) \<le> m \<longrightarrow> parse_elems m q' = Some (js, r))"
      if "expect (CHR '','') q = Some q'" "parse_elems n q' = Some (js, r)" for q' js
      using fuel_okD [OF 4(2) [OF j refl that(1), unfolded that(2)]] by simp
    show "length r < length s"
    proof (cases "expect (CHR '','') q")
      case None
      with v j q(1) show ?thesis by (auto dest: expect_length)
    next
      case (Some q')
      with v j obtain js where "parse_elems n q' = Some (js, r)" by auto
      with more [OF Some this] expect_length [OF Some] q(1) show ?thesis by simp
    qed
    fix m assume m: "2 * (length s - length r) \<le> Suc m"
    show "parse_elems (Suc m) s = Some (x, r)"
    proof (cases "expect (CHR '','') q")
      case None
      with v j have r: "expect (CHR '']'') q = Some r" "x = [j]" by auto
      with q m None expect_length [OF r(1)] show ?thesis by simp
    next
      case (Some q')
      with v j obtain js where js: "parse_elems n q' = Some (js, r)" "x = j # js" by auto
      have l: "length r < length q'" "length q' < length q" using more [OF Some js(1)] expect_length [OF Some] by simp_all
      have "parse_value m s = Some (j, q)" by (rule q(2)) (use m l q(1) in arith)
      moreover have "parse_elems m q' = Some (js, r)" using more [OF Some js(1)] m l q(1) by simp
      ultimately show ?thesis using Some js(2) by simp
    qed
  qed
next
  case (6 n s)
  show ?case
  proof (rule fuel_okI)
    fix x r assume v: "parse_members (Suc n) s = Some (x, r)"
    from v obtain k s' j q where k: "parse_key s = Some (k, s')" and j: "parse_value n s' = Some (j, q)" by (auto split: option.splits)
    have q: "length q < length s'" "\<And>m. 2 * (length s' - length q) \<le> m \<Longrightarrow> parse_value m s' = Some (j, q)"
      using fuel_okD [OF 6(1) [OF k refl, unfolded j]] by simp_all
    have more: "length r < length q' \<and> (\<forall>m. 2 * (length q' - length r) \<le> m \<longrightarrow> parse_members m q' = Some (js, r))"
      if "expect (CHR '','') q = Some q'" "parse_members n q' = Some (js, r)" for q' js
      using fuel_okD [OF 6(2) [OF k refl j refl that(1), unfolded that(2)]] by simp
    show "length r < length s"
    proof (cases "expect (CHR '','') q")
      case None
      with v k j q(1) parse_key_length [OF k] show ?thesis by (auto dest: expect_length)
    next
      case (Some q')
      with v k j obtain js where "parse_members n q' = Some (js, r)" by auto
      with more [OF Some this] expect_length [OF Some] q(1) parse_key_length [OF k] show ?thesis by simp
    qed
    fix m assume m: "2 * (length s - length r) \<le> Suc m"
    show "parse_members (Suc m) s = Some (x, r)"
    proof (cases "expect (CHR '','') q")
      case None
      with v k j have r: "expect (CHR ''}'') q = Some r" "x = [(k, j)]" by auto
      with k q m None expect_length [OF r(1)] parse_key_length [OF k] show ?thesis by simp
    next
      case (Some q')
      with v k j obtain js where js: "parse_members n q' = Some (js, r)" "x = (k, j) # js" by auto
      have l: "length r < length q'" "length q' < length q" "length s' < length s"
        using more [OF Some js(1)] expect_length [OF Some] parse_key_length [OF k] by simp_all
      have "parse_value m s' = Some (j, q)" by (rule q(2)) (use m l q(1) in arith)
      moreover have "parse_members m q' = Some (js, r)" using more [OF Some js(1)] m l q(1) by simp
      ultimately show ?thesis using Some js(2) k by simp
    qed
  qed
qed (simp_all add: fuel_ok_def)

lemma parse_value_fuel:
  assumes "parse_value n s = Some (j, r)"
  shows "parse_json s = Some j"
  using fuel_okD(2) [OF parse_fuel(1) [of s n, unfolded assms], of "2 * length s + 2"] by (simp add: parse_json_def)

section \<open>Round trip\<close>

fun wf_json :: "json \<Rightarrow> bool" where
  "wf_json (JFrac l) = (list_all num_char l \<and> number l = Some (JFrac l))"
| "wf_json (JArr js) = list_all wf_json js"
| "wf_json (JObj ms) = list_all (\<lambda>m. wf_json (snd m)) ms"
| "wf_json j = True"

lemma hex_char_simps:
  assumes "n < 16"
  shows "is_hex (hex_char n)" "hex_val (hex_char n) = n"
  using assms by (auto simp: is_hex_def hex_val_def hex_char_def Let_def)

lemma append_singleton: "append [x] = Cons x"
  by (rule ext) simp

lemma parse_chars_quote_char: "parse_chars (quote_char c @ r) = map_option (apfst (Cons c)) (parse_chars r)"
proof (cases "c \<in> {CHR 0x22, CHR 0x5C, CHR 0x08, CHR 0x0C, CHR 0x0A, CHR 0x0D, CHR 0x09}")
  case True
  then show ?thesis by (elim insertE emptyE) (simp_all add: quote_char_def unescape_def append_singleton)
next
  case False
  let ?n = "of_char c :: nat"
  show ?thesis
  proof (cases "?n < 32 \<or> c \<in> {CHR ''<'', CHR ''>'', CHR ''&''}")
    case True
    then have n: "?n < 128" by auto
    then have h: "?n div 16 < 16" "?n mod 16 < 16" by simp_all
    have "code4 (CHR ''0'' # CHR ''0'' # hex_char (?n div 16) # hex_char (?n mod 16) # r) = Some (?n, r)"
      using hex_char_simps [OF h(1)] hex_char_simps [OF h(2)] by (simp add: code4_def is_hex_def hex_val_def Let_def)
    with True False n show ?thesis by (simp add: quote_char_def unescape_def utf8_def append_singleton)
  qed (use False in \<open>auto simp: quote_char_def\<close>)
qed

lemma parse_chars_quote: "parse_chars (concat (map quote_char s) @ CHR 0x22 # r) = Some (s, r)"
  by (induction s) (simp_all add: parse_chars_quote_char del: parse_chars.simps(2), simp)

lemma takeWhile_until: "list_all p a \<Longrightarrow> b = [] \<or> \<not> p (hd b) \<Longrightarrow> takeWhile p (a @ b) = a \<and> dropWhile p (a @ b) = b"
  by (induction a) (cases b; auto)+

lemma itoa_num_chars: "list_all num_char (itoa i)"
  using itoa_nat_digits by (auto simp: itoa_def num_char_def list_all_iff)

lemma number_itoa: "number (itoa i) = Some (JNum i)"
proof -
  have d: "takeWhile is_digit (itoa_nat n) = itoa_nat n" "dropWhile is_digit (itoa_nat n) = []" for n
    using takeWhile_until [OF itoa_nat_digits, of "[]" n] by simp_all
  have "hd (itoa_nat n) \<noteq> CHR ''-''" for n using itoa_nat_hd_digit [of n] by (auto simp: is_digit_def)
  then show ?thesis
    using itoa_nat_leading by (auto simp: d number_def itoa_def Let_def dec_val_itoa_nat dest: bspec [OF itoa_nat_digits [unfolded list_all_iff]])
qed

text \<open>No value begins with white space or a closing or separating character.\<close>

definition opens :: "string \<Rightarrow> bool" where
  "opens s \<longleftrightarrow> s \<noteq> [] \<and> hd s \<notin> {CHR '' '', CHR 0x09, CHR 0x0A, CHR 0x0D, CHR '','', CHR '']'', CHR ''}''}"

lemma number_hd: "number l \<noteq> None \<Longrightarrow> l \<noteq> [] \<and> (hd l = CHR ''-'' \<or> is_digit (hd l))"
  by (cases l) (auto simp: number_def Let_def split: if_splits)

lemma number_opens:
  assumes "number l \<noteq> None"
  shows "opens l" and "hd l \<notin> {CHR ''{'', CHR ''['', CHR 0x22, CHR ''n'', CHR ''t'', CHR ''f''}"
  using number_hd [OF assms] by (auto simp: opens_def is_digit_def)

lemma render_opens: "wf_json j \<Longrightarrow> opens (render j)"
  using number_opens(1) [of "itoa i" for i] number_opens(1)
  by (cases j) (auto simp: number_itoa opens_def quote_def)

lemma elems_opens: "js \<noteq> [] \<Longrightarrow> list_all wf_json js \<Longrightarrow> opens (render_elems js)"
  by (cases js rule: render_elems.cases) (auto dest: render_opens simp: opens_def)

lemma members_opens: "ms \<noteq> [] \<Longrightarrow> opens (render_members ms)"
  by (cases ms rule: render_members.cases) (auto simp: opens_def quote_def)

lemma expect_opens:
  assumes "opens s"
  shows "skip_ws (s @ r) = s @ r" "expect c (s @ r) = (if hd s = c then Some (tl s @ r) else None)"
  using assms by (cases s; auto simp: opens_def skip_ws_def expect_def)+

lemma expect_here: "c \<notin> {CHR '' '', CHR 0x09, CHR 0x0A, CHR 0x0D} \<Longrightarrow> expect d (c # r) = (if c = d then Some r else None)"
  by (auto simp: expect_def skip_ws_def)

lemma parse_atom_number:
  assumes "number l = Some j" and "list_all num_char l" and "r = [] \<or> \<not> num_char (hd r)"
  shows "parse_value (Suc m) (l @ r) = Some (j, r)"
proof -
  have n: "number l \<noteq> None" using assms(1) by simp
  obtain c cs where l: "l = c # cs" using number_hd [OF n] by (cases l) auto
  have "parse_atom (l @ r) = Some (j, r)"
    using number_opens(2) [OF n] takeWhile_until [OF assms(2,3)] assms(1) by (simp add: parse_atom_def has_prefix_def l)
  then show ?thesis using number_opens [OF n] by (simp add: expect_opens [where s = l and r = r])
qed

lemma parse_atom_literals:
  "parse_value (Suc m) (''null'' @ r) = Some (JNull, r)"
  "parse_value (Suc m) (''true'' @ r) = Some (JBool True, r)"
  "parse_value (Suc m) (''false'' @ r) = Some (JBool False, r)"
  "parse_value (Suc m) (quote s @ r) = Some (JStr s, r)"
  by (simp_all add: expect_here quote_def parse_atom_def has_prefix_def skip_ws_def parse_chars_quote)

lemma parse_key_quote: "parse_key (quote k @ CHR '':'' # r) = Some (k, r)"
  by (simp add: parse_key_def quote_def expect_here parse_chars_quote)

text \<open>
  What is written is read back, with any fuel of at least twice its length, whatever follows it
  (a number must not be followed by more of a number).
\<close>

definition reads :: "(nat \<Rightarrow> string \<Rightarrow> ('a \<times> string) option) \<Rightarrow> string \<Rightarrow> 'a \<Rightarrow> string \<Rightarrow> bool" where
  "reads p s x r \<longleftrightarrow> (\<forall>m. 2 * length s \<le> m \<longrightarrow> p m (s @ r) = Some (x, r))"

lemma readsD: "reads p s x r \<Longrightarrow> 2 * length s \<le> m \<Longrightarrow> p m (s @ r) = Some (x, r)"
  by (simp add: reads_def)

lemma readsI: "s \<noteq> [] \<Longrightarrow> (\<And>m. 2 * length s \<le> Suc m \<Longrightarrow> p (Suc m) (s @ r) = Some (x, r)) \<Longrightarrow> reads p s x r"
  unfolding reads_def by (metis Suc_le_D length_greater_0_conv less_eq_Suc_le mult_pos_pos order_less_le_trans zero_less_numeral)

lemma comma_stop: "\<not> num_char (CHR '','')" "\<not> num_char (CHR '']'')" "\<not> num_char (CHR ''}'')"
  by (simp_all add: num_char_def is_digit_def)

lemma reads_atoms:
  "reads parse_value ''null'' JNull r" "reads parse_value ''true'' (JBool True) r" "reads parse_value ''false'' (JBool False) r"
  "reads parse_value (quote s) (JStr s) r"
  by (rule readsI, simp add: quote_def, rule parse_atom_literals)+

lemma reads_number:
  assumes "number l = Some j" and "list_all num_char l" and "r = [] \<or> \<not> num_char (hd r)"
  shows "reads parse_value l j r"
  by (rule readsI) (use number_hd [of l] parse_atom_number [OF assms] assms(1) in \<open>simp_all del: parse_value.simps\<close>)

lemma reads_arr:
  assumes "js = [] \<or> opens (render_elems js) \<and> reads parse_elems (render_elems js @ '']'') js r"
  shows "reads parse_value (render (JArr js)) (JArr js) r"
proof (rule readsI)
  fix m assume m: "2 * length (render (JArr js)) \<le> Suc m"
  show "parse_value (Suc m) (render (JArr js) @ r) = Some (JArr js, r)"
  proof (cases "js = []")
    case False
    with assms have o: "opens (render_elems js)" and "reads parse_elems (render_elems js @ '']'') js r" by simp_all
    from readsD [OF this(2), of m] m have "parse_elems m (render_elems js @ CHR '']'' # r) = Some (js, r)" by simp
    with o show ?thesis by (simp add: expect_here expect_opens(2) [OF o]) (simp add: opens_def)
  qed (simp add: expect_here)
qed simp

lemma reads_obj:
  assumes "ms = [] \<or> reads parse_members (render_members ms @ ''}'') ms r"
  shows "reads parse_value (render (JObj ms)) (JObj ms) r"
proof (rule readsI)
  fix m assume m: "2 * length (render (JObj ms)) \<le> Suc m"
  show "parse_value (Suc m) (render (JObj ms) @ r) = Some (JObj ms, r)"
  proof (cases "ms = []")
    case False
    with assms have "reads parse_members (render_members ms @ ''}'') ms r" and o: "opens (render_members ms)"
      using members_opens by simp_all
    from readsD [OF this(1), of m] m have "parse_members m (render_members ms @ CHR ''}'' # r) = Some (ms, r)" by simp
    with o show ?thesis by (simp add: expect_here expect_opens(2) [OF o]) (simp add: opens_def)
  qed (simp add: expect_here)
qed simp

lemma reads_elem:
  assumes "s \<noteq> []"
  shows "reads parse_value s j (CHR '']'' # r) \<Longrightarrow> reads parse_elems (s @ '']'') [j] r"
    and "reads parse_value s j (CHR '','' # e @ r) \<Longrightarrow> reads parse_elems e js r \<Longrightarrow> reads parse_elems (s @ '','' @ e) (j # js) r"
proof -
  assume v: "reads parse_value s j (CHR '']'' # r)"
  show "reads parse_elems (s @ '']'') [j] r"
    by (rule readsI) (use readsD [OF v] in \<open>simp_all add: expect_here\<close>)
next
  assume v: "reads parse_value s j (CHR '','' # e @ r)" and e: "reads parse_elems e js r"
  show "reads parse_elems (s @ '','' @ e) (j # js) r"
    by (rule readsI) (use readsD [OF v] readsD [OF e] assms in \<open>simp_all add: expect_here\<close>)
qed

lemma reads_member:
  shows "reads parse_value s j (CHR ''}'' # r) \<Longrightarrow> reads parse_members (quote k @ '':'' @ s @ ''}'') [(k, j)] r"
    and "reads parse_value s j (CHR '','' # e @ r) \<Longrightarrow> reads parse_members e ms r \<Longrightarrow>
      reads parse_members (quote k @ '':'' @ s @ '','' @ e) ((k, j) # ms) r"
proof -
  assume v: "reads parse_value s j (CHR ''}'' # r)"
  show "reads parse_members (quote k @ '':'' @ s @ ''}'') [(k, j)] r"
    by (rule readsI) (use readsD [OF v] in \<open>simp_all add: expect_here parse_key_quote\<close>)
next
  assume v: "reads parse_value s j (CHR '','' # e @ r)" and e: "reads parse_members e ms r"
  show "reads parse_members (quote k @ '':'' @ s @ '','' @ e) ((k, j) # ms) r"
    by (rule readsI) (use readsD [OF v] readsD [OF e] in \<open>simp_all add: expect_here parse_key_quote\<close>)
qed

lemma render_reads:
  "wf_json j \<Longrightarrow> r = [] \<or> \<not> num_char (hd r) \<Longrightarrow> reads parse_value (render j) j r"
  "list_all wf_json js \<Longrightarrow> js \<noteq> [] \<Longrightarrow> reads parse_elems (render_elems js @ '']'') js r"
  "list_all (\<lambda>m. wf_json (snd m)) ms \<Longrightarrow> ms \<noteq> [] \<Longrightarrow> reads parse_members (render_members ms @ ''}'') ms r"
proof (induction j and js and ms arbitrary: r and r and r rule: render_render_elems_render_members.induct)
  case (6 js)
  then show ?case by (intro reads_arr) (auto intro: elems_opens)
next
  case (7 ms)
  then show ?case by (intro reads_obj) auto
next
  case (9 j)
  then show ?case using render_opens [of j] by (simp add: comma_stop opens_def reads_elem(1))
next
  case (10 j k js)
  then show ?case using render_opens [of j] reads_elem(2) [of "render j" j "render_elems (k # js) @ '']''" _ "k # js"]
    by (simp add: comma_stop opens_def)
next
  case (12 k j)
  then show ?case using reads_member(1) [of "render j" j _ k] by (simp add: comma_stop)
next
  case (13 k j m ms)
  then show ?case using reads_member(2) [of "render j" j "render_members (m # ms) @ ''}''" _ "m # ms" k] by (simp add: comma_stop)
qed (simp_all add: reads_atoms reads_number [OF number_itoa itoa_num_chars] reads_number)

text \<open>What \<open>json.Marshal\<close> writes, \<open>Decode\<close> reads back.\<close>

lemma parse_render: "wf_json j \<Longrightarrow> parse_json (render j) = Some j"
  using readsD [OF render_reads(1) [of j "[]"], of "2 * length (render j) + 2"] by (simp add: parse_json_def)

section \<open>The contract of a wire format\<close>

text \<open>What a sender and a receiver rely on: well-formed data is read back, so that it is determined by its text.\<close>

locale wire_format =
  fixes enc :: "'a \<Rightarrow> string" and dec :: "string \<Rightarrow> 'a option" and ok :: "'a \<Rightarrow> bool"
  assumes read_back: "ok x \<Longrightarrow> dec (enc x) = Some x"
begin

lemma text_determines: "ok x \<Longrightarrow> ok y \<Longrightarrow> enc x = enc y \<longleftrightarrow> x = y"
  by (metis option.inject read_back)

lemma received: "ok x \<Longrightarrow> (case dec (enc x) of None \<Rightarrow> None | Some y \<Rightarrow> f y) = f x"
  by (simp add: read_back)

end

interpretation wire: wire_format render parse_json wf_json
  by unfold_locales (rule parse_render)

end
