(* ===== verification/Control_Api.thy ===== *)
theory Control_Api
  imports Daemon_Safety Json
begin

text \<open>
  The control plane on the wire: the JSON of its requests and responses (the field tags of
  \<open>internal/daemon/controller.go\<close>, \<open>internal/lifecycle/manager.go\<close> and \<open>worker.go\<close>) and the
  dispatcher of \<open>NewControlPlaneHandler\<close> in \<open>internal/daemon/api.go\<close>.  Names of fields are ASCII
  and match whatever their case; an object has each name once; \<open>null\<close> keeps or clears a field.
\<close>

section \<open>Decoding into structs\<close>

definition put_str :: "json \<Rightarrow> (string \<Rightarrow> 'r) \<Rightarrow> 'r \<Rightarrow> 'r option" where
  "put_str j f r = (case j of JNull \<Rightarrow> Some r | JStr s \<Rightarrow> Some (f s) | _ \<Rightarrow> None)"

definition put_bool :: "json \<Rightarrow> (bool \<Rightarrow> 'r) \<Rightarrow> 'r \<Rightarrow> 'r option" where
  "put_bool j f r = (case j of JNull \<Rightarrow> Some r | JBool b \<Rightarrow> Some (f b) | _ \<Rightarrow> None)"

definition put_int :: "json \<Rightarrow> (int \<Rightarrow> 'r) \<Rightarrow> 'r \<Rightarrow> 'r option" where
  "put_int j f r = (case j of JNull \<Rightarrow> Some r
     | JNum i \<Rightarrow> if - (2 ^ 63) \<le> i \<and> i < 2 ^ 63 then Some (f i) else None
     | _ \<Rightarrow> None)"

fun decode_fields :: "(string \<Rightarrow> json \<Rightarrow> 'r \<Rightarrow> 'r option) \<Rightarrow> (string \<times> json) list \<Rightarrow> 'r \<Rightarrow> 'r option" where
  "decode_fields put [] r = Some r"
| "decode_fields put ((k, j) # ms) r = (case put (to_lower k) j r of None \<Rightarrow> None | Some r' \<Rightarrow> decode_fields put ms r')"

definition decode_struct :: "(string \<Rightarrow> json \<Rightarrow> 'r \<Rightarrow> 'r option) \<Rightarrow> 'r \<Rightarrow> json \<Rightarrow> 'r option" where
  "decode_struct put zero j = (case j of JNull \<Rightarrow> Some zero | JObj ms \<Rightarrow> decode_fields put ms zero | _ \<Rightarrow> None)"

definition decode_slice :: "(json \<Rightarrow> 'a option) \<Rightarrow> json \<Rightarrow> 'a list option" where
  "decode_slice elem j = (case j of JNull \<Rightarrow> Some [] | JArr js \<Rightarrow> those (map elem js) | _ \<Rightarrow> None)"

definition decode_string :: "json \<Rightarrow> string option" where
  "decode_string j = put_str j id ''''"

definition decode_string_map :: "json \<Rightarrow> (string \<times> string) list option" where
  "decode_string_map j = (case j of
       JNull \<Rightarrow> Some []
     | JObj ms \<Rightarrow> those (map (\<lambda>(k, v). map_option (Pair k) (decode_string v)) ms)
     | _ \<Rightarrow> None)"

definition mapping_field :: "string \<Rightarrow> json \<Rightarrow> port_mapping \<Rightarrow> port_mapping option" where
  "mapping_field k j m =
     (if k = ''host_interface'' then put_str j (\<lambda>s. m\<lparr>HostInterface := s\<rparr>) m
      else if k = ''host_port'' then put_int j (\<lambda>i. m\<lparr>HostPort := i\<rparr>) m
      else if k = ''guest_port'' then put_int j (\<lambda>i. m\<lparr>GuestPort := i\<rparr>) m
      else if k = ''protocol'' then put_str j (\<lambda>s. m\<lparr>Protocol := s\<rparr>) m
      else Some m)"

definition decode_mapping :: "json \<Rightarrow> port_mapping option" where
  "decode_mapping = decode_struct mapping_field \<lparr>HostInterface = '''', HostPort = 0, GuestPort = 0, Protocol = ''''\<rparr>"

definition empty_request :: create_request where
  "empty_request = \<lparr>rq_SessionID = '''', rq_Image = '''', rq_Command = [], rq_Env = [], rq_IdleTimeoutSeconds = 0, rq_TTLSeconds = 0,
     rq_HealthInterval = '''', rq_Warm = False, rq_VCPUs = 0, rq_MemoryMB = 0, rq_PortMappings = []\<rparr>"

definition create_field :: "string \<Rightarrow> json \<Rightarrow> create_request \<Rightarrow> create_request option" where
  "create_field k j r =
     (if k = ''session_id'' then put_str j (\<lambda>s. r\<lparr>rq_SessionID := s\<rparr>) r
      else if k = ''image'' then put_str j (\<lambda>s. r\<lparr>rq_Image := s\<rparr>) r
      else if k = ''command'' then map_option (\<lambda>c. r\<lparr>rq_Command := c\<rparr>) (decode_slice decode_string j)
      else if k = ''env'' then map_option (\<lambda>m. r\<lparr>rq_Env := m\<rparr>) (decode_string_map j)
      else if k = ''idle_timeout_seconds'' then put_int j (\<lambda>i. r\<lparr>rq_IdleTimeoutSeconds := i\<rparr>) r
      else if k = ''ttl_seconds'' then put_int j (\<lambda>i. r\<lparr>rq_TTLSeconds := i\<rparr>) r
      else if k = ''health_interval'' then put_str j (\<lambda>s. r\<lparr>rq_HealthInterval := s\<rparr>) r
      else if k = ''warm'' then put_bool j (\<lambda>b. r\<lparr>rq_Warm := b\<rparr>) r
      else if k = ''vcpus'' then put_int j (\<lambda>i. r\<lparr>rq_VCPUs := i\<rparr>) r
      else if k = ''memory_mb'' then put_int j (\<lambda>i. r\<lparr>rq_MemoryMB := i\<rparr>) r
      else if k = ''port_mappings'' then map_option (\<lambda>ms. r\<lparr>rq_PortMappings := ms\<rparr>) (decode_slice decode_mapping j)
      else Some r)"

definition decode_create :: "string \<Rightarrow> create_request option" where
  "decode_create body = (case parse_json body of None \<Rightarrow> None | Some j \<Rightarrow> decode_struct create_field empty_request j)"

definition decode_warm :: "string \<Rightarrow> string option" where
  "decode_warm body = (case parse_json body of None \<Rightarrow> None
     | Some j \<Rightarrow> decode_struct (\<lambda>k v img. if k = ''image'' then put_str v id img else Some img) '''' j)"

section \<open>Responses\<close>

definition mapping_json :: "port_mapping \<Rightarrow> json" where
  "mapping_json m = JObj [(''host_interface'', JStr (HostInterface m)), (''host_port'', JNum (HostPort m)),
     (''guest_port'', JNum (GuestPort m)), (''protocol'', JStr (Protocol m))]"

definition created_json :: "create_response \<Rightarrow> json" where
  "created_json r = JObj ([(''session_id'', JStr (rs_SessionID r)), (''internal_ip'', JStr (rs_InternalIP r)),
     (''proxy_address'', JStr (rs_ProxyAddress r))] @
     (if rs_PortMappings r = [] then [] else [(''port_mappings'', JArr (map mapping_json (rs_PortMappings r)))]))"

text \<open>\<open>stamp\<close> is the text of a \<open>time.Time\<close> in JSON.\<close>

definition session_json :: "(int \<Rightarrow> string) \<Rightarrow> session_state \<Rightarrow> json" where
  "session_json stamp st = JObj [(''session_id'', JStr (ss_SessionID st)), (''created_at'', JStr (stamp (ss_CreatedAt st))),
     (''last_control_heartbeat'', JStr (stamp (ss_LastControlHeartbeat st))), (''last_data_activity'', JStr (stamp (ss_LastDataActivity st))),
     (''active_conns'', JNum (ss_ActiveConns st)), (''idle_ttl'', JNum (ss_IdleTTL st)), (''absolute_ttl'', JNum (ss_AbsoluteTTL st)),
     (''port_mappings'', JArr (map mapping_json (ss_PortMappings st)))]"

text \<open>Status and body of a reply; \<open>log_text\<close> gives the text of a log file.\<close>

record api_io =
  io_env :: env
  io_open :: "string \<Rightarrow> bool"
  io_hijack :: "bool option"
  io_dial :: "string \<Rightarrow> nat \<Rightarrow> bool"
  io_order :: "sid list"
  io_stamp :: "int \<Rightarrow> string"
  io_log :: "string \<Rightarrow> string"

fun respond :: "api_io \<Rightarrow> reply \<Rightarrow> nat \<times> string" where
  "respond io (Status n msg) = (n, msg)"
| "respond io (CreatedReply r) = (200, render (created_json r) @ [CHR 0x0A])"
| "respond io (SessionsReply sts) = (200, render (JArr (map (session_json (io_stamp io)) sts)))"
| "respond io (LogReply path) = (200, io_log io path)"
| "respond io (ExecReply path) = (101, '''')"

section \<open>Dispatch\<close>

definition serve :: "api_io \<Rightarrow> string \<Rightarrow> string list \<Rightarrow> string \<Rightarrow> daemon \<Rightarrow> reply outcome \<times> daemon" where
  "serve io meth path body d = (case route meth path of
       EHealth \<Rightarrow> (Returns handleHealthCheck, d)
     | ECreate \<Rightarrow> handleCreateSession decode_create (io_env io) (Some body) d
     | EList \<Rightarrow> (Returns (handleListSessions (io_order io) d), d)
     | EDelete s \<Rightarrow> apfst Returns (handleDeleteSession (io_env io) s d)
     | ELogs s \<Rightarrow> (Returns (handleLogsSession (io_open io) s d), d)
     | EExec s \<Rightarrow> (Returns (handleExecSession (io_hijack io) (io_dial io) s d), d)
     | EHeartbeat s \<Rightarrow> apfst Returns (handleHeartbeat (io_env io) s d)
     | EWarm \<Rightarrow> apfst Returns (handleWarmImage decode_warm (io_env io) body d)
     | EMethodNotAllowed \<Rightarrow> (Returns (Status 405 ''Method Not Allowed''), d)
     | ENotFound \<Rightarrow> (Returns (Status 404 ''404 page not found''), d))"

section \<open>Every request is answered and keeps the invariant\<close>

lemma Heartbeat_daemon_inv: "daemon_inv N d \<Longrightarrow> daemon_inv N (UpdateHeartbeat e s d)"
  by (simp add: UpdateHeartbeat_def daemon_inv_def Heartbeat_inv)

lemma handleCreate_safe:
  assumes "daemon_inv N d" and "handleCreateSession dec e body d = (out, d')"
  shows "case out of Panics \<Rightarrow> False
    | Blocks \<Rightarrow> p_tickets (d_pool d) = 0 \<and> \<not> e_ctxDone e
    | Returns r \<Rightarrow> daemon_inv N d' \<and> fst (respond io r) \<in> {200, 400, 500}"
  using assms CreateSession_inv [OF assms(1)] CreateSession_post [OF assms(1)]
  by (fastforce simp: handleCreateSession_def create_post_def split: option.splits if_splits prod.splits outcome.splits sum.splits)

lemma read_handlers_status:
  "fst (respond io handleHealthCheck) = 200" "fst (respond io (handleListSessions order d)) = 200"
  "fst (respond io (handleLogsSession op s d)) \<in> {200, 400, 404}"
  "fst (respond io (handleExecSession hj dial s d)) \<in> {101, 400, 404, 500}"
  by (auto simp: handleHealthCheck_def handleListSessions_def handleLogsSession_def handleExecSession_def Let_def split: sum.splits option.splits bool.splits)

lemma write_handlers_safe:
  assumes "daemon_inv N d"
  shows "daemon_inv N (snd (handleDeleteSession e s d)) \<and> fst (respond io (fst (handleDeleteSession e s d))) \<in> {200, 400, 500}"
    and "daemon_inv N (snd (handleHeartbeat e s d)) \<and> fst (respond io (fst (handleHeartbeat e s d))) \<in> {200, 400}"
    and "daemon_inv N (snd (handleWarmImage dec e body d)) \<and> fst (respond io (fst (handleWarmImage dec e body d))) \<in> {200, 400, 500}"
  using assms DeleteSession_inv [OF assms, of e s "''api_requested''"] Heartbeat_daemon_inv [OF assms, of e s]
  by (auto simp: handleDeleteSession_def handleHeartbeat_def handleWarmImage_def split: option.splits prod.splits)
     (metis controller_WarmImage_inv [OF assms] snd_conv)+

lemma apfst_eq: "apfst f x = (a, b) \<longleftrightarrow> a = f (fst x) \<and> b = snd x"
  by (cases x) auto

lemma serve_safe:
  assumes "daemon_inv N d" and "serve io meth path body d = (out, d')"
  shows "case out of
      Panics \<Rightarrow> False
    | Blocks \<Rightarrow> route meth path = ECreate \<and> p_tickets (d_pool d) = 0 \<and> \<not> e_ctxDone (io_env io)
    | Returns r \<Rightarrow> daemon_inv N d' \<and> fst (respond io r) \<in> {101, 200, 400, 404, 405, 500}"
proof (cases "route meth path")
  case ECreate
  with assms(2) have "handleCreateSession decode_create (io_env io) (Some body) d = (out, d')" by (simp add: serve_def)
  from handleCreate_safe [OF assms(1) this, of io] ECreate show ?thesis by (auto split: outcome.splits)
next
  case (EDelete s)
  with assms(2) write_handlers_safe(1) [OF assms(1), of "io_env io" s io] show ?thesis by (auto simp: serve_def apfst_eq)
next
  case (EHeartbeat s)
  with assms(2) write_handlers_safe(2) [OF assms(1), of "io_env io" s io] show ?thesis by (auto simp: serve_def apfst_eq)
next
  case EWarm
  with assms(2) write_handlers_safe(3) [OF assms(1), of decode_warm "io_env io" body io] show ?thesis by (auto simp: serve_def apfst_eq)
next
  case (ELogs s)
  with assms read_handlers_status(3) [of io "io_open io" s d] show ?thesis by (auto simp: serve_def)
next
  case (EExec s)
  with assms read_handlers_status(4) [of io "io_hijack io" "io_dial io" s d] show ?thesis by (auto simp: serve_def)
qed (use assms read_handlers_status(1,2) in \<open>auto simp: serve_def\<close>)

end
