(* ===== verification/Factory_Runs.thy ===== *)
theory Factory_Runs
  imports Factory_Safety
begin

text \<open>
  A concrete factory on a host where every call succeeds: \<open>Spawn\<close> returns a worker there.  The
  runs are the witnesses of the properties of \<open>Factory_Safety\<close>.
\<close>

section \<open>Success of the phases\<close>

abbreviation demo :: host where
  "demo \<equiv> demo_host []"

lemma demo_err: "(\<And>n a. c \<noteq> Cmd n a) \<Longrightarrow> h_err demo tr c = None"
  by (cases c) (auto simp: demo_host_def)

lemma demo_perform: "(\<And>n a. c \<noteq> Cmd n a) \<Longrightarrow> perform demo c tr = (Inr (), tr @ [(c, None)])"
  by (simp add: perform_def demo_err)

lemma demo_data:
  "h_unpacked demo tr r = True" "h_isDir demo tr p = False" "h_leases demo tr x = []"
  "h_imageConfig demo tr r = Some \<lparr>ic_Entrypoint = [], ic_Cmd = [''sh''], ic_Env = []\<rparr>"
  "h_mounts demo tr k = [\<lparr>mnt_Source = ''/dev/dm-3'', mnt_Options = []\<rparr>]"
  by (simp_all add: demo_host_def)

lemmas demo_simps = thenE_def returnE_def failE_def ignoreE_def action_alts st_do_def performG_def demo_perform demo_data Let_def

lemma fst_lift [simp]:
  "fst (fs_st m s) = fst (m (fs_store s))" "fst (fs_tr n s) = fst (n (st_trace (fs_store s)))"
  by (simp_all add: fs_st_def fs_tr_def split: prod.splits)

lemma fst_push [simp]: "fst (push u s) = Inr ()"
  by (simp add: push_def)

lemma fst_call [simp]: "(\<And>n a. c \<noteq> Cmd n a) \<Longrightarrow> fst (fs_call demo c s) = Inr ()"
  by (simp add: fs_call_def demo_perform)

lemma fst_WarmImage: "fst (WarmImage demo ref st) = Inr ()"
  by (simp add: WarmImage_def demo_simps)

lemma fst_ExtractImageConfig: "fst (ExtractImageConfig demo ref st) = Inr \<lparr>ic_Entrypoint = [], ic_Cmd = [''sh''], ic_Env = []\<rparr>"
  by (simp add: ExtractImageConfig_def demo_simps)

lemma fst_Snapshot: "st_parents st (normalizeImageRef ref) \<noteq> None \<Longrightarrow> fst (Snapshot demo vm ref st) = Inr ''/dev/dm-3''"
  by (auto simp: Snapshot_def withLease_def snapshot_mounts_def extractBlockDeviceFromMounts_def has_prefix_def demo_simps)

lemma fst_Inject: "fst (InjectGuestAgent demo vm a g st) = Inr ()"
  by (simp add: InjectGuestAgent_def withLease_def snapshot_mounts_def copy_agent_def demo_simps)

lemma fs_store_lift [simp]: "fs_store (snd (fs_st m s)) = snd (m (fs_store s))"
  by (simp add: fs_st_def split: prod.splits)

lemma fst_prepare:
  "\<exists>cmd. fst (prepare_rootfs demo f vm cfg s) = Inr (\<lparr>ic_Entrypoint = [], ic_Cmd = [''sh''], ic_Env = []\<rparr>, cmd, ''/dev/dm-3'')"
proof -
  let ?st = "snd (ExtractImageConfig demo (Image cfg) (snd (WarmImage demo (Image cfg) (fs_store s))))"
  have "WarmImage demo (Image cfg) (fs_store s) = (Inr (), snd (WarmImage demo (Image cfg) (fs_store s)))"
    using fst_WarmImage by (simp add: prod_eq_iff)
  from WarmImage_parents [OF this] have "st_parents ?st (normalizeImageRef (Image cfg)) \<noteq> None"
    using keeps_ExtractImageConfig by (simp add: keeps_parents_def)
  moreover have "final_command \<lparr>ic_Entrypoint = [], ic_Cmd = [''sh''], ic_Env = []\<rparr> (Command cfg) \<noteq> []"
    by (simp add: final_command_def)
  ultimately show ?thesis
    by (simp add: prepare_rootfs_def Let_def thenE_def returnE_def action_alts fst_WarmImage fst_ExtractImageConfig
        fst_Snapshot fst_Inject)
qed

lemma fst_mkdir: "fst (mkdir_exist_ok demo e d s) = Inr True"
  by (simp add: mkdir_exist_ok_def action_alts returnE_def)

lemma fst_if_push: "fst ((if b then push u else returnE ()) s) = Inr ()"
  by (simp add: returnE_def)

lemma fst_chroot: "fst (build_chroot demo f vm u r s) = Inr ()"
  by (simp add: build_chroot_def bindDeviceIntoChroot_def Let_def thenE_def action_alts fst_mkdir performG_def demo_perform)

lemma fst_launch: "fst (launch_vm demo nano f vm cfg u a s) = Inr ()"
  by (simp add: launch_vm_def Let_def thenE_def action_alts)

lemma fst_connect: "\<exists>p. fst (connect_guest demo (Suc n) f vm cfg img cmd s) = Inr p"
  by (simp add: connect_guest_def Let_def thenE_def action_alts ignoreE_def returnE_def)

lemma fst_tap: "ParseIP g \<noteq> None \<Longrightarrow> fst (CreatePointToPointTap demo t ''10.200.0.1'' g u v tr) = Inr ()"
proof -
  have "ParseIP ''10.200.0.1'' \<noteq> None"
    using ParseIP_ip_String [of "[10, 200, 0, 1]"]
    by (simp add: ip_String_def itoa_nat.simps digit_chars)
  then show "ParseIP g \<noteq> None \<Longrightarrow> ?thesis"
    by (simp add: CreatePointToPointTap_def orDelete_def demo_simps)
qed

section \<open>A concrete spawn\<close>

definition fc_demo_state :: fc_state where
  "fc_demo_state = \<lparr>fs_uids = \<lparr>uid_ch = [300000], uid_cap = 1, uid_start = 300000, uid_end = 300001\<rparr>,
     fs_ipam = herd_ipam, fs_ports = Some (NewPortManager 10000 39999),
     fs_store = \<lparr>st_parents = Map.empty, st_trace = []\<rparr>, fs_undo = []\<rparr>"

definition fc_demo_config :: fc_config where
  "fc_demo_config = \<lparr>FirecrackerPath = ''/usr/bin/firecracker'', JailerPath = ''/usr/bin/jailer'',
     KernelImagePath = ''/var/lib/herd/vmlinux'', GuestAgentPath = ''/usr/bin/herd-guest-agent'',
     JailerChrootBaseDir = ''/srv/jailer''\<rparr>"

definition fc_demo_tenant :: tenant_config where
  "fc_demo_tenant = \<lparr>Image = ''alpine'', Command = [], Env = [], IdleTimeoutSeconds = 0, TTLSeconds = 0,
     HealthInterval = '''', VCPUs = 1, MemoryMB = 128,
     PortMappings = [\<lparr>HostInterface = '''', HostPort = 8080, GuestPort = 80, Protocol = ''tcp''\<rparr>]\<rparr>"

lemma fc_demo_wf: "wf_factory fc_demo_state"
  using herd_ipam_ok by (simp add: wf_factory_def fc_demo_state_def wf_uid_pool_def uid_range_def)

lemma fc_demo_ports: "ports_map fc_demo_state p \<noteq> Some vm"
  by (simp add: fc_demo_state_def ports_map_def NewPortManager_def)

lemma fst_acquire_demo:
  assumes "fs_ipam s = herd_ipam"
  shows "\<exists>a. fst (acquire_ip s) = Inr a \<and> ParseIP a \<noteq> None"
proof -
  have wf: "wf_ipam herd_ipam" and used: "ipam_used herd_ipam = {}" using herd_ipam_ok by simp_all
  then have "ip_String (nextIP herd_ipam) \<in> ipam_hosts herd_ipam" by (auto simp: wf_ipam_def ipam_hosts_def)
  then have ne: "\<not> ipam_hosts herd_ipam \<subseteq> ipam_used herd_ipam" using used by auto
  obtain r i where r: "ipam_Acquire herd_ipam = Some (r, i)" "acquire_post herd_ipam r i"
    using ipam_Acquire_returns [OF wf] by blast
  with ne obtain a where a: "r = Inr a" "a \<in> ipam_hosts herd_ipam"
    by (cases r) (simp_all add: acquire_post_def)
  then obtain b where "a = ip_String b" "length b = 4" by (auto simp: ipam_hosts_def)
  with r a assms show ?thesis by (simp add: acquire_ip_def ParseIP_ip_String)
qed

lemma fst_network_demo:
  assumes "fs_ipam s = herd_ipam"
  shows "\<exists>a. fst (setup_network demo vm u s) = Inr a"
proof -
  obtain a where a: "fst (acquire_ip s) = Inr a" "ParseIP a \<noteq> None" using fst_acquire_demo [OF assms] by blast
  then show ?thesis
    using fst_tap [of a]
    by (simp add: setup_network_def hostIP_def thenE_def action_alts ignoreE_def returnE_def)
qed

lemma fst_mapping_demo:
  assumes "fs_ports s = Some (NewPortManager 10000 39999)"
    and "PortMappings cfg = [\<lparr>HostInterface = iface, HostPort = 8080, GuestPort = 80, Protocol = ''tcp''\<rparr>]"
  shows "\<exists>ms. fst (apply_mappings demo (\<lambda>_ _. True) vm a (PortMappings cfg) s) = Inr ms"
proof -
  have "fst (allocate_port (\<lambda>_ _. True) vm \<lparr>HostInterface = iface, HostPort = 8080, GuestPort = 80, Protocol = ''tcp''\<rparr> s) = Inr 8080"
    using assms(1) by (simp add: allocate_port_def port_Allocate_def NewPortManager_def isHostPortFree_def)
  moreover have "fst (AddPortMapping demo i p a gp pr tr) = Inr ()" for i p a gp pr tr
    using demo_add_ok [of i p a gp pr tr] by (metis fst_conv)
  ultimately show ?thesis
    by (simp add: assms(2) thenE_def action_alts returnE_def)
qed

text \<open>The frames that carry the managers through the phases.\<close>

lemma quiet_frame: "quiet m \<Longrightarrow> fs_ipam (snd (m s)) = fs_ipam s \<and> fs_ports (snd (m s)) = fs_ports s"
  by (simp add: quiet_def)

lemma network_ports: "fs_ports (snd (setup_network demo vm u s)) = fs_ports s"
  by (simp add: setup_network_def thenE_def action_alts ignoreE_def returnE_def acquire_ip_def push_def
      split: sum.splits option.splits prod.splits)

lemma fst_bind_ex:
  "\<exists>x. fst (m s) = Inr x \<Longrightarrow> (\<And>x. fst (m s) = Inr x \<Longrightarrow> \<exists>y. fst (k x (snd (m s))) = Inr y) \<Longrightarrow> \<exists>y. fst (bindE m k s) = Inr y"
  by (auto simp: bindE_alt)

text \<open>From the leased UID on.\<close>

lemma demo_tail:
  assumes "fs_ipam s = herd_ipam" and "fs_ports s = Some (NewPortManager 10000 39999)"
    and "PortMappings cfg = [\<lparr>HostInterface = iface, HostPort = 8080, GuestPort = 80, Protocol = ''tcp''\<rparr>]"
  shows "\<exists>w. fst (bindE (push (UndoUID u)) (\<lambda>_. bindE (prepare_rootfs demo f vm cfg)
        (\<lambda>(imgConfig, finalCmd, rootfsPath). bindE (build_chroot demo f vm u rootfsPath)
        (\<lambda>_. bindE (setup_network demo vm u) (\<lambda>guestIP. bindE (launch_vm demo 0 f vm cfg u guestIP)
        (\<lambda>_. bindE (connect_guest demo 1 f vm cfg imgConfig finalCmd) (\<lambda>socketPath.
          bindE (apply_mappings demo (\<lambda>_ _. True) vm guestIP (PortMappings cfg)) (\<lambda>activeMappings.
          returnE (g socketPath guestIP activeMappings)))))))) s) = Inr w"
proof -
  note quiets = quiet_frame [OF quiet_prepare_rootfs] quiet_frame [OF quiet_build_chroot] quiet_frame [OF quiet_launch]
    quiet_frame [OF quiet_connect]
  let ?s1 = "s\<lparr>fs_undo := fs_undo s @ [UndoUID u]\<rparr>"
  let ?s2 = "snd (prepare_rootfs demo f vm cfg ?s1)"
  obtain img cmd r where p: "fst (prepare_rootfs demo f vm cfg ?s1) = Inr (img, cmd, r)" using fst_prepare by blast
  let ?s3 = "snd (build_chroot demo f vm u r ?s2)"
  have s3: "fs_ipam ?s3 = herd_ipam" "fs_ports ?s3 = Some (NewPortManager 10000 39999)"
    using assms(1,2) by (simp_all add: quiets)
  obtain a where a: "fst (setup_network demo vm u ?s3) = Inr a" using fst_network_demo [OF s3(1)] by blast
  let ?s5 = "snd (launch_vm demo 0 f vm cfg u a (snd (setup_network demo vm u ?s3)))"
  obtain sp where sp: "fst (connect_guest demo 1 f vm cfg img cmd ?s5) = Inr sp"
    unfolding One_nat_def using fst_connect by blast
  let ?s6 = "snd (connect_guest demo 1 f vm cfg img cmd ?s5)"
  have "fs_ports ?s6 = Some (NewPortManager 10000 39999)" using s3(2) by (simp add: quiets network_ports)
  then obtain ms where "fst (apply_mappings demo (\<lambda>_ _. True) vm a (PortMappings cfg) ?s6) = Inr ms"
    using fst_mapping_demo assms(3) by blast
  with p a sp show ?thesis by (simp add: bindE_alt returnE_def push_def fst_chroot fst_launch)
qed

text \<open>Every tenant that asks for this port gets a worker.\<close>

lemma fc_demo_spawns_any:
  assumes "PortMappings cfg = [\<lparr>HostInterface = iface, HostPort = 8080, GuestPort = 80, Protocol = ''tcp''\<rparr>]"
  shows "\<exists>w s'. Spawn demo (\<lambda>_ _. True) 1 0 fc_demo_config ''vm1'' cfg fc_demo_state = (Inr w, s')"
proof -
  let ?body = "spawn_body demo (\<lambda>_ _. True) 1 0 fc_demo_config ''vm1'' cfg fc_demo_state"
  have start: "fc_demo_state\<lparr>fs_undo := []\<rparr> = fc_demo_state" by (simp add: fc_demo_state_def)
  have c: "checkout_uid fc_demo_state = (Inr 300000, snd (checkout_uid fc_demo_state))"
    "fs_ipam (snd (checkout_uid fc_demo_state)) = herd_ipam"
    "fs_ports (snd (checkout_uid fc_demo_state)) = Some (NewPortManager 10000 39999)"
    by (simp_all add: checkout_uid_def uid_Checkout_def fc_demo_state_def)

  have fc: "fst (checkout_uid fc_demo_state) = Inr 300000" using c(1) by (metis fst_conv)
  have "\<exists>w. fst ?body = Inr w"
    unfolding spawn_body_def thenE_def
  proof (rule fst_bind_ex)
    show "\<exists>u. fst (checkout_uid fc_demo_state) = Inr u" using fc by blast
  next
    fix u
    show "\<exists>w. fst (bindE (push (UndoUID u)) (\<lambda>_. bindE (prepare_rootfs demo fc_demo_config ''vm1'' cfg)
        (\<lambda>(imgConfig, finalCmd, rootfsPath). bindE (build_chroot demo fc_demo_config ''vm1'' u rootfsPath)
        (\<lambda>_. bindE (setup_network demo ''vm1'' u) (\<lambda>guestIP. bindE (launch_vm demo 0 fc_demo_config ''vm1'' cfg u guestIP)
        (\<lambda>_. bindE (connect_guest demo 1 fc_demo_config ''vm1'' cfg imgConfig finalCmd) (\<lambda>socketPath.
          bindE (apply_mappings demo (\<lambda>_ _. True) ''vm1'' guestIP (PortMappings cfg)) (\<lambda>activeMappings.
          returnE \<lparr>fw_id = ''vm1'', fw_socketPath = socketPath, fw_tapName = tap_name ''vm1'', fw_guestIP = guestIP,
            fw_chrootDir = chrootRoot fc_demo_config ''vm1'', fw_leasedUID = u, fw_portMappings = activeMappings\<rparr>)))))))
        (snd (checkout_uid fc_demo_state))) = Inr w"
      by (rule demo_tail [OF _ _ assms]) (use c in simp_all)
  qed
  then obtain w t where "?body = (Inr w, t)" by (metis prod.collapse)
  then have "Spawn demo (\<lambda>_ _. True) 1 0 fc_demo_config ''vm1'' cfg fc_demo_state = (Inr w, t)"
    unfolding Spawn_def start by simp
  then show ?thesis by blast
qed

theorem fc_demo_spawns:
  "\<exists>w s'. Spawn demo (\<lambda>_ _. True) 1 0 fc_demo_config ''vm1'' fc_demo_tenant fc_demo_state = (Inr w, s')"
  by (rule fc_demo_spawns_any) (simp add: fc_demo_tenant_def)

section \<open>Witnesses\<close>

definition fc_exhausted :: fc_state where
  "fc_exhausted = fc_demo_state\<lparr>fs_uids := \<lparr>uid_ch = [], uid_cap = 1, uid_start = 300000, uid_end = 300001\<rparr>\<rparr>"

theorem spawn_failure_restores_books_witness:
  "\<exists>e s'. Spawn demo (\<lambda>_ _. True) 1 0 fc_demo_config ''vm1'' fc_demo_tenant fc_exhausted = (Inl e, s') \<and>
     leased (fs_uids s') = leased (fs_uids fc_exhausted) \<and> ipam_used (fs_ipam s') = ipam_used (fs_ipam fc_exhausted) \<and>
     ports_map s' = ports_map fc_exhausted \<and> wf_factory s'"
proof -
  have wf: "wf_factory fc_exhausted"
    using fc_demo_wf by (simp add: wf_factory_def fc_exhausted_def wf_uid_pool_def uid_range_def)
  have p: "ports_map fc_exhausted q \<noteq> Some vm" for q vm
    using fc_demo_ports [of q vm] by (simp add: fc_exhausted_def ports_map_def)
  obtain s' where "Spawn demo (\<lambda>_ _. True) 1 0 fc_demo_config ''vm1'' fc_demo_tenant fc_exhausted =
      (Inl (UidCheckout ErrPoolExhausted), s')"
    by (simp add: Spawn_def spawn_body_def bindE_def checkout_uid_def uid_Checkout_def fc_exhausted_def fc_demo_state_def)
  with spawn_failure_restores_books [OF wf p this] show ?thesis by blast
qed

theorem spawn_isolates_witness:
  "\<exists>w s'. Spawn demo (\<lambda>_ _. True) 1 0 fc_demo_config ''vm1'' fc_demo_tenant fc_demo_state = (Inr w, s') \<and>
     fw_leasedUID w \<notin> leased (fs_uids fc_demo_state) \<and> 0 < fw_leasedUID w \<and>
     fw_guestIP w \<notin> ipam_used (fs_ipam fc_demo_state) \<and>
     ports_map s' = (\<lambda>p. if p \<in> HostPort ` set (fw_portMappings w) then Some ''vm1'' else ports_map fc_demo_state p)"
proof -
  obtain w s' where sp: "Spawn demo (\<lambda>_ _. True) 1 0 fc_demo_config ''vm1'' fc_demo_tenant fc_demo_state = (Inr w, s')"
    using fc_demo_spawns by blast
  have "fs_ports fc_demo_state \<noteq> None" by (simp add: fc_demo_state_def)
  with sp spawn_isolates [OF fc_demo_wf fc_demo_ports sp] show ?thesis by auto
qed

theorem close_undoes_spawn_witness:
  "\<exists>w s'. Spawn demo (\<lambda>_ _. True) 1 0 fc_demo_config ''vm1'' fc_demo_tenant fc_demo_state = (Inr w, s') \<and>
     leased (fs_uids (fc_Close demo w s')) = {} \<and> ipam_used (fs_ipam (fc_Close demo w s')) = {} \<and>
     ports_map (fc_Close demo w s') = Map.empty"
proof -
  obtain w s' where sp: "Spawn demo (\<lambda>_ _. True) 1 0 fc_demo_config ''vm1'' fc_demo_tenant fc_demo_state = (Inr w, s')"
    using fc_demo_spawns by blast
  have "leased (fs_uids fc_demo_state) = {}" "ipam_used (fs_ipam fc_demo_state) = {}" "ports_map fc_demo_state = Map.empty"
    using herd_ipam_ok by (auto simp: fc_demo_state_def leased_def uid_range_def ports_map_def NewPortManager_def)
  with sp close_undoes_spawn [OF fc_demo_wf fc_demo_ports sp] show ?thesis by auto
qed

lemma demo_call:
  "(\<And>n a. c \<noteq> Cmd n a) \<Longrightarrow>
     fs_call demo c s = (Inr (), s\<lparr>fs_store := (fs_store s)\<lparr>st_trace := st_trace (fs_store s) @ [(c, None)]\<rparr>\<rparr>)"
  by (simp add: fs_call_def fs_tr_def fs_st_def demo_perform)

lemma fs_tr_perform:
  "(\<And>n a. c \<noteq> Cmd n a) \<Longrightarrow> fs_tr (performG demo c get) s =
     (Inr (get (st_trace (fs_store s))), s\<lparr>fs_store := (fs_store s)\<lparr>st_trace := st_trace (fs_store s) @ [(c, None)]\<rparr>\<rparr>)"
  by (simp add: fs_tr_def fs_st_def performG_def demo_perform)

section \<open>Names that the factory derives from the session\<close>

text \<open>
  For session IDs that are plain file names, the jail directories of different VMs are
  different and lie below the configured base directory, whose own elements they extend.
\<close>

theorem chroot_below_base:
  assumes "rooted (JailerChrootBaseDir f)" and "plain_name vm" and "plain_name vm2"
  shows "chrootRoot f vm = ''/'' @ join ''/'' (clean_elems (JailerChrootBaseDir f) @ [''firecracker'', vm, ''root'']) \<and>
    (chrootRoot f vm = chrootRoot f vm2 \<longleftrightarrow> vm = vm2)"
proof -
  have lit: "plain_name ''firecracker''" "plain_name ''root''" by (simp_all add: plain_name_def)
  have eq: "chrootRoot f v = ''/'' @ join ''/'' (clean_elems (JailerChrootBaseDir f) @ [''firecracker'', v, ''root''])"
    if "plain_name v" for v
    unfolding chrootRoot_def by (rule path_Join_plain) (simp_all add: assms(1) that lit)
  have plain: "list_all plain_name (clean_elems (JailerChrootBaseDir f) @ [''firecracker'', v, ''root''])" if "plain_name v" for v
    using clean_elems_plain [OF assms(1)] that lit by simp
  have "vm = vm2" if "chrootRoot f vm = chrootRoot f vm2"
    using join_inject [OF plain [OF assms(2)] plain [OF assms(3)]] that
    by (simp add: eq [OF assms(2)] eq [OF assms(3)])
  then show ?thesis using eq [OF assms(2)] by blast
qed

theorem chroot_below_base_witness:
  "chrootRoot fc_demo_config ''vm1'' = ''/'' @ join ''/'' (clean_elems ''/srv/jailer'' @ [''firecracker'', ''vm1'', ''root'']) \<and>
    chrootRoot fc_demo_config ''vm1'' \<noteq> chrootRoot fc_demo_config ''vm2''"
proof -
  have b: "JailerChrootBaseDir fc_demo_config = ''/srv/jailer''" by (simp add: fc_demo_config_def)
  have "rooted (JailerChrootBaseDir fc_demo_config)" "plain_name ''vm1''" "plain_name ''vm2''"
    by (simp_all add: b rooted_def plain_name_def)
  from chroot_below_base [OF this] show ?thesis unfolding b by auto
qed

text \<open>
  The session ID is used as a path element without a check: an ID with parent references
  names a directory outside the jail base, which \<open>Spawn\<close> hands to the leased UID and \<open>Close\<close>
  removes recursively.
\<close>

theorem chroot_escapes_base:
  "chrootRoot fc_demo_config ''../../..'' = ''/root'' \<and>
   (\<exists>u r. (Chown ''/root'' u u, r) \<in> set (st_trace (fs_store (snd (build_chroot demo fc_demo_config ''../../..'' u ''/dev/dm-3'' fc_demo_state)))))"
proof -
  have root: "chrootRoot fc_demo_config ''../../..'' = ''/root''"
    by (simp add: chrootRoot_def fc_demo_config_def path_Clean_def clean_elems_def rooted_def clean_step_def)
  have "(Chown ''/root'' 300000 300000, None) \<in>
      set (st_trace (fs_store (snd (build_chroot demo fc_demo_config ''../../..'' 300000 ''/dev/dm-3'' fc_demo_state))))"
    unfolding build_chroot_def root
    by (simp add: bindDeviceIntoChroot_def mkdir_exist_ok_def Let_def action_defs demo_call fs_tr_perform push_def)
  with root show ?thesis by blast
qed

text \<open>
  TAP names are cut to the last eight characters of the session ID, so two sessions can
  share one: then the network set-up of the second deletes the device of the first.
\<close>

theorem tap_names_collide:
  "\<exists>vm1 vm2. vm1 \<noteq> vm2 \<and> tap_name vm1 = tap_name vm2 \<and>
    (\<exists>r. (LinkDel (tap_name vm1), r) \<in> set (st_trace (fs_store (snd (setup_network demo vm2 300000 fc_demo_state)))))"
proof -
  let ?vm1 = "''tenant-a-00000001''" and ?vm2 = "''tenant-b-00000001''"
  have ipam: "fs_ipam fc_demo_state = herd_ipam" by (simp add: fc_demo_state_def)
  obtain a s1 where a: "acquire_ip fc_demo_state = (Inr a, s1)" "ParseIP a \<noteq> None"
    using fst_acquire_demo [OF ipam] by (metis prod.collapse)
  have host: "ParseIP hostIP \<noteq> None"
    using ParseIP_ip_String [of "[10, 200, 0, 1]"] by (simp add: hostIP_def ip_String_def itoa_nat.simps digit_chars)
  have "(LinkDel (tap_name ?vm2), None) \<in> set (st_trace (fs_store (snd (setup_network demo ?vm2 300000 fc_demo_state))))"
    using a host
    by (simp add: setup_network_def DeleteTap_def CreatePointToPointTap_def orDelete_def action_defs fs_tr_def fs_st_def
        push_def demo_perform)
  moreover have "tap_name ?vm1 = tap_name ?vm2" "?vm1 \<noteq> ?vm2" by (simp_all add: tap_name_def)
  ultimately show ?thesis by metis
qed

text \<open>
  A \<open>Spawn\<close> that fails inside \<open>Snapshot\<close> leaves the VM's containerd lease behind: the lease
  is created before the snapshot, but the undo action that deletes it is registered only once
  \<open>Snapshot\<close> has returned.
\<close>

theorem failed_snapshot_leaks_lease:
  "\<exists>h s' e. Spawn h (\<lambda>_ _. True) 1 0 fc_demo_config ''vm1'' fc_demo_tenant fc_demo_state = (Inl (SpawnSnapshot e), s') \<and>
     (LeaseCreate (leaseID ''vm1''), None) \<in> set (st_trace (fs_store s')) \<and>
     (\<forall>l r. (LeaseDelete l, r) \<notin> set (st_trace (fs_store s')))"
proof -
  let ?h = "demo\<lparr>h_mounts := \<lambda>_ _. []\<rparr>"
  have perf: "perform ?h c tr = perform demo c tr" for c tr
    by (simp add: perform_def)
  have data: "h_unpacked ?h tr r = True" "h_imageConfig ?h tr r = h_imageConfig demo tr r" "h_mounts ?h tr k = []" for tr r k
    by (simp_all add: demo_host_def)
  have "\<exists>s'. Spawn ?h (\<lambda>_ _. True) 1 0 fc_demo_config ''vm1'' fc_demo_tenant fc_demo_state =
      (Inl (SpawnSnapshot (NoBlockDevice (snapshotKey ''vm1''))), s') \<and>
     (LeaseCreate (leaseID ''vm1''), None) \<in> set (st_trace (fs_store s')) \<and>
     (\<forall>l r. (LeaseDelete l, r) \<notin> set (st_trace (fs_store s')))"
    by (simp add: Spawn_def spawn_body_def prepare_rootfs_def checkout_uid_def uid_Checkout_def fc_demo_state_def
        fc_demo_tenant_def final_command_def WarmImage_def ExtractImageConfig_def Snapshot_def withLease_def snapshot_mounts_def
        extractBlockDeviceFromMounts_def Let_def action_defs fs_st_def st_do_def performG_def perf demo_perform data
        demo_data push_def rollback_def run_undo_def uids_give_def)
  then show ?thesis by blast
qed

end
