(* ===== verification/Daemon_Runs.thy ===== *)
theory Daemon_Runs
  imports Daemon_Safety Factory_Runs
begin

text \<open>
  A concrete daemon: a validated configuration, its start-up, and the creation of a session on a
  host where every call succeeds.  The runs are the witnesses of the properties that span the
  components.
\<close>

section \<open>Start-up\<close>

definition demo_config :: herd_config where
  "demo_config =
     \<lparr>cfg_Network = \<lparr>ControlBind = ''127.0.0.1:8081'', DataBind = ''localhost:8080'', EphemeralPortStart = 10000, EphemeralPortEnd = 39999\<rparr>,
      cfg_Storage = \<lparr>StateDir = ''/var/lib/herd'', SnapshotterName = ''devmapper'', Namespace = ''herd''\<rparr>,
      cfg_Resources = \<lparr>MaxGlobalVMs = 2, MaxGlobalMemoryMB = 1024, CPULimitCores = 2\<rparr>,
      cfg_Binaries = \<lparr>bin_FirecrackerPath = ''/usr/bin/firecracker'', bin_JailerPath = ''/usr/bin/jailer'',
        bin_KernelImagePath = ''/var/lib/herd/vmlinux'', bin_GuestAgentPath = ''/usr/bin/herd-guest-agent''\<rparr>,
      cfg_Jailer = \<lparr>UIDPoolStart = 300000, UIDPoolSize = 1, ChrootBaseDir = ''/srv/jailer''\<rparr>,
      cfg_Telemetry = \<lparr>LogFormat = ''json'', MetricsPath = ''/metrics''\<rparr>,
      cfg_Cloud = \<lparr>cloud_Enabled = False, cloud_Endpoint = '''', cloud_MachineToken = '''', cloud_NodeKey = '''',
        cloud_NodeKeyPath = ''/etc/herd/node.key'', cloud_NodeID = '''', cloud_Interface = ''''\<rparr>\<rparr>"

lemma demo_config_valid: "valid_config demo_config"
proof -
  have "Validate demo_config = None" by (simp add: Validate_def demo_config_def Let_def) code_simp
  then show ?thesis by (simp add: Validate_iff)
qed

definition demo_start :: daemon where
  "demo_start = start_daemon (pool_New [MaxWorkers 2]) fc_demo_state fc_demo_config ''localhost:8080''"

lemma demo_builds: "buildPool Some (\<lambda>_. True) demo_config = Some (Inr (pool_New [MaxWorkers 2], fc_demo_state, fc_demo_config))"
proof -
  have "uid_NewPool 300000 1 = Inr \<lparr>uid_ch = [300000], uid_cap = 1, uid_start = 300000, uid_end = 300001\<rparr>"
    by (simp add: uid_NewPool_def)
  then show ?thesis
    using herd_ipam_ok by (simp add: buildPool_def demo_config_def WithMaxWorkers_def Let_def fc_demo_state_def fc_demo_config_def)
qed

section \<open>A session\<close>

definition demo_env :: env where
  "demo_env = \<lparr>e_host = demo, e_listen = (\<lambda>_ _. True), e_attempts = 1, e_nano = 0, e_now = 0, e_uuid = ''vm1'', e_ctxDone = False\<rparr>"

definition demo_request :: create_request where
  "demo_request = \<lparr>rq_SessionID = '''', rq_Image = ''alpine'', rq_Command = [], rq_Env = [], rq_IdleTimeoutSeconds = 0,
     rq_TTLSeconds = 0, rq_HealthInterval = '''', rq_Warm = False, rq_VCPUs = 1, rq_MemoryMB = 128,
     rq_PortMappings = [\<lparr>HostInterface = '''', HostPort = 8080, GuestPort = 80, Protocol = ''tcp''\<rparr>]\<rparr>"

lemma demo_tenant: "tenant_of demo_request = fc_demo_tenant" "session_id_of demo_env demo_request = ''vm1''"
  by (simp_all add: tenant_of_def session_id_of_def demo_request_def fc_demo_tenant_def demo_env_def)

lemma demo_start_lm: "d_lm demo_start = NewManager (pool_New [MaxWorkers 2], fc_demo_state)" "d_fc demo_start = fc_demo_config"
  by (simp_all add: demo_start_def start_daemon_def)

lemma demo_create_any:
  assumes "rq_SessionID req = ''''" and "\<not> rq_Warm req"
    and "rq_PortMappings req = [\<lparr>HostInterface = iface, HostPort = 8080, GuestPort = 80, Protocol = ''tcp''\<rparr>]"
  shows "\<exists>r d w. CreateSession demo_env req demo_start = (Returns (Inr r), d) \<and>
     p_registry (d_pool d) = [''vm1'' \<mapsto> w]"
proof -
  obtain w s' where sp: "Spawn demo (\<lambda>_ _. True) 1 0 fc_demo_config ''vm1'' (tenant_of req) fc_demo_state = (Inr w, s')"
    using fc_demo_spawns_any [of "tenant_of req"] assms(3) by (auto simp: tenant_of_def)
  let ?w = "\<lparr>worker_ID = fc_ID w, worker_obj = w\<rparr>"
  have fs: "fc_spawn demo_env fc_demo_config ''vm1'' (tenant_of req) fc_demo_state = (Inr ?w, s')"
    using sp by (simp add: fc_spawn_def demo_env_def)
  obtain p' where a: "pool_Acquire (fc_spawn demo_env fc_demo_config) (\<lambda>w fs. (None :: unit option, fc_close demo_env w fs)) False
      ''vm1'' (tenant_of req) (pool_New [MaxWorkers 2]) fc_demo_state = (Returns (Inr ?w), p', s')" and p': "p_registry p' = [''vm1'' \<mapsto> ?w]"
    using acquire_idle [where spawn = "fc_spawn demo_env fc_demo_config" and
        close = "\<lambda>w fs. (None :: unit option, fc_close demo_env w fs)" and ctx_done = False and s = "''vm1''" and
        cfg = "tenant_of req" and f = fc_demo_state, OF idle_New [of "[MaxWorkers 2]"]] fs
    by (auto simp: pool_New_def NewLocalRegistry_def defaultConfig_def Let_def split: prod.splits)
  have "session_id_of demo_env req = ''vm1''" "\<not> e_ctxDone demo_env" using assms(1) by (simp_all add: session_id_of_def demo_env_def)
  then have "CreateSession demo_env req demo_start = (case finish_create demo_env req ''vm1'' w
      (set_pool p' s' (log_event ''info'' ''acquire_request_received'' (bump RecordAcquireRequest demo_start))) of
      (resp, d) \<Rightarrow> (Returns (Inr resp), d))"
    using a assms(2) by (simp add: CreateSession_def warm_if_asked_def demo_start_lm NewManager_def Let_def)
  with p' show ?thesis by (simp add: finish_create_def set_pool_def log_event_def bump_def lm_Register_def Let_def) auto
qed

lemma demo_create:
  "\<exists>r d w. CreateSession demo_env demo_request demo_start = (Returns (Inr r), d) \<and>
     p_registry (d_pool d) = [''vm1'' \<mapsto> w]"
  by (rule demo_create_any) (simp_all add: demo_request_def)

lemma demo_running: "running Some (\<lambda>_. True) demo_config ''localhost:8080'' demo_start"
  unfolding running_def demo_start_def using demo_config_valid demo_builds daemon_runs.start by blast

lemma demo_session:
  "\<exists>d w. running Some (\<lambda>_. True) demo_config ''localhost:8080'' d \<and> p_registry (d_pool d) = [''vm1'' \<mapsto> w]"
proof -
  obtain r d w where c: "CreateSession demo_env demo_request demo_start = (Returns (Inr r), d)"
    and w: "p_registry (d_pool d) = [''vm1'' \<mapsto> w]" using demo_create by blast
  have "daemon_step (OpCreate demo_env demo_request) demo_start = Some d" by (simp add: c)
  with daemon_runs.op [OF daemon_runs.start] have "daemon_runs demo_start d" by blast
  then have "running Some (\<lambda>_. True) demo_config ''localhost:8080'' d"
    unfolding running_def using demo_config_valid demo_builds demo_start_def by metis
  with w show ?thesis by blast
qed

end
