(* ===== verification/Cli_Client.thy ===== *)
theory Cli_Client
  imports Control_Api Daemon_Runs "HOL-Library.AList"
begin

text \<open>
  The commands that talk to a running daemon: \<open>deploy\<close>, \<open>status\<close>, \<open>stop\<close> and \<open>logs\<close> of
  \<open>cmd/herd\<close>.  A command is the request it sends and what it prints of the response;
  \<open>exchange\<close> puts the daemon's control plane between the two.  The argument \<open>cfg\<close> of a command is
  the outcome of \<open>config.Load\<close>.  Printed text is a list of lines; \<open>log.Fatalf\<close> is an error.
\<close>

section \<open>Requests\<close>

record http_request =
  hr_Method :: string
  hr_URL :: string
  hr_Body :: string

datatype cli_error =
    LoadConfig config_error
  | InvalidEnv string
  | InvalidPublish bind_error
  | RejectedRequest nat string
  | BadResponse

definition sessions_url :: "herd_config \<Rightarrow> string" where
  "sessions_url cfg = ''http://'' @ ControlBind (cfg_Network cfg) @ ''/v1/sessions''"

definition with_config :: "config_error + herd_config \<Rightarrow> (herd_config \<Rightarrow> cli_error + 'a) \<Rightarrow> cli_error + 'a" where
  "with_config cfg f = (case cfg of Inl e \<Rightarrow> Inl (LoadConfig e) | Inr c \<Rightarrow> f c)"

text \<open>The host and the path segments of a URL without escapes, query or fragment.\<close>

definition url_path :: "string \<Rightarrow> string list" where
  "url_path url = split_on (CHR ''/'') (tl (dropWhile (\<lambda>c. c \<noteq> CHR ''/'') (trim_prefix ''http://'' url)))"

definition exchange :: "api_io \<Rightarrow> http_request \<Rightarrow> daemon \<Rightarrow> (nat \<times> string) outcome \<times> daemon" where
  "exchange io r d = (case serve io (hr_Method r) (url_path (hr_URL r)) (hr_Body r) d of
       (Returns x, d') \<Rightarrow> (Returns (respond io x), d')
     | (Blocks, d') \<Rightarrow> (Blocks, d')
     | (Panics, d') \<Rightarrow> (Panics, d'))"

definition run_command :: "cli_error + http_request \<Rightarrow> (nat \<times> string \<Rightarrow> cli_error + string list) \<Rightarrow> api_io \<Rightarrow> daemon \<Rightarrow>
    (cli_error + string list) outcome \<times> daemon" where
  "run_command req report io d = (case req of
       Inl e \<Rightarrow> (Returns (Inl e), d)
     | Inr r \<Rightarrow> (case exchange io r d of
         (Returns resp, d') \<Rightarrow> (Returns (report resp), d')
       | (Blocks, d') \<Rightarrow> (Blocks, d')
       | (Panics, d') \<Rightarrow> (Panics, d')))"

section \<open>Deploy\<close>

record deploy_flags =
  deployImage :: string
  deployTimeout :: int
  absoluteDeployTimeout :: int
  deployCommand :: "string list"
  deployEnv :: "string list"
  deployPublish :: "string list"

text \<open>\<open>strings.Cut\<close> at a single character.\<close>

definition cut :: "char \<Rightarrow> string \<Rightarrow> (string \<times> string) option" where
  "cut c s = (if c \<in> set s then Some (takeWhile (\<lambda>x. x \<noteq> c) s, tl (dropWhile (\<lambda>x. x \<noteq> c) s)) else None)"

fun env_map :: "string list \<Rightarrow> (string \<times> string) list \<Rightarrow> cli_error + (string \<times> string) list" where
  "env_map [] m = Inr m"
| "env_map (e # es) m = (case cut (CHR ''='') e of
       None \<Rightarrow> Inl (InvalidEnv e)
     | Some (k, v) \<Rightarrow> env_map es (AList.update k v m))"

text \<open>The JSON of a Go map has its keys in order.\<close>

definition sort_fields :: "(string \<times> string) list \<Rightarrow> (string \<times> string) list" where
  "sort_fields m = foldr insert_field m []"

definition env_json :: "(string \<times> string) list \<Rightarrow> json" where
  "env_json m = JObj (map (apsnd JStr) (sort_fields m))"

definition binding_json :: "port_binding \<Rightarrow> json" where
  "binding_json b = JObj [(''guest_port'', JNum (uint (pb_GuestPort b))), (''host_interface'', JStr (ip_String (pb_IP b))),
     (''host_port'', JNum (uint (pb_HostPort b))), (''protocol'', JStr (pb_Protocol b))]"

fun publish_all :: "string list \<Rightarrow> cli_error + port_binding list" where
  "publish_all [] = Inr []"
| "publish_all (p # ps) = (case SanitizeNetworkBindings p of
       (_, Some err) \<Rightarrow> Inl (InvalidPublish err)
     | (b, None) \<Rightarrow> (case publish_all ps of Inl e \<Rightarrow> Inl e | Inr bs \<Rightarrow> Inr (b # bs)))"

definition deploy_json :: "deploy_flags \<Rightarrow> (string \<times> string) list \<Rightarrow> port_binding list \<Rightarrow> json" where
  "deploy_json fl envMap mappings = JObj (
     (if deployCommand fl = [] then [] else [(''command'', JArr (map JStr (deployCommand fl)))]) @
     (if deployEnv fl = [] then [] else [(''env'', env_json envMap)]) @
     [(''idle_timeout_seconds'', JNum (deployTimeout fl)), (''image'', JStr (deployImage fl))] @
     (if deployPublish fl = [] then [] else [(''port_mappings'', JArr (map binding_json mappings))]) @
     [(''ttl_seconds'', JNum (absoluteDeployTimeout fl))])"

definition deploy_request :: "config_error + herd_config \<Rightarrow> deploy_flags \<Rightarrow> cli_error + http_request" where
  "deploy_request cfg fl = with_config cfg (\<lambda>c.
     (case env_map (deployEnv fl) [] of Inl e \<Rightarrow> Inl e | Inr envMap \<Rightarrow>
     (case publish_all (deployPublish fl) of Inl e \<Rightarrow> Inl e | Inr mappings \<Rightarrow>
       Inr \<lparr>hr_Method = ''POST'', hr_URL = sessions_url c, hr_Body = render (deploy_json fl envMap mappings)\<rparr>)))"

text \<open>\<open>%v\<close> of a decoded value; a number is a whole one below \<open>2 ^ 53\<close>.\<close>

fun show_any :: "json \<Rightarrow> string" where
  "show_any JNull = ''<nil>''"
| "show_any (JBool b) = (if b then ''true'' else ''false'')"
| "show_any (JNum i) = itoa i"
| "show_any (JFrac l) = l"
| "show_any (JStr s) = s"
| "show_any (JArr js) = ''['' @ join '' '' (map show_any js) @ '']''"
| "show_any (JObj ms) = ''map['' @ join '' '' (map (\<lambda>m. fst m @ '':'' @ show_any (snd m)) ms) @ '']''"

definition field :: "string \<Rightarrow> json \<Rightarrow> json" where
  "field k j = (case j of JObj ms \<Rightarrow> (case map_of ms k of Some v \<Rightarrow> v | None \<Rightarrow> JNull) | _ \<Rightarrow> JNull)"

definition mapping_line :: "json \<Rightarrow> string" where
  "mapping_line mm =
     (let ports = show_any (field ''host_port'' mm) @ '' -> VM:'' @ show_any (field ''guest_port'' mm) @ ''/'' @ show_any (field ''protocol'' mm) in
      if field ''host_interface'' mm \<noteq> JNull \<and> field ''host_interface'' mm \<noteq> JStr ''0.0.0.0''
      then ''  '' @ show_any (field ''host_interface'' mm) @ '':'' @ ports
      else ''  0.0.0.0:'' @ ports)"

definition is_obj :: "json \<Rightarrow> bool" where
  "is_obj j = (case j of JObj _ \<Rightarrow> True | _ \<Rightarrow> False)"

definition mapping_lines :: "json \<Rightarrow> string list" where
  "mapping_lines j = (case field ''port_mappings'' j of
       JArr (m # ms) \<Rightarrow> ''Port Mappings:'' # map mapping_line (filter is_obj (m # ms))
     | _ \<Rightarrow> [])"

definition deploy_report :: "nat \<times> string \<Rightarrow> cli_error + string list" where
  "deploy_report resp = (case resp of (status, body) \<Rightarrow>
     if status \<noteq> 200 then Inl (RejectedRequest status body)
     else (case parse_json body of
         None \<Rightarrow> Inl BadResponse
       | Some j \<Rightarrow>
           if \<not> is_obj j \<and> j \<noteq> JNull then Inl BadResponse
           else Inr ([''Successfully deployed MicroVM!'', ''Session ID: '' @ show_any (field ''session_id'' j),
             ''Internal IP: '' @ show_any (field ''internal_ip'' j), ''Proxy URL: '' @ show_any (field ''proxy_address'' j)] @ mapping_lines j)))"

definition deployCmd :: "config_error + herd_config \<Rightarrow> deploy_flags \<Rightarrow> api_io \<Rightarrow> daemon \<Rightarrow> (cli_error + string list) outcome \<times> daemon" where
  "deployCmd cfg fl = run_command (deploy_request cfg fl) deploy_report"

section \<open>Stop and logs\<close>

definition stop_request :: "config_error + herd_config \<Rightarrow> string \<Rightarrow> cli_error + http_request" where
  "stop_request cfg sessionID = with_config cfg (\<lambda>c.
     Inr \<lparr>hr_Method = ''DELETE'', hr_URL = sessions_url c @ ''/'' @ sessionID, hr_Body = ''''\<rparr>)"

definition stop_report :: "string \<Rightarrow> nat \<times> string \<Rightarrow> cli_error + string list" where
  "stop_report sessionID resp = (case resp of (status, body) \<Rightarrow>
     if status \<noteq> 200 then Inl (RejectedRequest status body) else Inr [''Successfully stopped session '' @ sessionID])"

definition stopCmd :: "config_error + herd_config \<Rightarrow> string \<Rightarrow> api_io \<Rightarrow> daemon \<Rightarrow> (cli_error + string list) outcome \<times> daemon" where
  "stopCmd cfg sessionID = run_command (stop_request cfg sessionID) (stop_report sessionID)"

definition logs_request :: "config_error + herd_config \<Rightarrow> string \<Rightarrow> cli_error + http_request" where
  "logs_request cfg sessionID = with_config cfg (\<lambda>c.
     Inr \<lparr>hr_Method = ''GET'', hr_URL = sessions_url c @ ''/'' @ sessionID @ ''/logs'', hr_Body = ''''\<rparr>)"

text \<open>The body is copied to the output as it is.\<close>

definition logs_report :: "nat \<times> string \<Rightarrow> cli_error + string list" where
  "logs_report resp = (case resp of (status, body) \<Rightarrow> if status \<noteq> 200 then Inl (RejectedRequest status body) else Inr [body])"

definition logsCmd :: "config_error + herd_config \<Rightarrow> string \<Rightarrow> api_io \<Rightarrow> daemon \<Rightarrow> (cli_error + string list) outcome \<times> daemon" where
  "logsCmd cfg sessionID = run_command (logs_request cfg sessionID) logs_report"

section \<open>Status\<close>

record session_status =
  st_SessionID :: string
  st_CreatedAt :: int
  st_LastControlHeartbeat :: int
  st_ActiveConns :: int

text \<open>\<open>unstamp\<close> reads the text of a time, \<open>show_time\<close> prints it to the second.\<close>

definition put_time :: "(string \<Rightarrow> int option) \<Rightarrow> json \<Rightarrow> (int \<Rightarrow> 'r) \<Rightarrow> 'r \<Rightarrow> 'r option" where
  "put_time unstamp j f r = (case j of JNull \<Rightarrow> Some r | JStr s \<Rightarrow> map_option f (unstamp s) | _ \<Rightarrow> None)"

definition status_field :: "(string \<Rightarrow> int option) \<Rightarrow> string \<Rightarrow> json \<Rightarrow> session_status \<Rightarrow> session_status option" where
  "status_field unstamp k j r =
     (if k = ''session_id'' then put_str j (\<lambda>s. r\<lparr>st_SessionID := s\<rparr>) r
      else if k = ''created_at'' then put_time unstamp j (\<lambda>t. r\<lparr>st_CreatedAt := t\<rparr>) r
      else if k = ''last_control_heartbeat'' then put_time unstamp j (\<lambda>t. r\<lparr>st_LastControlHeartbeat := t\<rparr>) r
      else if k = ''active_conns'' then put_int j (\<lambda>i. r\<lparr>st_ActiveConns := i\<rparr>) r
      else Some r)"

definition decode_status :: "(string \<Rightarrow> int option) \<Rightarrow> int \<Rightarrow> json \<Rightarrow> session_status option" where
  "decode_status unstamp zero_time =
     decode_struct (status_field unstamp) \<lparr>st_SessionID = '''', st_CreatedAt = zero_time, st_LastControlHeartbeat = zero_time, st_ActiveConns = 0\<rparr>"

text \<open>The cells of a row, before the table is aligned.\<close>

definition status_row :: "(int \<Rightarrow> string) \<Rightarrow> session_status \<Rightarrow> string" where
  "status_row show_time s = join [CHR 0x09] [st_SessionID s, show_time (st_CreatedAt s), show_time (st_LastControlHeartbeat s), itoa (st_ActiveConns s)]"

definition status_header :: string where
  "status_header = join [CHR 0x09] [''SESSION ID'', ''CREATED'', ''LAST HEARTBEAT'', ''CONNS'']"

definition status_request :: "config_error + herd_config \<Rightarrow> cli_error + http_request" where
  "status_request cfg = with_config cfg (\<lambda>c. Inr \<lparr>hr_Method = ''GET'', hr_URL = sessions_url c, hr_Body = ''''\<rparr>)"

definition status_report :: "(string \<Rightarrow> int option) \<Rightarrow> int \<Rightarrow> (int \<Rightarrow> string) \<Rightarrow> nat \<times> string \<Rightarrow> cli_error + string list" where
  "status_report unstamp zero_time show_time resp = (case resp of (status, body) \<Rightarrow>
     if status \<noteq> 200 then Inl (RejectedRequest status body)
     else (case parse_json body of
         None \<Rightarrow> Inl BadResponse
       | Some j \<Rightarrow> (case decode_slice (decode_status unstamp zero_time) j of
           None \<Rightarrow> Inl BadResponse
         | Some sessions \<Rightarrow>
             if sessions = [] then Inr [''No active sessions.'']
             else Inr (status_header # map (status_row show_time) sessions))))"

definition statusCmd :: "(string \<Rightarrow> int option) \<Rightarrow> int \<Rightarrow> (int \<Rightarrow> string) \<Rightarrow> config_error + herd_config \<Rightarrow> api_io \<Rightarrow> daemon \<Rightarrow>
    (cli_error + string list) outcome \<times> daemon" where
  "statusCmd unstamp zero_time show_time cfg = run_command (status_request cfg) (status_report unstamp zero_time show_time)"

section \<open>URLs reach their handlers\<close>

lemma url_path_sessions:
  assumes "CHR ''/'' \<notin> set (ControlBind (cfg_Network c))"
  shows "url_path (sessions_url c @ s) = split_on (CHR ''/'') (''v1/sessions'' @ s)"
proof -
  have "trim_prefix ''http://'' (sessions_url c @ s) = ControlBind (cfg_Network c) @ CHR ''/'' # ''v1/sessions'' @ s"
    using trim_prefix_append [of "''http://''" "ControlBind (cfg_Network c) @ CHR ''/'' # ''v1/sessions'' @ s"] by (simp add: sessions_url_def)
  moreover have "dropWhile (\<lambda>x. x \<noteq> CHR ''/'') (ControlBind (cfg_Network c) @ CHR ''/'' # t) = CHR ''/'' # t" for t
    using assms by (induction "ControlBind (cfg_Network c)") (auto simp: dropWhile_append)
  ultimately show ?thesis by (simp add: url_path_def)
qed

lemma session_paths:
  assumes "CHR ''/'' \<notin> set (ControlBind (cfg_Network c))" and "CHR ''/'' \<notin> set sid"
  shows "url_path (sessions_url c) = [''v1'', ''sessions'']"
    and "url_path (sessions_url c @ ''/'' @ sid) = [''v1'', ''sessions'', sid]"
    and "url_path (sessions_url c @ ''/'' @ sid @ ''/logs'') = [''v1'', ''sessions'', sid, ''logs'']"
  using url_path_sessions [OF assms(1), of "[]"] url_path_sessions [OF assms(1), of "''/'' @ sid"]
    url_path_sessions [OF assms(1), of "''/'' @ sid @ ''/logs''"] split_on_append [OF assms(2), of "''logs''"]
  by (simp_all add: split_on_no_sep assms(2))

lemma session_routes:
  "route ''POST'' [''v1'', ''sessions''] = ECreate" "route ''GET'' [''v1'', ''sessions''] = EList"
  "sid \<noteq> '''' \<Longrightarrow> route ''DELETE'' [''v1'', ''sessions'', sid] = EDelete sid"
  "sid \<noteq> '''' \<Longrightarrow> route ''GET'' [''v1'', ''sessions'', sid, ''logs''] = ELogs sid"
  by (simp_all add: route.simps)

section \<open>The request of deploy\<close>

lemma those_map: "(\<And>x. x \<in> set xs \<Longrightarrow> f x = Some (g x)) \<Longrightarrow> those (map f xs) = Some (map g xs)"
  by (induction xs) auto

lemma decode_fields_append:
  "decode_fields put (a @ b) r = (case decode_fields put a r of None \<Rightarrow> None | Some r' \<Rightarrow> decode_fields put b r')"
  by (induction a arbitrary: r) (auto split: option.splits)

lemma to_lower_tags [simp]:
  "to_lower ''command'' = ''command''" "to_lower ''env'' = ''env''" "to_lower ''idle_timeout_seconds'' = ''idle_timeout_seconds''"
  "to_lower ''image'' = ''image''" "to_lower ''port_mappings'' = ''port_mappings''" "to_lower ''ttl_seconds'' = ''ttl_seconds''"
  "to_lower ''guest_port'' = ''guest_port''" "to_lower ''host_port'' = ''host_port''" "to_lower ''host_interface'' = ''host_interface''"
  "to_lower ''protocol'' = ''protocol''" "to_lower ''session_id'' = ''session_id''" "to_lower ''created_at'' = ''created_at''"
  "to_lower ''last_control_heartbeat'' = ''last_control_heartbeat''" "to_lower ''last_data_activity'' = ''last_data_activity''"
  "to_lower ''active_conns'' = ''active_conns''" "to_lower ''idle_ttl'' = ''idle_ttl''" "to_lower ''absolute_ttl'' = ''absolute_ttl''"
  by (simp_all add: to_lower_def lower_char_def)

definition mapping_of :: "port_binding \<Rightarrow> port_mapping" where
  "mapping_of b = \<lparr>HostInterface = ip_String (pb_IP b), HostPort = uint (pb_HostPort b), GuestPort = uint (pb_GuestPort b), Protocol = pb_Protocol b\<rparr>"

lemma uint16_range: "- (2 ^ 63) \<le> uint (x :: u16) \<and> uint x < 2 ^ 63"
proof -
  have "0 \<le> uint x" "uint x < 65536" using uint_bounded [of x] by simp_all
  moreover have "(65536 :: int) \<le> 2 ^ 63" "- (2 ^ 63) \<le> (0 :: int)" by simp_all
  ultimately show ?thesis by linarith
qed

lemma decode_binding: "decode_mapping (binding_json b) = Some (mapping_of b)"
  using uint16_range [of "pb_HostPort b"] uint16_range [of "pb_GuestPort b"]
  by (simp add: decode_mapping_def decode_struct_def binding_json_def mapping_field_def put_str_def put_int_def mapping_of_def)

lemma decode_env: "decode_string_map (env_json m) = Some (sort_fields m)"
  using those_map [of "sort_fields m" "\<lambda>(k, v). map_option (Pair k) (decode_string (JStr v))" id]
  by (auto simp: decode_string_map_def env_json_def decode_string_def put_str_def comp_def case_prod_beta)

definition in_int64 :: "int \<Rightarrow> bool" where
  "in_int64 i \<longleftrightarrow> - (2 ^ 63) \<le> i \<and> i < 2 ^ 63"

definition deploy_decoded :: "deploy_flags \<Rightarrow> (string \<times> string) list \<Rightarrow> port_binding list \<Rightarrow> create_request" where
  "deploy_decoded fl m bs = empty_request\<lparr>rq_Image := deployImage fl, rq_Command := deployCommand fl, rq_Env := sort_fields m,
     rq_IdleTimeoutSeconds := deployTimeout fl, rq_TTLSeconds := absoluteDeployTimeout fl, rq_PortMappings := map mapping_of bs\<rparr>"

lemma decode_deploy_struct:
  assumes "in_int64 (deployTimeout fl)" and "in_int64 (absoluteDeployTimeout fl)"
    and "deployEnv fl = [] \<longrightarrow> m = []" and "deployPublish fl = [] \<longrightarrow> bs = []"
  shows "decode_struct create_field empty_request (deploy_json fl m bs) = Some (deploy_decoded fl m bs)"
proof -
  have cmd: "decode_slice decode_string (JArr (map JStr cs)) = Some cs" for cs
    using those_map [of cs "\<lambda>s. decode_string (JStr s)" id] by (simp add: decode_slice_def decode_string_def put_str_def comp_def)
  have ports: "decode_slice decode_mapping (JArr (map binding_json bs)) = Some (map mapping_of bs)"
    using those_map [of bs "\<lambda>b. decode_mapping (binding_json b)" mapping_of] by (simp add: decode_slice_def decode_binding comp_def)
  have "sort_fields [] = []" by (simp add: sort_fields_def)
  with assms show ?thesis
    by (cases "deployCommand fl = []"; cases "deployEnv fl = []"; cases "deployPublish fl = []")
       (simp_all add: decode_struct_def deploy_json_def decode_fields_append create_field_def cmd ports decode_env put_str_def put_int_def
         in_int64_def deploy_decoded_def empty_request_def)
qed

lemma wf_deploy_json: "wf_json (deploy_json fl m bs)"
  by (simp add: deploy_json_def env_json_def binding_json_def list_all_iff)

lemma decode_deploy:
  assumes "in_int64 (deployTimeout fl)" and "in_int64 (absoluteDeployTimeout fl)"
    and "env_map (deployEnv fl) [] = Inr m" and "publish_all (deployPublish fl) = Inr bs"
  shows "decode_create (render (deploy_json fl m bs)) = Some (deploy_decoded fl m bs)"
proof -
  have "deployEnv fl = [] \<longrightarrow> m = []" "deployPublish fl = [] \<longrightarrow> bs = []" using assms(3,4) by auto
  from decode_deploy_struct [OF assms(1,2) this] show ?thesis unfolding decode_create_def wire.received [OF wf_deploy_json] .
qed

lemma set_insert_field: "set (insert_field f gs) = insert f (set gs)"
  by (induction gs) auto

lemma distinct_insert_field: "distinct (map fst gs) \<Longrightarrow> fst f \<notin> fst ` set gs \<Longrightarrow> distinct (map fst (insert_field f gs))"
  by (induction gs) (auto simp: set_insert_field)

lemma sort_fields_props:
  assumes "distinct (map fst m)"
  shows "set (sort_fields m) = set m" and "distinct (map fst (sort_fields m))"
  using assms by (induction m) (auto simp: sort_fields_def set_insert_field distinct_insert_field image_iff)

lemma map_of_sort_fields: "distinct (map fst m) \<Longrightarrow> map_of (sort_fields m) = map_of m"
  using sort_fields_props map_of_inject_set by blast

lemma env_map_result:
  assumes "env_map es m = Inr m'" and "distinct (map fst m)"
  shows "distinct (map fst m') \<and> map_of m' = map_of m ++ map_of (rev (map (the \<circ> cut (CHR ''='')) es))"
  using assms
proof (induction es arbitrary: m)
  case (Cons e es)
  then obtain k v where kv: "cut (CHR ''='') e = Some (k, v)" "env_map es (AList.update k v m) = Inr m'"
    by (auto split: option.splits)
  have "map_of (AList.update k v m) = (map_of m)(k \<mapsto> v)" by (rule update_conv')
  with Cons.IH [OF kv(2)] distinct_update [OF Cons.prems(2), of k v] kv(1) show ?case by (simp add: map_add_def fun_eq_iff split: option.splits)
qed simp

lemma publish_all_result:
  "publish_all ps = Inr bs \<Longrightarrow> bs = map (fst \<circ> SanitizeNetworkBindings) ps \<and> list_all (\<lambda>p. snd (SanitizeNetworkBindings p) = None) ps"
  by (induction ps arbitrary: bs) (auto split: prod.splits option.splits sum.splits)

lemma mapping_of_wf:
  assumes "wf_binding b"
  shows "parse_ipv4 (HostInterface (mapping_of b)) = Some (pb_IP b)" "Protocol (mapping_of b) \<in> {''tcp'', ''udp''}"
    "0 \<le> HostPort (mapping_of b) \<and> HostPort (mapping_of b) < 65536" "0 \<le> GuestPort (mapping_of b) \<and> GuestPort (mapping_of b) < 65536"
  using assms uint_bounded [of "pb_HostPort b"] uint_bounded [of "pb_GuestPort b"]
  by (simp_all add: wf_binding_def mapping_of_def parse_ipv4_ip_String)

lemma deploy_request_cases:
  assumes "deploy_request cfg fl = Inr r"
  obtains c m bs where "cfg = Inr c" "env_map (deployEnv fl) [] = Inr m" "publish_all (deployPublish fl) = Inr bs"
    "r = \<lparr>hr_Method = ''POST'', hr_URL = sessions_url c, hr_Body = render (deploy_json fl m bs)\<rparr>"
  using assms by (auto simp: deploy_request_def with_config_def split: sum.splits)

text \<open>
  C17.  What \<open>herd deploy\<close> sends is well typed and means what was asked: the daemon's decoder
  accepts the body and finds the image, the command and both timeouts of the flags, the environment
  in which the last setting of a name wins, no session id, and for every \<open>--publish\<close> the parsed
  binding with a dotted IPv4 address, 16-bit ports and one of the two protocols.
\<close>

theorem deploy_request_typed:
  assumes "deploy_request cfg fl = Inr r" and "in_int64 (deployTimeout fl)" and "in_int64 (absoluteDeployTimeout fl)"
  shows "\<exists>req. decode_create (hr_Body r) = Some req \<and> rq_SessionID req = '''' \<and> rq_Image req = deployImage fl \<and>
    rq_Command req = deployCommand fl \<and> rq_IdleTimeoutSeconds req = deployTimeout fl \<and> rq_TTLSeconds req = absoluteDeployTimeout fl \<and>
    map_of (rq_Env req) = map_of (rev (map (the \<circ> cut (CHR ''='')) (deployEnv fl))) \<and>
    rq_PortMappings req = map (mapping_of \<circ> fst \<circ> SanitizeNetworkBindings) (deployPublish fl) \<and>
    (\<forall>m \<in> set (rq_PortMappings req). parse_ipv4 (HostInterface m) \<noteq> None \<and> Protocol m \<in> {''tcp'', ''udp''} \<and>
       HostPort m \<in> {0..<65536} \<and> GuestPort m \<in> {0..<65536})"
proof -
  from assms(1) obtain c m bs where req: "env_map (deployEnv fl) [] = Inr m" "publish_all (deployPublish fl) = Inr bs"
    "hr_Body r = render (deploy_json fl m bs)" by (rule deploy_request_cases) simp
  have env: "map_of (sort_fields m) = map_of (rev (map (the \<circ> cut (CHR ''='')) (deployEnv fl)))"
    using env_map_result [OF req(1)] by (simp add: map_of_sort_fields)
  have bs: "bs = map (fst \<circ> SanitizeNetworkBindings) (deployPublish fl)" using publish_all_result [OF req(2)] by simp
  have wf: "parse_ipv4 (HostInterface x) \<noteq> None \<and> Protocol x \<in> {''tcp'', ''udp''} \<and> HostPort x \<in> {0..<65536} \<and> GuestPort x \<in> {0..<65536}"
    if "x \<in> set (map mapping_of bs)" for x
  proof -
    from that obtain p where "x = mapping_of (fst (SanitizeNetworkBindings p))" by (auto simp: bs)
    with mapping_of_wf [OF Sanitize_wf [of p]] show ?thesis by simp
  qed
  show ?thesis
    by (rule exI [of _ "deploy_decoded fl m bs"])
       (use decode_deploy [OF assms(2,3) req(1,2)] req(3) env bs wf in \<open>simp add: deploy_decoded_def empty_request_def\<close>)
qed

section \<open>Commands against a running daemon\<close>

lemma parse_render_line: "wf_json j \<Longrightarrow> parse_json (render j @ [CHR 0x0A]) = Some j"
  using readsD [OF render_reads(1) [of j "[CHR 0x0A]"], of "2 * length (render j @ [CHR 0x0A]) + 2"]
  by (simp add: parse_json_def num_char_def is_digit_def)

lemma CreateSession_lease:
  assumes "CreateSession e req d = (Returns (Inr r), d')"
  shows "map_option ss_IdleTTL (d_leases d' (session_id_of e req)) = Some (seconds (rq_IdleTimeoutSeconds req))"
    and "map_option ss_AbsoluteTTL (d_leases d' (session_id_of e req)) = Some (seconds (rq_TTLSeconds req))"
    and "rs_ProxyAddress r = d_proxyAddress d"
  using assms
  by (auto simp: CreateSession_def warm_if_asked_def finish_create_def Let_def lm_Register_def tenant_of_def set_pool_def log_event_def bump_def
      split: prod.splits option.splits outcome.splits sum.splits if_splits)

lemma frame_proxyAddress [simp]:
  "d_proxyAddress (set_pool p fs d) = d_proxyAddress d" "d_proxyAddress (log_event l ev d) = d_proxyAddress d" "d_proxyAddress (bump g d) = d_proxyAddress d"
  by (simp_all add: set_pool_def log_event_def bump_def)

lemma step_proxyAddress: "daemon_step x d = Some d' \<Longrightarrow> d_proxyAddress d' = d_proxyAddress d"
proof (cases x)
  case (OpCreate e req)
  then show "daemon_step x d = Some d' \<Longrightarrow> ?thesis"
    by (auto simp: CreateSession_def warm_if_asked_def finish_create_def Let_def
        split: prod.splits option.splits outcome.splits sum.splits if_splits)
next
  case (OpProxy u up err e s)
  then show "daemon_step x d = Some d' \<Longrightarrow> ?thesis"
    by (auto simp: proxy_ServeHTTP_def proxy_lookup_def data_plane_only Let_def split: sum.splits option.splits)
qed (auto simp: DeleteSession_def UpdateHeartbeat_def controller_WarmImage_def daemon_sweep_def split: prod.splits option.splits sum.splits)

lemma running_proxyAddress:
  assumes "running absPath connect cfg bind d"
  shows "d_proxyAddress d = ''http://'' @ bind"
proof -
  have "daemon_runs d0 d \<Longrightarrow> d_proxyAddress d = d_proxyAddress d0" for d0 d
    by (induction rule: daemon_runs.induct) (auto dest: step_proxyAddress)
  with assms show ?thesis by (fastforce simp: running_def start_daemon_def)
qed

definition port_line :: "port_mapping \<Rightarrow> string" where
  "port_line m = ''  '' @ HostInterface m @ '':'' @ itoa (HostPort m) @ '' -> VM:'' @ itoa (GuestPort m) @ ''/'' @ Protocol m"

lemma mapping_line_json: "mapping_line (mapping_json m) = port_line m" "is_obj (mapping_json m)"
  by (auto simp: mapping_line_def mapping_json_def field_def port_line_def Let_def is_obj_def)

lemma mapping_lines_created:
  "mapping_lines (created_json r) = (if rs_PortMappings r = [] then [] else ''Port Mappings:'' # map port_line (rs_PortMappings r))"
proof (cases "rs_PortMappings r")
  case (Cons m ms)
  have f: "field ''port_mappings'' (created_json r) = JArr (map mapping_json (m # ms))" using Cons by (simp add: created_json_def field_def)
  have "filter is_obj (map mapping_json xs) = map mapping_json xs" for xs by (induction xs) (simp_all add: mapping_line_json)
  then show ?thesis unfolding mapping_lines_def f by (simp add: Cons mapping_line_json)
qed (simp add: mapping_lines_def created_json_def field_def)

lemma deploy_report_created:
  "deploy_report (respond io (CreatedReply r)) = Inr ([''Successfully deployed MicroVM!'', ''Session ID: '' @ rs_SessionID r,
     ''Internal IP: '' @ rs_InternalIP r, ''Proxy URL: '' @ rs_ProxyAddress r] @
     (if rs_PortMappings r = [] then [] else ''Port Mappings:'' # map port_line (rs_PortMappings r)))"
proof -
  have "wf_json (created_json r)" by (simp add: created_json_def mapping_json_def list_all_iff)
  moreover have "field ''session_id'' (created_json r) = JStr (rs_SessionID r)" "field ''internal_ip'' (created_json r) = JStr (rs_InternalIP r)"
    "field ''proxy_address'' (created_json r) = JStr (rs_ProxyAddress r)" "is_obj (created_json r)"
    by (simp_all add: created_json_def field_def is_obj_def)
  ultimately show ?thesis by (simp add: deploy_report_def parse_render_line mapping_lines_created)
qed

lemma deploy_report_status: "deploy_report (respond io (Status n msg)) = Inr out \<Longrightarrow> n = 200"
  by (simp add: deploy_report_def split: if_splits)

lemma deploy_create:
  assumes "deployCmd (Inr c) fl io d = (Returns (Inr out), d')" and "in_int64 (deployTimeout fl)" and "in_int64 (absoluteDeployTimeout fl)"
    and "CHR ''/'' \<notin> set (ControlBind (cfg_Network c))"
  obtains m bs r where "CreateSession (io_env io) (deploy_decoded fl m bs) d = (Returns (Inr r), d')"
    "deploy_report (respond io (CreatedReply r)) = Inr out"
proof -
  obtain hr where hr: "deploy_request (Inr c) fl = Inr hr" using assms(1) by (auto simp: deployCmd_def run_command_def split: sum.splits)
  then obtain c' m bs where req: "c' = c" "env_map (deployEnv fl) [] = Inr m" "publish_all (deployPublish fl) = Inr bs"
    "hr = \<lparr>hr_Method = ''POST'', hr_URL = sessions_url c', hr_Body = render (deploy_json fl m bs)\<rparr>"
    by (rule deploy_request_cases) auto
  note dec = decode_deploy [OF assms(2,3) req(2,3)]
  have serve: "serve io ''POST'' [''v1'', ''sessions''] (render (deploy_json fl m bs)) d =
      handleCreateSession decode_create (io_env io) (Some (render (deploy_json fl m bs))) d"
    by (simp add: serve_def session_routes)
  have path: "url_path (sessions_url c) = [''v1'', ''sessions'']" using session_paths(1) [OF assms(4), of "[]"] by simp
  from assms(1) obtain x where x: "handleCreateSession decode_create (io_env io) (Some (render (deploy_json fl m bs))) d = (Returns x, d')"
      "deploy_report (respond io x) = Inr out"
    by (auto simp: deployCmd_def run_command_def hr req exchange_def path serve split: prod.splits outcome.splits)
  then obtain r where "CreateSession (io_env io) (deploy_decoded fl m bs) d = (Returns (Inr r), d')" "x = CreatedReply r"
    by (auto simp: handleCreateSession_def dec dest!: deploy_report_status split: prod.splits outcome.splits sum.splits if_splits)
  with x(2) that show ?thesis by blast
qed

text \<open>
  C12.  \<open>herd deploy\<close> does what it prints: when the command succeeds against a running daemon, the
  daemon has one session more, under the fresh id, its lease has the timeouts of the flags, and the
  lines printed are this id, the address of the session's worker, the daemon's proxy and the ports
  that were in fact allocated.
\<close>

theorem deploy_creates_session:
  assumes "running absPath connect cfg bind d" and "deployCmd (Inr c) fl io d = (Returns (Inr out), d')"
    and "in_int64 (deployTimeout fl)" and "in_int64 (absoluteDeployTimeout fl)" and "CHR ''/'' \<notin> set (ControlBind (cfg_Network c))"
  shows "\<exists>w. p_registry (d_pool d') = (p_registry (d_pool d))(e_uuid (io_env io) \<mapsto> w) \<and>
    map_option ss_IdleTTL (d_leases d' (e_uuid (io_env io))) = Some (seconds (deployTimeout fl)) \<and>
    map_option ss_AbsoluteTTL (d_leases d' (e_uuid (io_env io))) = Some (seconds (absoluteDeployTimeout fl)) \<and>
    out = [''Successfully deployed MicroVM!'', ''Session ID: '' @ e_uuid (io_env io), ''Internal IP: '' @ fw_guestIP (worker_obj w),
      ''Proxy URL: http://'' @ bind] @
      (if fw_portMappings (worker_obj w) = [] then [] else ''Port Mappings:'' # map port_line (fw_portMappings (worker_obj w)))"
proof -
  from assms(2-5) obtain m bs r where create: "CreateSession (io_env io) (deploy_decoded fl m bs) d = (Returns (Inr r), d')"
    and out: "deploy_report (respond io (CreatedReply r)) = Inr out" by (rule deploy_create)
  have s: "session_id_of (io_env io) (deploy_decoded fl m bs) = e_uuid (io_env io)"
    by (simp add: session_id_of_def deploy_decoded_def empty_request_def)
  have "create_post (io_env io) (deploy_decoded fl m bs) d (Returns (Inr r)) d'"
    by (rule CreateSession_post [OF running_inv [OF assms(1)] create])
  then obtain w where w: "p_registry (d_pool d') = (p_registry (d_pool d))(e_uuid (io_env io) \<mapsto> w)"
    "rs_SessionID r = e_uuid (io_env io)" "rs_InternalIP r = fw_guestIP (worker_obj w)" "rs_PortMappings r = fw_portMappings (worker_obj w)"
    unfolding create_post_def outcome.case sum.case s by blast
  note lease = CreateSession_lease [OF create, unfolded s]
  show ?thesis
    by (rule exI [of _ w])
       (use w lease out [unfolded deploy_report_created] running_proxyAddress [OF assms(1)] in \<open>auto simp: deploy_decoded_def\<close>)
qed


text \<open>The rows of the table come from the leases, through the JSON of the daemon.\<close>

lemma decode_session:
  assumes "\<And>t. unstamp (stamp t) = Some t" and "in_int64 (ss_ActiveConns st)"
  shows "decode_status unstamp z (session_json stamp st) =
    Some \<lparr>st_SessionID = ss_SessionID st, st_CreatedAt = ss_CreatedAt st, st_LastControlHeartbeat = ss_LastControlHeartbeat st, st_ActiveConns = ss_ActiveConns st\<rparr>"
  using assms by (simp add: decode_status_def decode_struct_def session_json_def status_field_def put_str_def put_time_def put_int_def in_int64_def)

definition status_of :: "session_state \<Rightarrow> session_status" where
  "status_of st = \<lparr>st_SessionID = ss_SessionID st, st_CreatedAt = ss_CreatedAt st,
     st_LastControlHeartbeat = ss_LastControlHeartbeat st, st_ActiveConns = ss_ActiveConns st\<rparr>"

lemma status_report_sessions:
  assumes "\<And>t. unstamp (io_stamp io t) = Some t" and "list_all (\<lambda>st. in_int64 (ss_ActiveConns st)) sts"
  shows "status_report unstamp z show_time (respond io (SessionsReply sts)) =
    Inr (if sts = [] then [''No active sessions.'']
         else status_header # map (status_row show_time \<circ> status_of) sts)"
proof -
  have wf: "wf_json (JArr (map (session_json (io_stamp io)) sts))" by (simp add: list_all_iff session_json_def mapping_json_def)
  have "those (map (\<lambda>st. decode_status unstamp z (session_json (io_stamp io) st)) sts) = Some (map status_of sts)"
    by (rule those_map) (use decode_session [of unstamp "io_stamp io", OF assms(1)] assms(2) in \<open>simp add: list_all_iff status_of_def\<close>)
  then show ?thesis by (simp add: status_report_def parse_render [OF wf] decode_slice_def comp_def del: render.simps)
qed

text \<open>
  C21.  \<open>herd status\<close> shows the truth: when the times survive their text form, the command prints one
  row for every lease of the daemon, in the order in which the daemon lists them, with its id, its
  times and its number of open connections, and that there is no session exactly when there is none.
\<close>

theorem status_lists_sessions:
  assumes "CHR ''/'' \<notin> set (ControlBind (cfg_Network c))" and "set (io_order io) = dom (d_leases d)"
    and "\<And>t. unstamp (io_stamp io t) = Some t" and "\<And>s st. d_leases d s = Some st \<Longrightarrow> in_int64 (ss_ActiveConns st)"
  shows "statusCmd unstamp z show_time (Inr c) io d = (Returns (Inr (if d_leases d = Map.empty then [''No active sessions.'']
      else status_header #
        map (\<lambda>s. status_row show_time (status_of (the (d_leases d s)))) (io_order io))), d)"
proof -
  have sub: "List.map_filter (d_leases d) xs = map (\<lambda>s. the (d_leases d s)) xs" if "set xs \<subseteq> dom (d_leases d)" for xs
    using that by (induction xs) (auto simp: List.map_filter_def)
  then have list: "ListSessions (io_order io) d = map (\<lambda>s. the (d_leases d s)) (io_order io)"
    using assms(2) by (simp add: ListSessions_def lm_ListSessions_def)
  have conns: "list_all (\<lambda>st. in_int64 (ss_ActiveConns st)) (ListSessions (io_order io) d)"
    using assms(2,4) by (auto simp: list list_all_iff dom_def)
  have empty: "ListSessions (io_order io) d = [] \<longleftrightarrow> d_leases d = Map.empty"
    using assms(2) by (auto simp: list dom_def)
  have path: "url_path (sessions_url c) = [''v1'', ''sessions'']" using session_paths(1) [OF assms(1), of "[]"] by simp
  note report = status_report_sessions [of unstamp io, OF assms(3) conns]
  show ?thesis
    using report [of z show_time] unfolding empty
    by (simp add: statusCmd_def run_command_def status_request_def with_config_def exchange_def path serve_def session_routes
        handleListSessions_def list comp_def del: respond.simps)
qed

text \<open>\<open>herd logs\<close> prints the file that the daemon finds for the session, and fails when there is none.\<close>

lemma logs_result:
  assumes "running absPath connect cfg bind d" and "CHR ''/'' \<notin> set (ControlBind (cfg_Network c))" and "CHR ''/'' \<notin> set s" and "s \<noteq> ''''"
  shows "logsCmd (Inr c) s io d = (Returns (if p_registry (d_pool d) s \<noteq> None \<and> io_open io (''/tmp/'' @ s @ ''.log'')
    then Inr [io_log io (''/tmp/'' @ s @ ''.log'')] else Inl (RejectedRequest 404 ''logs'')), d)"
proof -
  have id: "p_registry (d_pool d) s = Some w \<Longrightarrow> worker_ID w = s" for w
    using fc_inv_IDs [OF daemon_fc_inv [OF running_inv [OF assms(1)]]] by blast
  show ?thesis
    using session_paths(3) [OF assms(2,3)] assms(4) id
    by (cases "p_registry (d_pool d) s")
       (auto simp: logsCmd_def run_command_def logs_request_def with_config_def exchange_def serve_def session_routes handleLogsSession_def
         GetLogs_def pool_GetSession_def registry_Get_def logs_report_def Let_def)
qed

section \<open>A run\<close>

definition demo_flags :: deploy_flags where
  "demo_flags = \<lparr>deployImage = ''alpine'', deployTimeout = 60, absoluteDeployTimeout = 3600, deployCommand = [],
     deployEnv = [''A=1'', ''A=2''], deployPublish = [''8080:80'']\<rparr>"

definition demo_io :: api_io where
  "demo_io = \<lparr>io_env = demo_env, io_open = (\<lambda>_. True), io_hijack = Some True, io_dial = (\<lambda>_ _. True), io_order = [''vm1''],
     io_stamp = itoa, io_log = (\<lambda>_. '''')\<rparr>"

lemma demo_binding: "SanitizeNetworkBindings ''8080:80'' = (\<lparr>pb_IP = [0, 0, 0, 0], pb_HostPort = 8080, pb_GuestPort = 80, pb_Protocol = ''tcp''\<rparr>, None)"
proof -
  have "ParseUint16 ''8080'' = Some 8080" "ParseUint16 ''80'' = Some 80"
    by (simp_all add: ParseUint16_def parse_dec_def dec_val_def digit_val_def is_digit_def)
  moreover have "to_lower ''8080:80'' = ''8080:80''" by (simp add: to_lower_def lower_char_def)
  ultimately show ?thesis by (simp add: SanitizeNetworkBindings_def bind_fields_def default_binding_def)
qed

lemma demo_flag_lists:
  "env_map (deployEnv demo_flags) [] = Inr [(''A'', ''2'')]"
  "publish_all (deployPublish demo_flags) = Inr [\<lparr>pb_IP = [0, 0, 0, 0], pb_HostPort = 8080, pb_GuestPort = 80, pb_Protocol = ''tcp''\<rparr>]"
  "in_int64 (deployTimeout demo_flags)" "in_int64 (absoluteDeployTimeout demo_flags)"
  by (simp_all add: demo_flags_def cut_def demo_binding in_int64_def)

lemma demo_bind: "CHR ''/'' \<notin> set (ControlBind (cfg_Network demo_config))"
  by (simp add: demo_config_def)

lemma deploy_run:
  assumes "env_map (deployEnv fl) [] = Inr m" and "publish_all (deployPublish fl) = Inr bs" and "in_int64 (deployTimeout fl)"
    and "in_int64 (absoluteDeployTimeout fl)" and "CHR ''/'' \<notin> set (ControlBind (cfg_Network c))" and "deployImage fl \<noteq> ''''"
    and "CreateSession (io_env io) (deploy_decoded fl m bs) d = (Returns (Inr r), d')"
  shows "deployCmd (Inr c) fl io d = (Returns (deploy_report (respond io (CreatedReply r))), d')"
proof -
  have path: "url_path (sessions_url c) = [''v1'', ''sessions'']" using session_paths(1) [OF assms(5), of "[]"] by simp
  have "rq_Image (deploy_decoded fl m bs) \<noteq> ''''" using assms(6) by (simp add: deploy_decoded_def)
  then have "serve io ''POST'' [''v1'', ''sessions''] (render (deploy_json fl m bs)) d = (Returns (CreatedReply r), d')"
    using assms(7) by (simp add: serve_def session_routes handleCreateSession_def decode_deploy [OF assms(3,4,1,2)])
  then show ?thesis
    by (simp add: deployCmd_def run_command_def deploy_request_def with_config_def assms(1,2) exchange_def path del: respond.simps)
qed

lemma demo_deploy: "\<exists>out d. deployCmd (Inr demo_config) demo_flags demo_io demo_start = (Returns (Inr out), d)"
proof -
  let ?req = "deploy_decoded demo_flags [(''A'', ''2'')] [\<lparr>pb_IP = [0, 0, 0, 0], pb_HostPort = 8080, pb_GuestPort = 80, pb_Protocol = ''tcp''\<rparr>]"
  have "rq_PortMappings ?req = [\<lparr>HostInterface = ip_String [0, 0, 0, 0], HostPort = 8080, GuestPort = 80, Protocol = ''tcp''\<rparr>]"
    by (simp add: deploy_decoded_def mapping_of_def)
  moreover have "rq_SessionID ?req = ''''" "\<not> rq_Warm ?req" by (simp_all add: deploy_decoded_def empty_request_def)
  ultimately obtain r d w where "CreateSession demo_env ?req demo_start = (Returns (Inr r), d)" using demo_create_any by blast
  then have "CreateSession (io_env demo_io) ?req demo_start = (Returns (Inr r), d)" by (simp add: demo_io_def)
  from deploy_run [OF demo_flag_lists demo_bind _ this] show ?thesis
    unfolding deploy_report_created by (simp add: demo_flags_def)
qed

theorem deploy_request_typed_witness:
  "\<exists>r req. deploy_request (Inr demo_config) demo_flags = Inr r \<and> decode_create (hr_Body r) = Some req \<and>
     rq_Image req = ''alpine'' \<and> map_of (rq_Env req) ''A'' = Some ''2'' \<and> map HostPort (rq_PortMappings req) = [8080]"
proof -
  obtain r where r: "deploy_request (Inr demo_config) demo_flags = Inr r"
    by (simp add: deploy_request_def with_config_def demo_flag_lists)
  from deploy_request_typed [OF r demo_flag_lists(3,4)] r show ?thesis
    by (auto simp: demo_flags_def demo_binding mapping_of_def cut_def)
qed

theorem deploy_creates_session_witness:
  "\<exists>out d w. deployCmd (Inr demo_config) demo_flags demo_io demo_start = (Returns (Inr out), d) \<and>
     p_registry (d_pool d) ''vm1'' = Some w \<and> map_option ss_IdleTTL (d_leases d ''vm1'') = Some 60000000000 \<and>
     take 2 out = [''Successfully deployed MicroVM!'', ''Session ID: vm1'']"
proof -
  obtain out d where o: "deployCmd (Inr demo_config) demo_flags demo_io demo_start = (Returns (Inr out), d)" using demo_deploy by blast
  have "e_uuid (io_env demo_io) = ''vm1''" by (simp add: demo_io_def demo_env_def)
  with deploy_creates_session [OF demo_running o demo_flag_lists(3,4) demo_bind] o show ?thesis
    by (auto simp: demo_flags_def seconds_def wrap64_def)
qed


text \<open>The times of this run are plain numbers in text form.\<close>

definition read_number :: "string \<Rightarrow> int option" where
  "read_number s = (case number s of Some (JNum i) \<Rightarrow> Some i | _ \<Rightarrow> None)"

theorem status_lists_sessions_witness:
  "\<exists>d st. d_leases d = [''vm1'' \<mapsto> st] \<and>
     statusCmd read_number 0 itoa (Inr demo_config) demo_io d = (Returns (Inr [status_header, status_row itoa (status_of st)]), d)"
proof -
  obtain r d w where c: "CreateSession demo_env demo_request demo_start = (Returns (Inr r), d)" "p_registry (d_pool d) = [''vm1'' \<mapsto> w]"
    using demo_create by blast
  have "daemon_inv (nat (MaxGlobalVMs (cfg_Resources demo_config))) d" by (rule CreateSession_inv [OF running_inv [OF demo_running] c(1)])
  with c(2) have dom: "dom (d_leases d) = {''vm1''}" by (simp add: daemon_inv_def lease_inv_def)
  then obtain st where st: "d_leases d = [''vm1'' \<mapsto> st]" by (metis dom_eq_singleton_conv)
  have "ss_ActiveConns st = 0"
    using CreateSession_post [OF running_inv [OF demo_running] c(1)] st by (auto simp: create_post_def demo_tenant)
  then have conns: "d_leases d s = Some v \<Longrightarrow> in_int64 (ss_ActiveConns v)" for s v
    using st by (auto simp: in_int64_def split: if_splits)
  have stamp: "read_number (io_stamp demo_io t) = Some t" for t by (simp add: demo_io_def read_number_def number_itoa)
  have order: "set (io_order demo_io) = dom (d_leases d)" by (simp add: demo_io_def dom)
  have "statusCmd read_number 0 itoa (Inr demo_config) demo_io d = (Returns (Inr [status_header, status_row itoa (status_of st)]), d)"
    using status_lists_sessions [OF demo_bind order stamp conns, where z = 0 and show_time = itoa] st by (simp add: demo_io_def)
  with st show ?thesis by blast
qed

end
