(* ===== verification/Data_Plane.thy ===== *)
theory Data_Plane
  imports Control_Api "HOL-Library.AList"
begin

text \<open>
  The data plane's handler (\<open>NewDataPlaneHandler\<close> in \<open>internal/daemon/runtime.go\<close>), the helpers for
  a Unix socket beside it, and the JSON form of a log line (\<open>telemetry.go\<close>).
\<close>

section \<open>Routing\<close>

text \<open>
  \<open>mux.Handle\<close> panics when a pattern is registered twice; the metrics path is one without braces,
  blanks and percent signs.  A pattern that ends in a slash stands for the whole tree below it, and
  its name without the slash is redirected.
\<close>

definition mux_conflict :: "string \<Rightarrow> bool" where
  "mux_conflict metricsPath \<longleftrightarrow> metricsPath \<in> {''/'', ''/healthz''}"

definition in_tree :: "string \<Rightarrow> string \<Rightarrow> bool" where
  "in_tree pat path \<longleftrightarrow> path = pat \<or> last pat = CHR ''/'' \<and> has_prefix pat path"

definition data_serve :: "(string \<Rightarrow> bool) \<Rightarrow> (string \<Rightarrow> nat option) \<Rightarrow> proxy_err \<Rightarrow> env \<Rightarrow> string \<Rightarrow> string \<Rightarrow> sid \<Rightarrow> daemon \<Rightarrow>
    reply outcome \<times> daemon" where
  "data_serve url_ok upstream ctxErr e metricsPath path sessionHeader d =
     (if path = ''/healthz'' then (Returns (Status 200 ''ok''), d)
      else if in_tree metricsPath path then (Returns (Status 200 (MetricsHandler d)), d)
      else if path @ ''/'' = metricsPath then (Returns (Status 301 ''Moved Permanently''), d)
      else proxy_ServeHTTP url_ok upstream ctxErr e data_plane_proxy sessionHeader d)"

section \<open>Unix sockets\<close>

definition RemoveUnixSocket :: "host \<Rightarrow> string \<Rightarrow> (trace, host_err, unit) action" where
  "RemoveUnixSocket h path = bindE (tryE (perform h (RemoveFile path))) (\<lambda>r. case r of
       Inr _ \<Rightarrow> returnE () | Inl err \<Rightarrow> if err = NotFound then returnE () else failE err)"

datatype socket_error = RemoveStale host_err | ListenSocket string host_err | ChmodSocket string host_err

definition ListenUnixSocket :: "host \<Rightarrow> string \<Rightarrow> (trace, socket_error, unit) action" where
  "ListenUnixSocket h path =
     thenE (wrapE RemoveStale (RemoveUnixSocket h path))
    (thenE (wrapE (ListenSocket path) (perform h (ListenUnix path)))
           (bindE (tryE (perform h (ChmodFile path 384))) (\<lambda>r. case r of
              Inr _ \<Rightarrow> returnE ()
            | Inl err \<Rightarrow> thenE (ignoreE (perform h (ConnClose path))) (failE (ChmodSocket path err)))))"

section \<open>Log records\<close>

text \<open>
  A field of a log record: plain data, or an error made by \<open>errors.New\<close> or \<open>fmt.Errorf\<close>, a
  struct without exported fields.
\<close>

datatype log_field = Data json | ErrorValue string

fun log_json :: "log_field \<Rightarrow> json" where
  "log_json (Data j) = j"
| "log_json (ErrorValue msg) = JObj []"

fun insert_member :: "string \<times> json \<Rightarrow> (string \<times> json) list \<Rightarrow> (string \<times> json) list" where
  "insert_member f [] = [f]"
| "insert_member f (g # gs) =
     (if lexordp_eq (map (of_char :: char \<Rightarrow> nat) (fst f)) (map of_char (fst g)) then f # g # gs else g # insert_member f gs)"

text \<open>\<open>ts\<close> is the time in text form; a field of the same name replaces it, or the level or the event.\<close>

definition emit_json :: "string \<Rightarrow> string \<Rightarrow> string \<Rightarrow> (string \<times> log_field) list \<Rightarrow> string" where
  "emit_json ts level event kvs =
     render (JObj (foldr insert_member
       (fold (\<lambda>(k, v). AList.update k (log_json v)) kvs [(''ts'', JStr ts), (''level'', JStr level), (''event'', JStr event)]) []))"

section \<open>Properties\<close>

text \<open>In JSON the message of an error is lost: records that differ only in it are the same text.\<close>

lemma json_log_drops_message:
  "emit_json ts level event [(''error'', ErrorValue m), (''session_id'', Data (JStr s))] =
   emit_json ts level event [(''error'', ErrorValue m'), (''session_id'', Data (JStr s))]"
  by (simp add: emit_json_def)


text \<open>A socket is handed out only with owner-only permissions, and closed when these cannot be set.\<close>

lemma listen_is_private:
  assumes "ListenUnixSocket h path tr = (r, tr')" and "(ListenUnix path, None) \<in> set (drop (length tr) tr')"
  shows "case r of Inr _ \<Rightarrow> last tr' = (ChmodFile path 384, None) | Inl _ \<Rightarrow> fst (last tr') = ConnClose path"
  using assms
  by (auto simp: ListenUnixSocket_def RemoveUnixSocket_def thenE_def bindE_def tryE_def wrapE_def ignoreE_def returnE_def failE_def perform_def
      split: option.splits if_splits)

text \<open>Every request on the data plane returns and keeps the invariant; only the proxy may change the daemon.\<close>

lemma data_serve_safe:
  assumes "daemon_inv N d" and "data_serve url_ok upstream ctxErr e metricsPath path s d = (out, d')"
  shows "(\<exists>r. out = Returns r) \<and> daemon_inv N d' \<and> (path = ''/healthz'' \<or> in_tree metricsPath path \<longrightarrow> d' = d)"
proof (cases "path = ''/healthz'' \<or> in_tree metricsPath path \<or> path @ ''/'' = metricsPath")
  case True
  with assms show ?thesis by (auto simp: data_serve_def split: if_splits)
next
  case False
  with assms(2) have p: "proxy_ServeHTTP url_ok upstream ctxErr e data_plane_proxy s d = (out, d')" by (simp add: data_serve_def)
  show ?thesis
  proof (cases "s = ''''")
    case True
    with p assms(1) False show ?thesis by (auto simp: proxy_ServeHTTP_def)
  next
    case s: False
    from proxy_effect [OF assms(1) s, of url_ok upstream ctxErr e] p have "\<exists>r. out = Returns r"
      by (auto simp: proxy_post_def split: option.splits)
    moreover have "daemon_inv N d'" using proxy_inv [OF assms(1), of url_ok upstream ctxErr e s] p by simp
    ultimately show ?thesis using False by blast
  qed
qed

end
