(* ===== verification/Cloud.thy ===== *)
theory Cloud
  imports Daemon_Safety Observer Go_Paths
begin

text \<open>
  The client of the cloud control plane, \<open>internal/cloud/client.go\<close>: dialling, the choice of
  credentials, the identity kept in files, the heartbeat and the commands.  The connection and the
  files are calls to a \<open>host\<close>, recorded in the client's own trace; the text of a file is given by
  \<open>out\<close>.  The goroutines of the telemetry and of the command stream are single steps.
\<close>

section \<open>State\<close>

record cloud_client =
  cl_cfg :: cloud_config
  cl_interfaceIP :: string
  cl_trace :: trace

datatype cloud_error =
    InvalidEndpoint string
  | DialAttemptsFailed host_err
  | DialControlPlane cloud_error
  | NoCredentials
  | OpenStream host_err
  | PersistFailed host_err

definition cl_do :: "(trace, 'e, 'a) action \<Rightarrow> (cloud_client, 'e, 'a) action" where
  "cl_do m c = (case m (cl_trace c) of (r, tr) \<Rightarrow> (r, c\<lparr>cl_trace := tr\<rparr>))"

definition cl_set :: "(cloud_config \<Rightarrow> cloud_config) \<Rightarrow> (cloud_client, 'e, unit) action" where
  "cl_set f c = (Inr (), c\<lparr>cl_cfg := f (cl_cfg c)\<rparr>)"

section \<open>Identity\<close>

definition identity_path :: "cloud_client \<Rightarrow> string" where
  "identity_path c = path_Join [path_Dir (cloud_NodeKeyPath (cl_cfg c)), ''node.id'']"

definition loadLocalIdentity :: "host \<Rightarrow> (trace \<Rightarrow> call \<Rightarrow> string) \<Rightarrow> (cloud_client, 'e, unit) action" where
  "loadLocalIdentity h out c =
     bindE (cl_do (run_out h out (ReadFile (cloud_NodeKeyPath (cl_cfg c))))) (\<lambda>(key, err1).
     thenE (if err1 = None then cl_set (\<lambda>g. g\<lparr>cloud_NodeKey := trim_space key\<rparr>) else returnE ())
    (bindE (cl_do (run_out h out (ReadFile (identity_path c)))) (\<lambda>(ident, err2).
     if err2 = None then cl_set (\<lambda>g. g\<lparr>cloud_NodeID := trim_space ident\<rparr>) else returnE ()))) c"

definition persistIdentity :: "host \<Rightarrow> string \<Rightarrow> string \<Rightarrow> (cloud_client, cloud_error, unit) action" where
  "persistIdentity h nodeID nodeKey c =
     thenE (cl_set (\<lambda>g. g\<lparr>cloud_NodeID := nodeID, cloud_NodeKey := nodeKey\<rparr>))
    (thenE (wrapE PersistFailed (cl_do (perform h (MkdirAll (path_Dir (cloud_NodeKeyPath (cl_cfg c)))))))
    (thenE (ignoreE (cl_do (perform h (RemoveFile (cloud_NodeKeyPath (cl_cfg c))))))
    (thenE (wrapE PersistFailed (cl_do (perform h (WriteFile (cloud_NodeKeyPath (cl_cfg c)) nodeKey))))
           (wrapE PersistFailed (cl_do (perform h (WriteFile (identity_path c) nodeID))))))) c"

section \<open>Connecting\<close>

fun dial_attempts :: "host \<Rightarrow> string \<Rightarrow> string list \<Rightarrow> host_err option \<Rightarrow> (trace, cloud_error, string) action" where
  "dial_attempts h endpoint [] lastErr = failE (DialAttemptsFailed (case lastErr of None \<Rightarrow> NotFound | Some e \<Rightarrow> e))"
| "dial_attempts h endpoint (a # as) lastErr = bindE (tryE (perform h (GrpcDial endpoint a))) (\<lambda>r. case r of
       Inr _ \<Rightarrow> returnE a
     | Inl e \<Rightarrow> dial_attempts h endpoint as (Some e))"

definition dialWithFallback :: "host \<Rightarrow> string \<Rightarrow> (trace, cloud_error, string) action" where
  "dialWithFallback h endpoint = (case SplitHostPort endpoint of
       None \<Rightarrow> failE (InvalidEndpoint endpoint)
     | Some _ \<Rightarrow> dial_attempts h endpoint [''tls'', ''insecure''] None)"

text \<open>The metadata the stream is opened with: the node's own key before a machine token.\<close>

definition credentials :: "cloud_config \<Rightarrow> (string \<times> string) list option" where
  "credentials g =
     (if cloud_NodeKey g \<noteq> '''' \<and> cloud_NodeID g \<noteq> '''' then Some [(''x-node-id'', cloud_NodeID g), (''x-node-key'', cloud_NodeKey g)]
      else if cloud_MachineToken g \<noteq> '''' then Some [(''x-machine-token'', cloud_MachineToken g)]
      else None)"

text \<open>Up to the stream; the result says whether there is one.\<close>

definition cloud_Start :: "host \<Rightarrow> (trace \<Rightarrow> call \<Rightarrow> string) \<Rightarrow> (cloud_client, cloud_error, bool) action" where
  "cloud_Start h out c =
     (if \<not> cloud_Enabled (cl_cfg c) then (Inr False, c)
      else thenE (wrapE DialControlPlane (cl_do (dialWithFallback h (cloud_Endpoint (cl_cfg c)))))
          (thenE (loadLocalIdentity h out)
                 (\<lambda>c. case credentials (cl_cfg c) of
                    None \<Rightarrow> (Inl NoCredentials, c)
                  | Some md \<Rightarrow> thenE (wrapE OpenStream (cl_do (perform h (GrpcConnect md)))) (returnE True) c)) c)"

section \<open>Telemetry\<close>

text \<open>\<open>x / 1024 / 1024\<close> rounds towards zero.\<close>

definition to_mb :: "int \<Rightarrow> int" where
  "to_mb x = sgn x * (\<bar>x\<bar> div 1024 div 1024)"

text \<open>The conversion \<open>int32(x)\<close>.\<close>

definition to_int32 :: "int \<Rightarrow> int" where
  "to_int32 x = (x + 2 ^ 31) mod 2 ^ 32 - 2 ^ 31"

record heartbeat =
  hb_AvailableMemoryMb :: int
  hb_ActiveVmCount :: int
  hb_CpuUsagePercent :: real
  hb_UptimeSeconds :: int
  hb_InterfaceIp :: string
  hb_ActiveSessions :: "(string \<times> (int \<times> int) list) list"
  hb_TotalMemoryMb :: int
  hb_TotalVcpu :: int

definition session_info :: "session_state \<Rightarrow> string \<times> (int \<times> int) list" where
  "session_info s = (ss_SessionID s, map (\<lambda>m. (to_int32 (GuestPort m), to_int32 (HostPort m))) (ss_PortMappings s))"

text \<open>The heartbeat that is sent, from the node's statistics, the clock and the order of the sessions.\<close>

definition sendTelemetry :: "node_stats \<Rightarrow> int \<Rightarrow> sid list \<Rightarrow> cloud_client \<Rightarrow> daemon \<Rightarrow> heartbeat" where
  "sendTelemetry node now order c d =
     (let stats = pool_Stats node (d_pool d) in
      \<lparr>hb_AvailableMemoryMb = to_mb (AvailableMemoryBytes (Node stats)),
       hb_ActiveVmCount = to_int32 (int (ActiveSessions stats)),
       hb_CpuUsagePercent = (1 - CPUIdle (Node stats)) * 100,
       hb_UptimeSeconds = now,
       hb_InterfaceIp = cl_interfaceIP c,
       hb_ActiveSessions = map session_info (ListSessions order d),
       hb_TotalMemoryMb = to_mb (TotalMemoryBytes (Node stats)),
       hb_TotalVcpu = to_int32 (CPUCount (Node stats))\<rparr>)"

section \<open>Commands\<close>

record cloud_command =
  cc_Action :: string
  cc_CommandId :: string
  cc_RequestedSessionId :: string
  cc_Params :: "(string \<times> string) list"
  cc_RequestedMappings :: "int list"

record command_response =
  cr_CommandId :: string
  cr_Error :: "create_error option"
  cr_SessionId :: string

definition param :: "cloud_command \<Rightarrow> string \<Rightarrow> string" where
  "param cmd k = (case map_of (cc_Params cmd) k of None \<Rightarrow> '''' | Some v \<Rightarrow> v)"

definition tcp_mapping :: "int \<Rightarrow> port_mapping" where
  "tcp_mapping p = \<lparr>HostInterface = '''', HostPort = 0, GuestPort = p, Protocol = ''tcp''\<rparr>"

text \<open>\<open>strconv.Atoi\<close> with its error dropped leaves the nearest integer on a range error and zero otherwise.\<close>

definition boot_request :: "cloud_command \<Rightarrow> create_request" where
  "boot_request cmd =
     (let requested = map tcp_mapping (cc_RequestedMappings cmd) in
      \<lparr>rq_SessionID = cc_RequestedSessionId cmd,
       rq_Image = (if param cmd ''image_ref'' = '''' then ''alpine:latest'' else param cmd ''image_ref''),
       rq_Command = [], rq_Env = [], rq_IdleTimeoutSeconds = 0, rq_TTLSeconds = 0, rq_HealthInterval = '''', rq_Warm = False,
       rq_VCPUs = snd (ParseInt64 (param cmd ''vcpus'')), rq_MemoryMB = snd (ParseInt64 (param cmd ''memory_mb'')),
       rq_PortMappings = (if requested = [] then [tcp_mapping 80] else requested)\<rparr>)"

definition boot_vm :: "env \<Rightarrow> cloud_command \<Rightarrow> daemon \<Rightarrow> command_response outcome \<times> daemon" where
  "boot_vm e cmd d = (case CreateSession e (boot_request cmd) d of
       (Returns (Inl err), d') \<Rightarrow> (Returns \<lparr>cr_CommandId = cc_CommandId cmd, cr_Error = Some err, cr_SessionId = ''''\<rparr>, d')
     | (Returns (Inr resp), d') \<Rightarrow> (Returns \<lparr>cr_CommandId = cc_CommandId cmd, cr_Error = None, cr_SessionId = rs_SessionID resp\<rparr>, d')
     | (Blocks, d') \<Rightarrow> (Blocks, d')
     | (Panics, d') \<Rightarrow> (Panics, d'))"

definition swap_credentials :: "host \<Rightarrow> cloud_command \<Rightarrow> cloud_client \<Rightarrow> cloud_client" where
  "swap_credentials h cmd c =
     (if param cmd ''node_id'' = '''' \<or> param cmd ''node_key'' = '''' then c
      else snd (persistIdentity h (param cmd ''node_id'') (param cmd ''node_key'') c))"

text \<open>One command: the response that is sent back (none when the goroutine of a boot never finishes, or none is owed).\<close>

definition command_step :: "host \<Rightarrow> env \<Rightarrow> cloud_command \<Rightarrow> cloud_client \<times> daemon \<Rightarrow>
    command_response outcome option \<times> cloud_client \<times> daemon" where
  "command_step h e cmd st = (case st of (c, d) \<Rightarrow>
     if cc_Action cmd = ''boot_vm'' then (case boot_vm e cmd d of (r, d') \<Rightarrow> (Some r, c, d'))
     else if cc_Action cmd = ''swap_credentials'' then (None, swap_credentials h cmd c, d)
     else (None, c, d))"

section \<open>The identity survives a restart\<close>

text \<open>The files a trace has left behind, and a host that gives back what was written.\<close>

definition file_effect :: "(string \<rightharpoonup> string) \<Rightarrow> call \<times> host_err option \<Rightarrow> (string \<rightharpoonup> string)" where
  "file_effect m x = (case x of
       (WriteFile f t, None) \<Rightarrow> m(f \<mapsto> t)
     | (RemoveFile f, None) \<Rightarrow> m(f := None)
     | _ \<Rightarrow> m)"

definition files :: "trace \<Rightarrow> (string \<rightharpoonup> string)" where
  "files tr = foldl file_effect Map.empty tr"

definition keeps_files :: "host \<Rightarrow> (trace \<Rightarrow> call \<Rightarrow> string) \<Rightarrow> bool" where
  "keeps_files h out \<longleftrightarrow> (\<forall>tr p t. files tr p = Some t \<longrightarrow> h_err h tr (ReadFile p) = None \<and> out tr (ReadFile p) = t)"

lemma files_append: "files (tr @ new) = foldl file_effect (files tr) new"
  by (simp add: files_def)

lemma file_effect_simps [simp]:
  "file_effect m (WriteFile f t, None) = m(f \<mapsto> t)" "file_effect m (ReadFile f, r) = m" "file_effect m (GrpcDial a b, r) = m"
  by (auto simp: file_effect_def split: option.splits)

lemmas cloud_simps = thenE_def bindE_def tryE_def wrapE_def ignoreE_def returnE_def failE_def cl_do_def cl_set_def perform_def run_out_def

lemma persist_files:
  assumes "persistIdentity h nodeID nodeKey c = (Inr (), c')" and "cloud_NodeKeyPath (cl_cfg c) \<noteq> identity_path c"
  shows "files (cl_trace c') (cloud_NodeKeyPath (cl_cfg c)) = Some nodeKey" and "files (cl_trace c') (identity_path c) = Some nodeID"
  using assms by (auto simp: persistIdentity_def cloud_simps files_append split: option.splits)

lemma dial_files: "files (snd (dial_attempts h endpoint as e tr)) = files tr"
  by (induction as arbitrary: tr e) (auto simp: cloud_simps files_append split: option.splits)

lemma dialWithFallback_files: "files (snd (dialWithFallback h endpoint tr)) = files tr"
  by (simp add: dialWithFallback_def dial_files failE_def del: dial_attempts.simps split: option.splits)

lemma load_files:
  assumes "keeps_files h out" and "files (cl_trace c) (cloud_NodeKeyPath (cl_cfg c)) = Some key" and "files (cl_trace c) (identity_path c) = Some ident"
  shows "\<exists>tr. loadLocalIdentity h out c =
    (Inr (), c\<lparr>cl_cfg := (cl_cfg c)\<lparr>cloud_NodeKey := trim_space key, cloud_NodeID := trim_space ident\<rparr>, cl_trace := tr\<rparr>)"
proof -
  let ?t1 = "cl_trace c @ [(ReadFile (cloud_NodeKeyPath (cl_cfg c)), None)]"
  have "files ?t1 (identity_path c) = Some ident" using assms(3) by (simp add: files_append)
  with assms(1) have 2: "h_err h ?t1 (ReadFile (identity_path c)) = None" "out ?t1 (ReadFile (identity_path c)) = ident"
    unfolding keeps_files_def by blast+
  from assms(1,2) have "h_err h (cl_trace c) (ReadFile (cloud_NodeKeyPath (cl_cfg c))) = None"
    "out (cl_trace c) (ReadFile (cloud_NodeKeyPath (cl_cfg c))) = key"
    unfolding keeps_files_def by blast+
  with 2 show ?thesis
    by (intro exI [of _ "?t1 @ [(ReadFile (identity_path c), None)]"]) (simp add: loadLocalIdentity_def cloud_simps)
qed


section \<open>Commands and heartbeats of a running daemon\<close>

text \<open>A boot command is a create request: its answer is the truth about the daemon.\<close>

theorem boot_command_answer:
  assumes "running absPath connect cfg bind d" and "boot_vm e cmd d = (Returns resp, d')"
  shows "running absPath connect cfg bind d' \<and> cr_CommandId resp = cc_CommandId cmd \<and>
     (case cr_Error resp of
        Some _ \<Rightarrow> p_registry (d_pool d') = p_registry (d_pool d) \<and> d_leases d' = d_leases d
      | None \<Rightarrow> cr_SessionId resp = session_id_of e (boot_request cmd) \<and> cr_SessionId resp \<in> dom (p_registry (d_pool d')))"
proof -
  obtain r where create: "CreateSession e (boot_request cmd) d = (Returns r, d')"
    and resp: "resp = (case r of Inl err \<Rightarrow> \<lparr>cr_CommandId = cc_CommandId cmd, cr_Error = Some err, cr_SessionId = ''''\<rparr>
      | Inr rs \<Rightarrow> \<lparr>cr_CommandId = cc_CommandId cmd, cr_Error = None, cr_SessionId = rs_SessionID rs\<rparr>)"
    using assms(2) by (auto simp: boot_vm_def split: prod.splits outcome.splits sum.splits)
  then have "daemon_step (OpCreate e (boot_request cmd)) d = Some d'" by simp
  with assms(1) have "running absPath connect cfg bind d'" unfolding running_def by (blast intro: daemon_runs.op)
  moreover have "create_post e (boot_request cmd) d (Returns r) d'"
    by (rule CreateSession_post [OF running_inv [OF assms(1)] create])
  ultimately show ?thesis by (cases r) (auto simp: create_post_def resp)
qed

lemma map_filter_length: "(\<And>x. x \<in> set xs \<Longrightarrow> f x \<noteq> None) \<Longrightarrow> length (List.map_filter f xs) = length xs"
  by (induction xs) (auto simp: List.map_filter_def)

lemma to_int32_small: "0 \<le> x \<Longrightarrow> x < 2 ^ 31 \<Longrightarrow> to_int32 x = x"
  by (simp add: to_int32_def)

text \<open>The number of machines in a heartbeat is the number of sessions it lists, and they are the leases of the daemon.\<close>

theorem heartbeat_consistent:
  assumes "running absPath connect cfg bind d" and "distinct order" and "set order = dom (d_leases d)" and "length order < 2 ^ 31"
  shows "hb_ActiveVmCount (sendTelemetry node now order c d) = int (length (hb_ActiveSessions (sendTelemetry node now order c d))) \<and>
     map fst (hb_ActiveSessions (sendTelemetry node now order c d)) = order"
proof -
  have inv: "dom (d_leases d) = dom (p_registry (d_pool d))" "\<And>i st. d_leases d i = Some st \<Longrightarrow> ss_SessionID st = i"
    using running_inv [OF assms(1)] by (auto simp: daemon_inv_def lease_inv_def)
  have "card (dom (p_registry (d_pool d))) = length order"
    using assms(2,3) inv(1) distinct_card by metis
  then have "to_int32 (int (registry_Len (p_registry (d_pool d)))) = int (length order)"
    using assms(4) by (simp add: registry_Len_def to_int32_small)
  moreover have "length (List.map_filter (d_leases d) order) = length order"
    by (rule map_filter_length) (use assms(3) in auto)
  moreover have "map (fst \<circ> session_info) (List.map_filter (d_leases d) xs) = xs" if "set xs \<subseteq> dom (d_leases d)" for xs
    using that by (induction xs) (auto simp: List.map_filter_def session_info_def inv(2))
  ultimately show ?thesis
    using assms(3) by (simp add: sendTelemetry_def pool_Stats_def ListSessions_def lm_ListSessions_def)
qed

section \<open>A run\<close>

text \<open>A host on which every call succeeds and files keep their text.\<close>

definition file_host :: host where
  "file_host = (demo_host [])\<lparr>h_err := \<lambda>_ _. None\<rparr>"

definition file_text :: "trace \<Rightarrow> call \<Rightarrow> string" where
  "file_text tr c = (case c of ReadFile p \<Rightarrow> (case files tr p of None \<Rightarrow> '''' | Some t \<Rightarrow> t) | _ \<Rightarrow> '''')"

lemma file_host_keeps: "keeps_files file_host file_text"
  by (simp add: keeps_files_def file_host_def file_text_def)

lemma file_host_err [simp]: "h_err file_host tr c = None"
  by (simp add: file_host_def)

definition demo_client :: cloud_client where
  "demo_client = \<lparr>cl_cfg = \<lparr>cloud_Enabled = True, cloud_Endpoint = ''cloud:443'', cloud_MachineToken = ''once'', cloud_NodeKey = '''',
     cloud_NodeKeyPath = ''/etc/herd/node.key'', cloud_NodeID = '''', cloud_Interface = ''''\<rparr>, cl_interfaceIP = ''192.0.2.1'', cl_trace = []\<rparr>"

definition demo_swap :: "(cloud_error + unit) \<times> cloud_client" where
  "demo_swap = persistIdentity file_host ''n1'' ''k1'' demo_client"

definition demo_restart :: cloud_client where
  "demo_restart = demo_client\<lparr>cl_trace := cl_trace (snd demo_swap)\<rparr>"

lemma demo_identity_path: "identity_path demo_client = ''/etc/herd/node.id''"
  by code_simp

lemma demo_swap_ok: "demo_swap = (Inr (), snd demo_swap)"
  by (simp add: demo_swap_def persistIdentity_def cloud_simps)

lemma demo_restart_ok: "\<exists>c. cloud_Start file_host file_text demo_restart = (Inr True, c)"
proof -
  have dial: "dialWithFallback file_host ''cloud:443'' tr = (Inr ''tls'', tr @ [(GrpcDial ''cloud:443'' ''tls'', None)])" for tr
  proof -
    have "SplitHostPort ''cloud:443'' = Some (''cloud'', ''443'')" by code_simp
    then show ?thesis by (simp add: dialWithFallback_def cloud_simps)
  qed
  have "credentials (cl_cfg (snd (loadLocalIdentity file_host file_text c :: (cloud_error + unit) \<times> cloud_client))) \<noteq> None"
    if "cloud_MachineToken (cl_cfg c) = ''once''" for c
    using that by (auto simp: loadLocalIdentity_def cloud_simps credentials_def)
  moreover have "fst (loadLocalIdentity file_host file_text c) = (Inr () :: cloud_error + unit)" for c
    by (simp add: loadLocalIdentity_def cloud_simps)
  ultimately show ?thesis
    unfolding cloud_Start_def demo_restart_def demo_client_def
    by (auto simp: thenE_def bindE_alt wrapE_alt cl_do_def dial returnE_def perform_def split: option.splits)
qed


end
