(* ===== verification/Vsock.thy ===== *)
theory Vsock
  imports Host Go_Text
begin

text \<open>
  \<open>internal/vsock/dialer.go\<close>: the handshake with the socket of a Firecracker machine and the
  transmission of a command to the guest agent.  What the peer sends is a list of chunks, one for
  each \<open>Read\<close> that returns (none longer than the buffer of the \<open>bufio.Reader\<close>); the end of the
  list is an end of file or a passed deadline.
\<close>

section \<open>Handshake\<close>

datatype vsock_error =
    DialUDS string host_err
  | SendConnect host_err
  | ReadHandshake
  | Rejected string
  | EncodePayload
  | TransmitPayload host_err
  | ContextDone
  | StreamFailed

text \<open>
  \<open>ReadString\<close> up to a line feed through a fresh \<open>bufio.Reader\<close>: the line, what the reader has
  buffered beyond it, and the chunks not read yet.
\<close>

fun read_line :: "string \<Rightarrow> string list \<Rightarrow> (string \<times> string \<times> string list) option" where
  "read_line acc [] = None"
| "read_line acc (c # cs) =
     (if CHR 0x0A \<in> set c
      then Some (acc @ takeWhile (\<lambda>x. x \<noteq> CHR 0x0A) c @ [CHR 0x0A], tl (dropWhile (\<lambda>x. x \<noteq> CHR 0x0A) c), cs)
      else read_line (acc @ c) cs)"

definition connect_line :: "nat \<Rightarrow> string" where
  "connect_line port = ''CONNECT '' @ itoa_nat port @ [CHR 0x0A]"

text \<open>From the dialled connection on; the result is what can still be read from the connection itself.\<close>

definition handshake :: "host \<Rightarrow> string \<Rightarrow> nat \<Rightarrow> string list \<Rightarrow> (trace, vsock_error, string list) action" where
  "handshake h udsPath port chunks =
     thenE (wrapE SendConnect (perform h (ConnWrite udsPath (connect_line port))))
           (case read_line '''' chunks of
              None \<Rightarrow> failE ReadHandshake
            | Some (response, buffered, rest) \<Rightarrow>
                if has_prefix ''OK'' (trim_space response) then returnE rest else failE (Rejected (trim_space response)))"

definition close_unless_ok :: "host \<Rightarrow> string \<Rightarrow> (trace, 'e, 'a) action \<Rightarrow> (trace, 'e, 'a) action" where
  "close_unless_ok h udsPath m tr = (case m tr of
       (Inr x, tr') \<Rightarrow> (Inr x, tr')
     | (Inl e, tr') \<Rightarrow> (Inl e, snd (perform h (ConnClose udsPath) tr')))"

definition DialFirecracker :: "host \<Rightarrow> string list \<Rightarrow> string \<Rightarrow> nat \<Rightarrow> (trace, vsock_error, string list) action" where
  "DialFirecracker h chunks udsPath port =
     thenE (wrapE (DialUDS udsPath) (perform h (DialUnix udsPath)))
           (close_unless_ok h udsPath (handshake h udsPath port chunks))"

section \<open>Execution\<close>

datatype stream_end = CopyDone | CopyFailed | CtxDone

text \<open>
  \<open>encode\<close> is the JSON encoder; \<open>chunks\<close> is what the copy has received from the guest when it ends,
  and \<open>fin\<close> how it ends.
  The result comes with the text that reached the writer.
\<close>

definition Execute :: "host \<Rightarrow> ('p \<Rightarrow> string option) \<Rightarrow> string list \<Rightarrow> stream_end \<Rightarrow> string \<Rightarrow> 'p \<Rightarrow> trace \<Rightarrow>
    ((vsock_error + unit) \<times> string) \<times> trace" where
  "Execute h encode chunks fin conn payload tr =
     (case encode payload of
        None \<Rightarrow> ((Inl EncodePayload, ''''), snd (perform h (ConnClose conn) tr))
      | Some data \<Rightarrow> (case perform h (ConnWrite conn (data @ [CHR 0x0A])) tr of
          (Inl e, tr') \<Rightarrow> ((Inl (TransmitPayload e), ''''), snd (perform h (ConnClose conn) tr'))
        | (Inr _, tr') \<Rightarrow>
            ((case fin of CtxDone \<Rightarrow> Inl ContextDone | CopyFailed \<Rightarrow> Inl StreamFailed | CopyDone \<Rightarrow> Inr (), concat chunks),
             snd (perform h (ConnClose conn) tr'))))"

section \<open>Properties\<close>

text \<open>The reader splits what it reads: nothing is invented, and only the buffered part is set aside.\<close>

lemma while_upto:
  "x \<notin> set a \<Longrightarrow> takeWhile (\<lambda>y. y \<noteq> x) (a @ x # b) = a" "x \<notin> set a \<Longrightarrow> dropWhile (\<lambda>y. y \<noteq> x) (a @ x # b) = x # b"
  by (induction a) auto

lemma read_line_concat: "read_line acc cs = Some (l, buf, rest) \<Longrightarrow> acc @ concat cs = l @ buf @ concat rest"
proof (induction acc cs rule: read_line.induct)
  case (2 acc c cs)
  show ?case
  proof (cases "CHR 0x0A \<in> set c")
    case True
    then obtain a b where "c = a @ CHR 0x0A # b" "CHR 0x0A \<notin> set a" by (meson split_list_first)
    with True 2 show ?thesis by (auto simp: while_upto)
  qed (use 2 in auto)
qed simp

text \<open>However the answer is cut into chunks, a line \<open>OK ...\<close> that ends a chunk is accepted and nothing is lost.\<close>

lemma read_line_chunks:
  assumes "concat (cs @ [last_chunk]) = l @ [CHR 0x0A]" and "CHR 0x0A \<notin> set l" and "last_chunk \<noteq> []"
  shows "read_line acc (cs @ last_chunk # rest) = Some (acc @ l @ [CHR 0x0A], '''', rest)"
  using assms
proof (induction cs arbitrary: acc l)
  case Nil
  then show ?case by (auto simp: while_upto)
next
  case (Cons c cs)
  from Cons.prems(3) obtain k x where k: "last_chunk = k @ [x]" by (cases last_chunk rule: rev_cases) auto
  with Cons.prems(1) have "(c @ concat cs @ k) @ [x] = l @ [CHR 0x0A]" by simp
  then have "l = c @ (concat cs @ k)" "x = CHR 0x0A" unfolding append1_eq_conv by simp_all
  with k obtain l2 where l: "l = c @ l2" "concat (cs @ [last_chunk]) = l2 @ [CHR 0x0A]" by simp
  with Cons.prems(2) Cons.IH [of l2 "acc @ c"] Cons.prems(3) show ?case by auto
qed

theorem handshake_accepts:
  assumes "h_err h tr (DialUnix uds) = None" and "h_err h (tr @ [(DialUnix uds, None)]) (ConnWrite uds (connect_line port)) = None"
    and "concat (cs @ [last_chunk]) = ''OK '' @ answer @ [CHR 0x0A]" and "CHR 0x0A \<notin> set answer" and "last_chunk \<noteq> []"
  shows "DialFirecracker h (cs @ last_chunk # rest) uds port tr =
    (Inr rest, tr @ [(DialUnix uds, None), (ConnWrite uds (connect_line port), None)])"
proof -
  have line: "read_line '''' (cs @ last_chunk # rest) = Some ((''OK '' @ answer) @ [CHR 0x0A], '''', rest)"
    using read_line_chunks [of cs last_chunk "''OK '' @ answer" "''''" rest] assms by simp
  have "has_prefix ''OK'' (trim_space ((''OK '' @ answer) @ [CHR 0x0A]))"
  proof -
    have "dropWhile is_space ((''OK '' @ answer) @ [CHR 0x0A]) = (''OK '' @ answer) @ [CHR 0x0A]" by (simp add: is_space_def)
    moreover have "dropWhile is_space ((rev answer @ '' '') @ CHR ''K'' # ''O'') = dropWhile is_space (rev answer @ '' '') @ CHR ''K'' # ''O''"
      by (rule dropWhile_append3) (simp add: is_space_def)
    ultimately show ?thesis by (simp add: trim_space_def has_prefix_def is_space_def)
  qed
  with line assms(1,2) show ?thesis
    by (simp add: DialFirecracker_def close_unless_ok_def handshake_def thenE_def bindE_def wrapE_def returnE_def perform_def)
qed

text \<open>When anything fails after the dial, the connection is closed last.\<close>

theorem handshake_failure_closes:
  assumes "DialFirecracker h chunks uds port tr = (Inl e, tr')" and "h_err h tr (DialUnix uds) = None"
  shows "fst (last tr') = ConnClose uds"
  using assms
  by (auto simp: DialFirecracker_def close_unless_ok_def thenE_def bindE_def wrapE_def perform_def split: option.splits prod.splits sum.splits)

text \<open>Bytes that arrive together with the answer stay in the reader, which is dropped.\<close>

theorem handshake_drops_bytes:
  assumes "DialFirecracker h chunks uds port tr = (Inr rest, tr')"
  shows "\<exists>l buffered. read_line '''' chunks = Some (l, buffered, rest) \<and> concat chunks = l @ buffered @ concat rest"
proof -
  from assms obtain l buffered where "read_line '''' chunks = Some (l, buffered, rest)"
    by (auto simp: DialFirecracker_def close_unless_ok_def handshake_def thenE_def bindE_def wrapE_def returnE_def failE_def perform_def
        split: option.splits prod.splits sum.splits if_splits)
  with read_line_concat [OF this] show ?thesis by simp
qed

text \<open>The connection is closed on every way out of \<open>Execute\<close>, after at most one line was sent.\<close>

theorem execute_closes: "fst (last (snd (Execute h encode chunks fin conn payload tr))) = ConnClose conn"
  by (simp add: Execute_def perform_def split: option.splits)

end
