(* ===== verification/Cli_Host.thy ===== *)
theory Cli_Host
  imports Cli_Init Cli_Client Data_Plane Cloud Vsock
begin

text \<open>
  The commands that run on the host itself: \<open>start\<close> (\<open>runDaemon\<close> up to the serving daemon, and what
  happens when it stops), \<open>exec\<close> and \<open>teardown\<close> of \<open>cmd/herd\<close>, and the default path of the
  configuration (\<open>root.go\<close>).
\<close>

section \<open>Configuration path\<close>

definition defaultConfig_path :: "string option \<Rightarrow> string" where
  "defaultConfig_path home = (case home of None \<Rightarrow> ''/etc/herd/herd.yaml'' | Some h \<Rightarrow> path_Join [h, ''.herd'', ''herd.yaml''])"

section \<open>Start\<close>

datatype start_error =
    PlatformRefused string
  | StartConfig config_error
  | StartPool build_error
  | ControlListen host_err

text \<open>What the daemon is given by its surroundings.\<close>

record surroundings =
  s_goos :: string
  s_absPath :: "string \<Rightarrow> string option"
  s_connect :: "string \<Rightarrow> bool"
  s_interfaceIP :: "string \<Rightarrow> iface_error + string"
  s_interfaceFlag :: string

definition interface_ip :: "surroundings \<Rightarrow> herd_config \<Rightarrow> string" where
  "interface_ip su cfg =
     (let name = (if s_interfaceFlag su = '''' then cloud_Interface (cfg_Cloud cfg) else s_interfaceFlag su) in
      if name = '''' then '''' else (case s_interfaceIP su name of Inl _ \<Rightarrow> '''' | Inr ip \<Rightarrow> ip))"

text \<open>\<open>NewClient\<close> and \<open>Start\<close>; a failure is logged and the daemon goes on without the client.\<close>

definition start_cloud :: "host \<Rightarrow> (trace \<Rightarrow> call \<Rightarrow> string) \<Rightarrow> string \<Rightarrow> herd_config \<Rightarrow> trace \<Rightarrow> cloud_client option \<times> trace" where
  "start_cloud h out interfaceIP cfg tr =
     (if \<not> cloud_Enabled (cfg_Cloud cfg) then (None, tr)
      else (case cloud_Start h out \<lparr>cl_cfg = cfg_Cloud cfg, cl_interfaceIP = interfaceIP, cl_trace = tr\<rparr> of
          (Inl _, c) \<Rightarrow> (None, cl_trace c)
        | (Inr _, c) \<Rightarrow> (Some c, cl_trace c)))"

definition runDaemon :: "host \<Rightarrow> (trace \<Rightarrow> call \<Rightarrow> string) \<Rightarrow> surroundings \<Rightarrow> config_error + herd_config \<Rightarrow> trace \<Rightarrow>
    (start_error + daemon \<times> cloud_client option) outcome \<times> trace" where
  "runDaemon h out su loaded tr =
     (case EnforceRuntimePolicy (s_goos su) of
        UnsupportedPlatform g \<Rightarrow> (Returns (Inl (PlatformRefused g)), tr)
      | _ \<Rightarrow> (case loaded of
          Inl e \<Rightarrow> (Returns (Inl (StartConfig e)), tr)
        | Inr cfg \<Rightarrow> (case buildPool (s_absPath su) (s_connect su) cfg of
            None \<Rightarrow> (Panics, tr)
          | Some (Inl e) \<Rightarrow> (Returns (Inl (StartPool e)), tr)
          | Some (Inr (p, fs, f)) \<Rightarrow> (case perform h (ListenTcp (ControlBind (cfg_Network cfg))) tr of
              (Inl e, tr1) \<Rightarrow> (Returns (Inl (ControlListen e)), tr1)
            | (Inr _, tr1) \<Rightarrow>
                (let d = start_daemon p fs f (DataBind (cfg_Network cfg));
                     (cloud, tr2) = start_cloud h out (interface_ip su cfg) cfg tr1
                 in if mux_conflict (MetricsPath (cfg_Telemetry cfg)) then (Panics, tr2) else (Returns (Inr (d, cloud)), tr2))))))"

section \<open>Stop\<close>

datatype stop_cause = StopSignal | ListenerFailed

text \<open>
  From the end of the wait on.  \<open>late\<close> says that the control server did not finish in time.  The
  listener of the control plane is closed by its server and then once more by \<open>defer\<close>, which
  reports an error; the shutdown of the pool is the last of the deferred calls.
\<close>

definition stopDaemon :: "env \<Rightarrow> stop_cause \<Rightarrow> bool \<Rightarrow> daemon \<Rightarrow> unit option outcome \<times> daemon" where
  "stopDaemon e cause late d =
     (let d1 = (case cause of
            StopSignal \<Rightarrow> log_event ''info'' ''daemon_shutdown_signal_received'' d
          | ListenerFailed \<Rightarrow> log_event ''error'' ''daemon_listener_failed'' d);
          d2 = (if late then log_event ''warn'' ''control_plane_graceful_shutdown_timeout'' d1 else d1);
          d3 = log_event ''error'' ''control_listener_close_failed'' (log_event ''info'' ''daemon_stopped'' d2)
      in case pool_Shutdown (\<lambda>w fs. (None :: unit option, fc_close e w fs)) (d_pool d3) (d_factory d3) of
           (Returns None, p, fs) \<Rightarrow> (Returns None, set_pool p fs d3)
         | (Returns (Some err), p, fs) \<Rightarrow> (Returns (Some err), log_event ''error'' ''pool_shutdown_failed'' (set_pool p fs d3))
         | (Blocks, p, fs) \<Rightarrow> (Blocks, set_pool p fs d3)
         | (Panics, p, fs) \<Rightarrow> (Panics, set_pool p fs d3))"

section \<open>Exec\<close>

datatype exec_error = ExecConfig config_error | ExecDial vsock_error | ExecTerminal host_err

definition exec_socket :: "herd_config \<Rightarrow> string \<Rightarrow> string" where
  "exec_socket cfg vmID = path_Join [ChrootBaseDir (cfg_Jailer cfg), ''firecracker'', vmID, ''root'', ''run'', vmID @ ''.sock'']"

text \<open>\<open>chunks\<close> is what the peer sends; the result is the part copied to the terminal once the guest closes.\<close>

definition runExec :: "host \<Rightarrow> string list \<Rightarrow> config_error + herd_config \<Rightarrow> string \<Rightarrow> (trace, exec_error, string list) action" where
  "runExec h chunks loaded vmID = (case loaded of
       Inl e \<Rightarrow> failE (ExecConfig e)
     | Inr cfg \<Rightarrow>
         bindE (wrapE ExecDial (DialFirecracker h chunks (exec_socket cfg vmID) 5001)) (\<lambda>rest.
         deferE (perform h (ConnClose (exec_socket cfg vmID)))
           (thenE (wrapE ExecTerminal (perform h RawTerminal))
                  (deferE (perform h RestoreTerminal) (returnE rest)))))"

section \<open>Teardown\<close>

datatype teardown_error = TeardownConfig config_error | TeardownStorage "boot_error list" | TeardownNetwork nat_error

definition runTeardown :: "host \<Rightarrow> (trace \<Rightarrow> call \<Rightarrow> string) \<Rightarrow> (trace \<Rightarrow> call \<Rightarrow> int) \<Rightarrow> config_error + herd_config \<Rightarrow>
    (trace, teardown_error, unit) action" where
  "runTeardown h out code loaded = (case loaded of
       Inl e \<Rightarrow> failE (TeardownConfig e)
     | Inr cfg \<Rightarrow>
         thenE (wrapE TeardownStorage (teardown_storage h out code (StateDir (cfg_Storage cfg))))
               (wrapE TeardownNetwork (Teardown h)))"

section \<open>Paths\<close>

lemma clean_elems_join_plain:
  assumes "list_all plain_name es"
  shows "clean_elems (''/'' @ join ''/'' es) = es"
proof (cases "es = []")
  case True
  then show ?thesis by (simp add: clean_elems_def clean_step_def)
next
  case False
  have "split_on (CHR ''/'') (join ''/'' es) = es"
    by (rule split_on_join) (use False assms in \<open>auto simp: list_all_iff plain_name_def\<close>)
  moreover have "foldl (clean_step True) [] es = es" using foldl_clean_plain [OF assms, of True "[]"] by simp
  ultimately show ?thesis by (simp add: clean_elems_def rooted_def clean_step_def)
qed

lemma path_Join_twice:
  assumes "rooted base" and "list_all plain_name xs" and "list_all plain_name ys" and "xs \<noteq> []"
  shows "path_Join (path_Join (base # xs) # ys) = path_Join (base # xs @ ys)"
proof -
  have "list_all plain_name (clean_elems base @ xs)" using clean_elems_plain [OF assms(1)] assms(2) by simp
  then have "clean_elems (path_Join (base # xs)) = clean_elems base @ xs"
    unfolding path_Join_plain [OF assms(1,2)] by (rule clean_elems_join_plain)
  moreover have "rooted (path_Join (base # xs))" unfolding path_Join_plain [OF assms(1,2)] by (simp add: rooted_def)
  ultimately show ?thesis using assms by (simp add: path_Join_plain del: path_Join.simps)
qed

lemma config_path_agrees:
  "rooted homeDir \<Longrightarrow> path_Join [path_Join [homeDir, ''.herd''], ''herd.yaml''] = defaultConfig_path (Some homeDir)"
  using path_Join_twice [of homeDir "[''.herd'']" "[''herd.yaml'']"] by (simp add: defaultConfig_path_def plain_name_def del: path_Join.simps)

section \<open>Exec\<close>

text \<open>Whatever the outcome once the connection is up, the terminal is put back if it was changed, and the connection is closed last.\<close>

theorem exec_restores_terminal:
  assumes "DialFirecracker h chunks (exec_socket cfg vmID) 5001 tr = (Inr rest, tr1)" and "runExec h chunks (Inr cfg) vmID tr = (r, tr2)"
  shows "\<exists>rc. last tr2 = (ConnClose (exec_socket cfg vmID), rc) \<and>
    (case r of Inr x \<Rightarrow> x = rest \<and> map fst tr2 = map fst tr1 @ [RawTerminal, RestoreTerminal, ConnClose (exec_socket cfg vmID)]
     | Inl _ \<Rightarrow> map fst tr2 = map fst tr1 @ [RawTerminal, ConnClose (exec_socket cfg vmID)])"
  using assms
  by (auto simp: runExec_def bindE_def thenE_def wrapE_def deferE_def returnE_def perform_def split: option.splits)

text \<open>
  The socket that \<open>exec\<close> dials is the one a session's machine listens on only for a machine named
  \<open>v\<close>: the factory's socket is always \<open>v.sock\<close>.
\<close>

theorem exec_dials_another_socket:
  assumes "rooted (ChrootBaseDir (cfg_Jailer cfg))" and "plain_name vmID" and "JailerChrootBaseDir f = ChrootBaseDir (cfg_Jailer cfg)"
  shows "exec_socket cfg vmID = path_Join [path_Join [chrootRoot f vmID, ''run''], ''v.sock''] \<longleftrightarrow> vmID = ''v''"
proof -
  let ?b = "ChrootBaseDir (cfg_Jailer cfg)"
  have names: "list_all plain_name [''firecracker'', vmID, ''root'']" "list_all plain_name [''run'']" "list_all plain_name [''v.sock'']"
    "list_all plain_name [''firecracker'', vmID, ''root'', ''run'']" "plain_name (vmID @ ''.sock'')"
    using assms(2) by (auto simp: plain_name_def)
  have "path_Join [path_Join [chrootRoot f vmID, ''run''], ''v.sock''] = path_Join [?b, ''firecracker'', vmID, ''root'', ''run'', ''v.sock'']"
    using path_Join_twice [OF assms(1) names(1,2)] path_Join_twice [OF assms(1) names(4,3)]
    by (simp add: chrootRoot_def assms(3) del: path_Join.simps)
  moreover have "path_Join [?b, ''firecracker'', vmID, ''root'', ''run'', x] = ''/'' @ join ''/'' (clean_elems ?b @ [''firecracker'', vmID, ''root'', ''run'', x])"
    if "plain_name x" for x
    by (rule path_Join_plain [OF assms(1)]) (use names that in simp)
  moreover have "join ''/'' (clean_elems ?b @ [''firecracker'', vmID, ''root'', ''run'', x]) = join ''/'' (clean_elems ?b @ [''firecracker'', vmID, ''root'', ''run'', y])
      \<longleftrightarrow> x = y" if "plain_name x" "plain_name y" for x y
    using join_inject [of "clean_elems ?b @ [''firecracker'', vmID, ''root'', ''run'', x]" "clean_elems ?b @ [''firecracker'', vmID, ''root'', ''run'', y]"]
      clean_elems_plain [OF assms(1)] names that by auto
  moreover have "vmID @ ''.sock'' = ''v.sock'' \<longleftrightarrow> vmID = ''v''"
    using append_same_eq [of vmID "''.sock''" "''v''"] by simp
  ultimately show ?thesis using names by (simp add: exec_socket_def del: path_Join.simps)
qed

section \<open>Start and stop\<close>

lemma runDaemon_running:
  assumes "runDaemon h out su (Inr cfg) tr = (Returns (Inr (d, cloud)), tr')" and "valid_config cfg"
  shows "running (s_absPath su) (s_connect su) cfg (DataBind (cfg_Network cfg)) d"
  using assms daemon_runs.start
  by (auto simp: runDaemon_def running_def Let_def split: policy.splits option.splits sum.splits prod.splits if_splits)

lemma runDaemon_starts:
  assumes "valid_config cfg" and "s_goos su = ''linux''" and "\<not> mux_conflict (MetricsPath (cfg_Telemetry cfg))"
    and "s_absPath su (path_Join [StateDir (cfg_Storage cfg), ''containerd.sock'']) = Some sock" and "s_connect su sock"
    and "h_err h tr (ListenTcp (ControlBind (cfg_Network cfg))) = None"
  shows "\<exists>d cloud tr'. runDaemon h out su (Inr cfg) tr = (Returns (Inr (d, cloud)), tr')"
proof -
  obtain p fs f where "buildPool (s_absPath su) (s_connect su) cfg = Some (Inr (p, fs, f))"
    using buildPool_valid [of cfg "s_absPath su" sock "s_connect su", OF assms(1,4,5)] by blast
  with assms(2,3,6) show ?thesis
    by (simp add: runDaemon_def EnforceRuntimePolicy_def perform_def Let_def split: prod.splits)
qed

lemma applyDefaults_keeps:
  "StateDir (cfg_Storage (applyDefaults home c)) = StateDir (cfg_Storage c)"
  "ControlBind (cfg_Network (applyDefaults home c)) = ControlBind (cfg_Network c)"
  "DataBind (cfg_Network (applyDefaults home c)) = DataBind (cfg_Network c)"
  "MetricsPath (cfg_Telemetry c) \<noteq> '''' \<Longrightarrow> MetricsPath (cfg_Telemetry (applyDefaults home c)) = MetricsPath (cfg_Telemetry c)"
  by (simp_all add: applyDefaults_def Let_def)



text \<open>
  A validated configuration whose metrics page is at a path the data plane already uses makes the
  daemon panic when it starts, after the control port was opened.
\<close>

theorem metrics_path_panics:
  assumes "valid_config cfg" and "s_goos su = ''linux''" and "MetricsPath (cfg_Telemetry cfg) \<in> {''/'', ''/healthz''}"
    and "s_absPath su (path_Join [StateDir (cfg_Storage cfg), ''containerd.sock'']) = Some sock" and "s_connect su sock"
    and "h_err h tr (ListenTcp (ControlBind (cfg_Network cfg))) = None"
  shows "fst (runDaemon h out su (Inr cfg) tr) = Panics"
proof -
  obtain p fs f where "buildPool (s_absPath su) (s_connect su) cfg = Some (Inr (p, fs, f))"
    using buildPool_valid [of cfg "s_absPath su" sock "s_connect su", OF assms(1,4,5)] by blast
  with assms(2,3,6) show ?thesis
    by (auto simp: runDaemon_def EnforceRuntimePolicy_def perform_def mux_conflict_def Let_def split: prod.splits)
qed

lemma metrics_path_accepted: "valid_config (demo_config\<lparr>cfg_Telemetry := \<lparr>LogFormat = ''json'', MetricsPath = ''/''\<rparr>\<rparr>)"
  using demo_config_valid by (simp add: valid_config_def demo_config_def has_prefix_def)

section \<open>A run\<close>

definition demo_init_flags :: init_flags where
  "demo_init_flags = \<lparr>autoYes = True, fcBinaryPath = '''', jailerBinPath = '''', kernelImgPath = '''', chrootBase = ''/srv/jailer'', maxGlobalVMs = 0,
     maxGlobalMemMB = 0, cpuLimitCores = 0, cloudEndpoint = '''', machineToken = ''''\<rparr>"

definition demo_machine :: machine where
  "demo_machine = \<lparr>m_root = True, m_home = Some ''/root'', m_arch = ''arm64'', m_cores = 4, m_meminfo = Some ''MemTotal: 2048000 kB'',
     m_web = \<lparr>w_status = (\<lambda>_. 200), w_gzip = (\<lambda>_. None), w_entries = (\<lambda>_. ([], None))\<rparr>\<rparr>"

definition demo_info :: sys_info where
  "demo_info = \<lparr>si_CPUCores = 4, si_TotalMemoryMB = 2000\<rparr>"

lemma demo_machine_info: "GetInfo (m_cores demo_machine) (m_meminfo demo_machine) = Inr demo_info"
proof -
  let ?l = "''MemTotal: 2048000 kB''"
  have "scan_lines ?l = ([?l], False)" by (simp add: scan_lines_def drop_cr_plain)
  moreover have "go_fields ?l = [''MemTotal:'', ''2048000'', ''kB'']" by (simp add: go_fields_def is_space_def)
  moreover have "ParseInt64 ''2048000'' = (True, 2048000)"
    by (simp add: ParseInt64_def parse_dec_def dec_val_def digit_val_def is_digit_def)
  ultimately show ?thesis
    by (simp add: demo_machine_def demo_info_def GetInfo_def getTotalMemoryMB_def has_prefix_def)
qed

definition demo_written :: herd_config where
  "demo_written = (let herdDir = path_Join [''/root'', ''.herd'']; binDir = path_Join [herdDir, ''bin'']; stateDir = path_Join [herdDir, ''state''] in
     init_config demo_init_flags stateDir (path_Join [binDir, ''firecracker'']) (path_Join [binDir, ''jailer''])
       (path_Join [stateDir, ''vmlinux-v6.1.bin'']) (path_Join [binDir, ''herd-guest-agent'']) ''/srv/jailer''
       \<lparr>MaxGlobalVMs = 16, MaxGlobalMemoryMB = 1600, CPULimitCores = 3\<rparr>)"

definition demo_marshal :: "herd_config \<Rightarrow> string option" where
  "demo_marshal c = (if c = demo_written then Some ''herd.yaml of the run'' else None)"

definition demo_decode :: "string \<Rightarrow> herd_config option" where
  "demo_decode t = (if t = ''herd.yaml of the run'' then Some demo_written else None)"

lemma perform_file_host [simp]: "perform file_host c tr = (Inr (), tr @ [(c, None)])"
  by (simp add: perform_def)

lemma run_out_file_host [simp]: "run_out file_host out c tr = (Inr (out tr c, None), tr @ [(c, None)])"
  by (simp add: run_out_def)

lemma fst_in_do [simp]: "fst (in_do m s) = fst (m (in_trace s))"
  by (simp add: in_do_def split: prod.splits)

lemma fst_bs_do [simp]: "fst (bs_do m s) = fst (m (bs_trace s))"
  by (simp add: bs_do_def split: prod.splits)

definition loop_out :: "trace \<Rightarrow> call \<Rightarrow> string" where
  "loop_out tr c = ''/dev/loop0''"

lemma demo_storage: "fst (bootstrap_storage file_host loop_out sd tr) = Inr ()"
proof -
  have "trim_space ''/dev/loop0'' = ''/dev/loop0''" by (simp add: trim_space_def is_space_def)
  then have loop: "fst (setupLoopDevice file_host loop_out f tr) = Inr (''/dev/loop0'', False)" for f tr
    by (simp add: setupLoopDevice_def bindE_def returnE_def loop_out_def)
  have retry: "fst (retryE n (perform file_host c) tr) = Inr ()" for n c tr by (cases n) simp_all
  have "fst (bootstrap_body file_host loop_out sd s) = Inr ()" for s
    by (simp add: bootstrap_body_def ensure_dir_def ensure_file_def createSparseFile_def ensure_loop_def loop ensure_pool_def thinPoolExists_def
        start_containerd_def bs_push_def thenE_def action_alts returnE_def ignoreE_def Let_def del: path_Join.simps)
  then show ?thesis by (simp add: bootstrap_storage_def split: prod.splits sum.splits) (metis fst_conv sum.distinct(1))
qed

lemma demo_nat: "fst (Bootstrap file_host tr) = Inr ()"
proof -
  have data: "h_routes file_host t = [\<lparr>rt_Dst = None, rt_LinkIndex = 2\<rparr>]" "h_linkName file_host t n = ''eth0''" for t n
    by (simp_all add: file_host_def demo_host_def)
  have "fst (getDefaultInterface file_host t) = Inr ''eth0''" for t
    by (simp add: getDefaultInterface_def performG_def action_alts data)
  moreover have "fst (runCmd file_host n args t) = Inr ()" for n args t
    by (simp add: runCmd_def wrapE_alt)
  ultimately show ?thesis by (simp add: Bootstrap_def privNets_def thenE_def action_alts returnE_def)
qed

lemma demo_missing: "fst (missing file_host p tr) = Inr False"
  by (simp add: missing_def action_alts returnE_def)

lemma demo_init: "\<exists>s'. runInit file_host loop_out demo_marshal scan_f demo_machine demo_init_flags s = (Inr demo_written, s')"
proof -
  have flags: "autoYes demo_init_flags" "fcBinaryPath demo_init_flags = ''''" "kernelImgPath demo_init_flags = ''''" "chrootBase demo_init_flags = ''/srv/jailer''"
    by (simp_all add: demo_init_flags_def)
  have limits: "fst (choose_limits scan_f demo_init_flags demo_info s) = Inr \<lparr>MaxGlobalVMs = 16, MaxGlobalMemoryMB = 1600, CPULimitCores = 3\<rparr>" for s
    by (simp add: choose_limits_def demo_init_flags_def demo_info_def default_mem_def default_cpu_def returnE_def Let_def)
  have bins: "fst (choose_binaries file_host demo_machine demo_init_flags d s) = Inr (path_Join [d, ''firecracker''], path_Join [d, ''jailer''])" for d s
    by (simp add: choose_binaries_def flags action_alts demo_missing returnE_def Let_def del: path_Join.simps)
  have kernel: "fst (choose_kernel file_host demo_machine demo_init_flags d s) = Inr (path_Join [d, ''vmlinux-v6.1.bin''])" for d s
    by (simp add: choose_kernel_def flags thenE_def action_alts demo_missing returnE_def Let_def del: path_Join.simps)
  have chroot: "fst (choose_chroot file_host demo_init_flags s) = Inr ''/srv/jailer''" for s
    by (simp add: choose_chroot_def flags thenE_def action_alts returnE_def)
  have save: "fst (save_and_bootstrap file_host loop_out demo_marshal d demo_written s) = Inr demo_written" for d s
    by (simp add: save_and_bootstrap_def demo_marshal_def thenE_def action_alts demo_storage demo_nat returnE_def del: path_Join.simps)
  have written: "demo_written = init_config demo_init_flags (path_Join [path_Join [''/root'', ''.herd''], ''state''])
      (path_Join [path_Join [path_Join [''/root'', ''.herd''], ''bin''], ''firecracker'']) (path_Join [path_Join [path_Join [''/root'', ''.herd''], ''bin''], ''jailer''])
      (path_Join [path_Join [path_Join [''/root'', ''.herd''], ''state''], ''vmlinux-v6.1.bin''])
      (path_Join [path_Join [path_Join [''/root'', ''.herd''], ''bin''], ''herd-guest-agent'']) ''/srv/jailer''
      \<lparr>MaxGlobalVMs = 16, MaxGlobalMemoryMB = 1600, CPULimitCores = 3\<rparr>"
    unfolding demo_written_def Let_def ..
  have machine: "m_root demo_machine" "m_home demo_machine = Some ''/root''" by (simp_all add: demo_machine_def)
  have "fst (runInit file_host loop_out demo_marshal scan_f demo_machine demo_init_flags s) = Inr demo_written"
    using machine
    by (simp add: runInit_def init_rest_def thenE_def action_alts bins kernel chroot limits demo_missing demo_machine_info returnE_def
        save Let_def flip: written del: path_Join.simps)
  then show ?thesis by (metis prod.collapse)
qed

definition demo_surroundings :: surroundings where
  "demo_surroundings = \<lparr>s_goos = ''linux'', s_absPath = Some, s_connect = (\<lambda>_. True), s_interfaceIP = (\<lambda>_. Inl NoSuitableIPv4), s_interfaceFlag = ''''\<rparr>"



end
