(* ===== verification/Cloud_Loops.thy ===== *)
theory Cloud_Loops
  imports Cloud
begin

text \<open>
  The two loops of the cloud client (\<open>telemetryLoop\<close> and \<open>commandLoop\<close> of
  \<open>internal/cloud/client.go\<close>) and \<open>Close\<close>.  The ticks and the commands received until the context
  ends or the stream breaks are lists; a boot command is answered before the next command is read
  here (the interleaving of its goroutine with other callers is that of the pool).
\<close>

section \<open>Loops\<close>

text \<open>What a tick finds: the node's statistics, the clock, the daemon, and whether the stream takes the heartbeat.\<close>

record tick =
  tk_node :: node_stats
  tk_now :: int
  tk_order :: "sid list"
  tk_daemon :: daemon
  tk_sent :: bool

definition beat :: "cloud_client \<Rightarrow> tick \<Rightarrow> heartbeat" where
  "beat c t = sendTelemetry (tk_node t) (tk_now t) (tk_order t) c (tk_daemon t)"

text \<open>The heartbeats that reach the stream; the error of the first one is dropped, any later one ends the loop.\<close>

fun telemetry_rest :: "cloud_client \<Rightarrow> tick list \<Rightarrow> heartbeat list" where
  "telemetry_rest c [] = []"
| "telemetry_rest c (t # ts) = (if tk_sent t then beat c t # telemetry_rest c ts else [])"

definition telemetryLoop :: "cloud_client \<Rightarrow> tick \<Rightarrow> tick list \<Rightarrow> heartbeat list" where
  "telemetryLoop c first ts = (if tk_sent first then [beat c first] else []) @ telemetry_rest c ts"

fun commandLoop :: "host \<Rightarrow> (env \<times> cloud_command) list \<Rightarrow> cloud_client \<times> daemon \<Rightarrow>
    command_response outcome list \<times> cloud_client \<times> daemon" where
  "commandLoop h [] st = ([], st)"
| "commandLoop h ((e, cmd) # cmds) st = (case command_step h e cmd st of (r, c, d) \<Rightarrow>
     (case commandLoop h cmds (c, d) of (rs, st') \<Rightarrow> ((case r of None \<Rightarrow> rs | Some x \<Rightarrow> x # rs), st')))"

text \<open>\<open>conn\<close> is the endpoint when there is a connection.\<close>

definition cloud_Close :: "host \<Rightarrow> string option \<Rightarrow> trace \<Rightarrow> trace" where
  "cloud_Close h conn tr = (case conn of None \<Rightarrow> tr | Some endpoint \<Rightarrow> snd (perform h (ConnClose endpoint) tr))"

section \<open>Properties\<close>

lemma boot_vm_running:
  assumes "running absPath connect cfg bind d" and "boot_vm e cmd d = (Returns resp, d')"
  shows "running absPath connect cfg bind d'" and "cr_CommandId resp = cc_CommandId cmd"
proof -
  obtain r where create: "CreateSession e (boot_request cmd) d = (Returns r, d')" and id: "cr_CommandId resp = cc_CommandId cmd"
    using assms(2) by (auto simp: boot_vm_def split: prod.splits outcome.splits sum.splits)
  have "daemon_step (OpCreate e (boot_request cmd)) d = Some d'" using create by simp
  with assms(1) show "running absPath connect cfg bind d'" unfolding running_def by (blast intro: daemon_runs.op)
  show "cr_CommandId resp = cc_CommandId cmd" by (rule id)
qed

lemma boot_vm_no_panic: "running absPath connect cfg bind d \<Longrightarrow> fst (boot_vm e cmd d) \<noteq> Panics"
  using CreateSession_post [OF running_inv, of absPath connect cfg bind d e "boot_request cmd"]
  by (auto simp: boot_vm_def create_post_def split: prod.splits outcome.splits sum.splits)

definition answered :: "command_response outcome \<Rightarrow> bool" where
  "answered x = (case x of Returns _ \<Rightarrow> True | _ \<Rightarrow> False)"

text \<open>
  Commands of the cloud keep the daemon running, and as long as every boot returns the answers are,
  in order, those to the boot commands.
\<close>

theorem command_loop_answers:
  assumes "running absPath connect cfg bind d" and "commandLoop h cmds (c, d) = (rs, c', d')" and "list_all answered rs"
  shows "running absPath connect cfg bind d' \<and>
    map (\<lambda>x. case x of Returns r \<Rightarrow> cr_CommandId r | _ \<Rightarrow> '''') rs = map (cc_CommandId \<circ> snd) (filter (\<lambda>(e, cmd). cc_Action cmd = ''boot_vm'') cmds)"
  using assms
proof (induction cmds arbitrary: c d rs)
  case (Cons x cmds)
  obtain e cmd where x: "x = (e, cmd)" by fastforce
  show ?case
  proof (cases "cc_Action cmd = ''boot_vm''")
    case True
    obtain y d1 where y: "boot_vm e cmd d = (y, d1)" by fastforce
    obtain ss where ss: "commandLoop h cmds (c, d1) = (ss, c', d')" "rs = y # ss"
      using Cons.prems(2) True y by (auto simp: x command_step_def split: prod.splits)
    then obtain r where r: "y = Returns r" using Cons.prems(3) by (auto simp: answered_def split: outcome.splits)
    from boot_vm_running [OF Cons.prems(1) y [unfolded r]] Cons.IH [OF _ ss(1)] Cons.prems(3) True r ss(2) show ?thesis by (simp add: x)
  next
    case False
    then obtain c1 where "commandLoop h cmds (c1, d) = (rs, c', d')"
      using Cons.prems(2) by (auto simp: x command_step_def split: prod.splits if_splits)
    from Cons.IH [OF Cons.prems(1) this Cons.prems(3)] False show ?thesis by (simp add: x)
  qed
qed simp

text \<open>After the first tick that the stream does not take, no heartbeat is sent any more.\<close>

theorem telemetry_stops:
  "\<not> tk_sent t \<Longrightarrow> telemetryLoop c first (ts @ t # us) = telemetryLoop c first (ts @ [t])"
proof -
  assume "\<not> tk_sent t"
  then have "telemetry_rest c (ts @ t # us) = telemetry_rest c (ts @ [t])" by (induction ts) simp_all
  then show ?thesis by (simp add: telemetryLoop_def)
qed

end
