(* ===== verification/Spec2Isabelle.thy ===== *)
theory Spec2Isabelle
  imports Port_Manager Guest_Safety Cli_Host Cloud_Loops
begin

text \<open>
  A verification library for \<open>herd\<close>, a daemon that runs every client session in a Firecracker
  microVM of its own.

  \<^bold>\<open>The program.\<close>  The session-affine pool (\<open>pool.go\<close>, \<open>registry.go\<close>, \<open>options.go\<close>, \<open>worker.go\<close>)
  pins at most one worker to a session and bounds the number of workers by a channel of tickets.
  Workers come from the Firecracker factory (\<open>firecracker_factory.go\<close>), whose \<open>Spawn\<close> leases a UID
  (\<open>internal/uid\<close>), prepares a root file system from a container image (\<open>internal/storage\<close>), builds
  a chroot, takes an IP address (\<open>internal/network/ipam.go\<close>), creates a tap device, starts the VM,
  and maps host ports (\<open>portmgr.go\<close>, \<open>nat.go\<close>); a stack of undo actions takes a failed spawn
  back.  The lifecycle manager (\<open>internal/lifecycle\<close>) keeps a lease per session and reaps expired
  ones through the pool.  The controller and its HTTP interface (\<open>internal/daemon\<close>) create and delete
  sessions; the data plane (\<open>proxy\<close>) forwards requests to the worker of an existing session.
  \<open>internal/config\<close> validates the configuration, \<open>cmd/herd/start.go\<close> puts the parts together.
  Around the daemon, \<open>internal/storage/bootstrap.go\<close> sets up a host, \<open>observer\<close> and
  \<open>internal/system\<close> read its load, \<open>internal/cloud\<close> takes commands from a control plane; inside a VM
  the guest agent (\<open>cmd/herd-guest-agent\<close>) boots from the arguments that the factory writes and runs
  the command that \<open>internal/vsock\<close> carries to it.  The command \<open>herd\<close> (\<open>cmd/herd\<close>) writes a
  configuration, starts the daemon on it, and talks to a started one over HTTP with JSON bodies.

  \<^bold>\<open>The theories.\<close>
  \<^item> \<open>Herd_Prelude\<close>: types, 64-bit wrap-around, lemmas on maps, and the locale \<open>allocator\<close>, the
    contract of everything that hands out a resource to one holder at a time.
  \<^item> \<open>Go_Strings\<close>, \<open>Go_Text\<close>, \<open>Go_Paths\<close>: what the code uses of \<open>strings\<close>, \<open>strconv\<close>, \<open>net\<close>,
    \<open>bufio\<close> and \<open>path/filepath\<close>.
  \<^item> \<open>Uid_Pool\<close>, \<open>Ipam\<close>, \<open>Port_Manager\<close>: the three allocators, each an interpretation of
    \<open>allocator\<close>; \<open>Net_Bindings\<close>: port bindings on the command line.
  \<^item> \<open>Registry\<close>, \<open>Pool\<close>, \<open>Pool_Safety\<close>: the pool as interleaved goroutines, each step one
    atomic section of the source, and its invariants over all reachable states; \<open>Pool_Calls\<close>: the
    same methods as whole calls, shown to be runs of the goroutine model, and the locale
    \<open>worker_reaper\<close> interpreted on them.
  \<^item> \<open>Host\<close>: actions that call the host (commands, files, netlink, containerd) and record the calls
    in a trace; the answers of the host are a parameter.  \<open>Host_Nat\<close>, \<open>Storage\<close>: \<open>nat.go\<close> and
    \<open>containerd.go\<close> as such actions.
  \<^item> \<open>Factory\<close>, \<open>Factory_Safety\<close>, \<open>Factory_Runs\<close>: \<open>Spawn\<close> and \<open>Close\<close>, the proof that the
    undo stack accounts for everything taken, and concrete runs.
  \<^item> \<open>Lifecycle\<close>: leases and the reaper's sweep.  \<open>Config\<close>: defaults and validation.
  \<^item> \<open>Daemon\<close>, \<open>Daemon_Safety\<close>, \<open>Daemon_Runs\<close>: controller, control-plane handlers, proxy and
    start-up on top of all the others; the invariant that ties sessions, leases, workers and the
    allocators' books together; and a concrete daemon.
  \<^item> \<open>Guest_Agent\<close>, \<open>Guest_Safety\<close>: the functions of the guest agent as actions on the kernel of the
    guest and its goroutines as a step relation; nothing of the tenant runs before the boot has
    finished, and a boot from the factory's arguments ends up with the leased address.
  \<^item> \<open>Host_Bootstrap\<close>: set-up and teardown of a host; a failed set-up undoes what it created.
    \<open>Observer\<close>: the parsers of \<open>/proc\<close>.  \<open>Vsock\<close>: the handshake with the VM's socket.
    \<open>Cloud\<close>, \<open>Cloud_Loops\<close>: credentials, heartbeats and commands of the control plane, and the two
    loops that send the ones and take the others.
  \<^item> \<open>Json\<close>: the text that \<open>encoding/json\<close> writes and reads, an interpretation of the locale
    \<open>wire_format\<close>.  \<open>Control_Api\<close>: the control-plane handlers from a method, a path and a body to a
    status and a body.  \<open>Data_Plane\<close>: the handler tree of the data plane, its socket and its log lines.
  \<^item> \<open>Cli_Init\<close>: \<open>herd init\<close>, its prompts and downloads.  \<open>Cli_Client\<close>: deploy, stop, logs and
    status, each composed with the daemon that answers it.  \<open>Cli_Host\<close>: start, the shutdown
    sequence, exec and teardown.
  \<^item> This theory: the properties of a running daemon.

  \<^bold>\<open>Loops and bounds.\<close>  The address search of \<open>ipam.go\<close> is a partial function that is proved to
  return.  The loop that dials the guest until a deadline is bounded by the number of attempts the
  clock allows, an argument of \<open>Spawn\<close>.  The retry loops of the guest agent and of the host set-up
  have the source's numbers of attempts.  The JSON reader takes as fuel twice the length of its
  input plus two, and \<open>parse_value_fuel\<close> shows that this reads whatever any fuel reads.  The cloud loops
  run over the ticks and the commands received until the stream ends.  All other loops are structural or
  have a termination proof.
  Counters are 64-bit words, durations wrap at 64 bits; Go's \<open>int\<close> is \<open>int\<close> elsewhere.

  \<^bold>\<open>Not modelled.\<close>  The protocol code that \<open>protoc\<close> generates has no logic of the program's own;
  \<open>cmd/test_boot\<close> is a manual experiment and the platform files only set process attributes.  The flag
  parser of \<open>cobra\<close>, the alignment of the status table, progress messages, the byte pipes of
  interactive shells and real time are out of scope: flags are arguments, and clocks are parameters.  The
  daemon of \<open>Daemon\<close> handles one operation at a time; the interleaving of calls inside the pool is the
  subject of \<open>Pool_Safety\<close>.  The goroutines of the guest agent interleave at the granularity of one
  function call of \<open>main\<close>.
\<close>

section \<open>Properties of the running daemon\<close>

text \<open>
  C1.  The books balance, end to end: whatever a daemon that was started from a validated
  configuration has served since, the UIDs on lease, the addresses in use and the owned host
  ports are exactly those of the workers pinned to live sessions; the pool tracks exactly these
  workers and leases exactly these sessions; and sessions and free tickets add up to the configured
  maximum of VMs.
\<close>

theorem daemon_books_balance:
  assumes "running absPath connect cfg bind d"
  shows "leased (fs_uids (d_factory d)) = {fw_leasedUID (worker_obj w) |i w. p_registry (d_pool d) i = Some w} \<and>
    ipam_used (fs_ipam (d_factory d)) = {fw_guestIP (worker_obj w) |i w. p_registry (d_pool d) i = Some w} \<and>
    (\<forall>q i. ports_map (d_factory d) q = Some i \<longleftrightarrow>
       (\<exists>w. p_registry (d_pool d) i = Some w \<and> q \<in> HostPort ` set (fw_portMappings (worker_obj w)))) \<and>
    set (p_workers (d_pool d)) = ran (p_registry (d_pool d)) \<and> dom (d_leases d) = dom (p_registry (d_pool d)) \<and>
    int (p_tickets (d_pool d) + card (dom (p_registry (d_pool d)))) = MaxGlobalVMs (cfg_Resources cfg)"
proof -
  note inv = running_inv [OF assms]
  have "1 \<le> MaxGlobalVMs (cfg_Resources cfg)" using assms by (simp add: running_def valid_config_def)
  moreover have "p_tickets (d_pool d) + card (dom (p_registry (d_pool d))) = nat (MaxGlobalVMs (cfg_Resources cfg))"
    using inv unfolding inv_defs by (elim conjE) simp
  ultimately have "int (p_tickets (d_pool d) + card (dom (p_registry (d_pool d)))) = MaxGlobalVMs (cfg_Resources cfg)"
    by simp
  then show ?thesis using inv unfolding inv_defs by (elim conjE, intro conjI) assumption+
qed

theorem daemon_books_balance_witness:
  "\<exists>d w. running Some (\<lambda>_. True) demo_config ''localhost:8080'' d \<and> p_registry (d_pool d) = [''vm1'' \<mapsto> w] \<and>
     leased (fs_uids (d_factory d)) = {fw_leasedUID (worker_obj w)} \<and> dom (d_leases d) = {''vm1''} \<and> p_tickets (d_pool d) = 1"
proof -
  obtain d w where d: "running Some (\<lambda>_. True) demo_config ''localhost:8080'' d" "p_registry (d_pool d) = [''vm1'' \<mapsto> w]"
    using demo_session by blast
  from daemon_books_balance [OF d(1)] d(2)
  have "leased (fs_uids (d_factory d)) = {fw_leasedUID (worker_obj w)}" "dom (d_leases d) = {''vm1''}"
    "int (p_tickets (d_pool d) + 1) = 2"
    by (auto simp: demo_config_def split: if_splits)
  then have "p_tickets (d_pool d) = 1" by simp
  with d \<open>leased _ = _\<close> \<open>dom _ = _\<close> show ?thesis by blast
qed

text \<open>
  C2.  Tenant isolation, end to end: in a running daemon the VMs of two different sessions never
  share a UID, an IP address or a host port, and no VM runs as root.
\<close>

theorem tenant_isolation:
  assumes "running absPath connect cfg bind d"
  shows "\<forall>i j w v. p_registry (d_pool d) i = Some w \<longrightarrow> p_registry (d_pool d) j = Some v \<longrightarrow>
    0 < fw_leasedUID (worker_obj w) \<and>
    (i \<noteq> j \<longrightarrow> fw_leasedUID (worker_obj w) \<noteq> fw_leasedUID (worker_obj v) \<and>
       fw_guestIP (worker_obj w) \<noteq> fw_guestIP (worker_obj v) \<and>
       HostPort ` set (fw_portMappings (worker_obj w)) \<inter> HostPort ` set (fw_portMappings (worker_obj v)) = {})"
proof (intro allI impI)
  fix i j w v assume w: "p_registry (d_pool d) i = Some w" and v: "p_registry (d_pool d) j = Some v"
  have fc: "fc_inv (p_registry (d_pool d)) (d_factory d)" using running_inv [OF assms] by (simp add: daemon_inv_def lease_inv_def core_inv_def)
  have "held (p_registry (d_pool d)) uid_of (leased (fs_uids (d_factory d)))" "held (p_registry (d_pool d)) ip_of (ipam_used (fs_ipam (d_factory d)))"
    and pb: "port_books (p_registry (d_pool d)) (ports_map (d_factory d))" and "0 < uid_of w"
    using fc w unfolding fc_inv_def by blast+
  moreover have "q \<in> host_ports w \<Longrightarrow> q \<in> host_ports v \<Longrightarrow> i = j" for q
    using pb w v unfolding port_books_def by (metis option.inject)
  ultimately show "0 < uid_of w \<and> (i \<noteq> j \<longrightarrow> uid_of w \<noteq> uid_of v \<and> ip_of w \<noteq> ip_of v \<and> host_ports w \<inter> host_ports v = {})"
    using w v unfolding held_def by blast
qed

theorem tenant_isolation_witness:
  "\<exists>d w. running Some (\<lambda>_. True) demo_config ''localhost:8080'' d \<and> p_registry (d_pool d) = [''vm1'' \<mapsto> w] \<and>
     0 < fw_leasedUID (worker_obj w)"
proof -
  obtain d w where d: "running Some (\<lambda>_. True) demo_config ''localhost:8080'' d" "p_registry (d_pool d) = [''vm1'' \<mapsto> w]"
    using demo_session by blast
  have "p_registry (d_pool d) ''vm1'' = Some w" using d(2) by simp
  with tenant_isolation [OF d(1)] have "0 < fw_leasedUID (worker_obj w)" by blast
  with d show ?thesis by blast
qed

text \<open>
  A validated configuration starts: once the containerd socket can be resolved and reached,
  building the pool neither fails nor panics, and the new daemon holds no resource and has every
  ticket.
\<close>

theorem validated_config_starts:
  assumes "Validate cfg = None" and "absPath (path_Join [StateDir (cfg_Storage cfg), ''containerd.sock'']) = Some sock"
    and "connect sock"
  shows "\<exists>p fs f. buildPool absPath connect cfg = Some (Inr (p, fs, f)) \<and> leased (fs_uids fs) = {} \<and>
    ipam_used (fs_ipam fs) = {} \<and> ports_map fs = Map.empty \<and> p_registry p = Map.empty \<and>
    int (p_tickets p) = MaxGlobalVMs (cfg_Resources cfg)"
proof -
  have v: "valid_config cfg" using assms(1) by (simp add: Validate_iff)
  obtain p fs f where b: "buildPool absPath connect cfg = Some (Inr (p, fs, f))" using buildPool_valid [of cfg absPath sock connect, OF v assms(2,3)] by blast
  have "p = pool_New [MaxWorkers (MaxGlobalVMs (cfg_Resources cfg))]" using b
    by (auto simp: buildPool_def WithMaxWorkers_def Let_def split: option.splits if_splits sum.splits)
  then have reg: "p_registry p = Map.empty" and t: "p_tickets p = nat (MaxGlobalVMs (cfg_Resources cfg))"
    by (simp_all add: pool_New_def NewLocalRegistry_def Let_def)
  have fc: "fc_inv (p_registry p) fs"
    using start_inv [OF v b, of "[]"] by (simp add: daemon_inv_def lease_inv_def core_inv_def start_daemon_def NewManager_def)
  then have "ports_map fs q = None" for q
    unfolding fc_inv_def port_books_def reg by (metis not_None_eq option.distinct(1))
  with b fc v t show ?thesis by (auto simp: reg fc_inv_def valid_config_def fun_eq_iff)
qed

theorem validated_config_starts_witness:
  "\<exists>p fs f. buildPool Some (\<lambda>_. True) demo_config = Some (Inr (p, fs, f)) \<and> int (p_tickets p) = 2"
  using validated_config_starts [of demo_config Some _ "\<lambda>_. True"] demo_config_valid
  by (auto simp: Validate_iff demo_config_def)

text \<open>
  C9.  A create request on a running daemon, on every branch: it never panics; it waits only when
  no ticket is left, the session is not there yet and the caller does not give up; an error leaves
  sessions and leases as they were; and success pins exactly this session, gives it a fresh lease
  and reports the address and ports of its worker.
\<close>

theorem create_session_spec:
  assumes "running absPath connect cfg bind d" and "CreateSession e req d = (out, d')"
  shows "case out of
      Panics \<Rightarrow> False
    | Blocks \<Rightarrow> p_tickets (d_pool d) = 0 \<and> \<not> e_ctxDone e \<and> p_registry (d_pool d) (session_id_of e req) = None
    | Returns (Inl err) \<Rightarrow> p_registry (d_pool d') = p_registry (d_pool d) \<and> d_leases d' = d_leases d
    | Returns (Inr r) \<Rightarrow> (\<exists>w. p_registry (d_pool d) (session_id_of e req) \<in> {None, Some w} \<and>
        p_registry (d_pool d') = (p_registry (d_pool d))(session_id_of e req \<mapsto> w) \<and>
        (\<forall>i. i \<noteq> session_id_of e req \<longrightarrow> d_leases d' i = d_leases d i) \<and>
        map_option ss_ActiveConns (d_leases d' (session_id_of e req)) = Some 0 \<and>
        rs_SessionID r = session_id_of e req \<and> rs_InternalIP r = fw_guestIP (worker_obj w) \<and>
        rs_PortMappings r = fw_portMappings (worker_obj w))"
  using CreateSession_post [OF running_inv [OF assms(1)] assms(2)] by (simp only: create_post_def)

theorem create_session_spec_witness:
  "\<exists>r d w. CreateSession demo_env demo_request demo_start = (Returns (Inr r), d) \<and>
     p_registry (d_pool d) ''vm1'' = Some w \<and> rs_InternalIP r = fw_guestIP (worker_obj w)"
proof -
  obtain r d where c: "CreateSession demo_env demo_request demo_start = (Returns (Inr r), d)" using demo_create by blast
  from create_session_spec [OF demo_running c] c show ?thesis by (auto simp: demo_tenant)
qed

text \<open>
  C10.  Create and delete round trip: deleting the session that a create request made takes the
  daemon back, to the sessions and leases it had and to the UIDs, addresses and host ports then
  in use.
\<close>

theorem create_delete_roundtrip:
  assumes "running absPath connect cfg bind d" and "CreateSession e req d = (Returns (Inr r), d1)"
    and "p_registry (d_pool d) (session_id_of e req) = None"
    and "DeleteSession e' (session_id_of e req) reason d1 = (err, d2)"
  shows "err = None \<and> p_registry (d_pool d2) = p_registry (d_pool d) \<and> d_leases d2 = d_leases d \<and>
    leased (fs_uids (d_factory d2)) = leased (fs_uids (d_factory d)) \<and>
    ipam_used (fs_ipam (d_factory d2)) = ipam_used (fs_ipam (d_factory d)) \<and>
    ports_map (d_factory d2) = ports_map (d_factory d)"
proof -
  let ?s = "session_id_of e req"
  note inv = running_inv [OF assms(1)]
  have inv1: "daemon_inv (nat (MaxGlobalVMs (cfg_Resources cfg))) d1" by (rule CreateSession_inv [OF inv assms(2)])
  have inv2: "daemon_inv (nat (MaxGlobalVMs (cfg_Resources cfg))) d2" using DeleteSession_inv [OF inv1, of e' ?s reason] assms(4) by simp
  have post: "create_post e req d (Returns (Inr r)) d1" by (rule CreateSession_post [OF inv assms(2)])
  have del: "err = None" "p_registry (d_pool d2) = (p_registry (d_pool d1))(?s := None)" "d_leases d2 = (d_leases d1)(?s := None)"
    using DeleteSession_effect [OF inv1 assms(4)] by simp_all
  have "?s \<notin> dom (d_leases d)" using inv assms(3) by (simp add: daemon_inv_def lease_inv_def domIff)
  then have "d_leases d ?s = None" by (simp add: domIff)
  then have l: "d_leases d2 = d_leases d" using post del(3) by (auto simp: create_post_def fun_eq_iff)
  have r: "p_registry (d_pool d2) = p_registry (d_pool d)"
    using post del(2) assms(3) by (auto simp: create_post_def fun_upd_idem)
  from fc_inv_books_eq [OF daemon_fc_inv [OF inv2, unfolded r] daemon_fc_inv [OF inv]] del(1) l r show ?thesis by simp
qed

theorem create_delete_roundtrip_witness:
  "\<exists>r d1 d2. CreateSession demo_env demo_request demo_start = (Returns (Inr r), d1) \<and>
     DeleteSession demo_env ''vm1'' ''api_requested'' d1 = (None, d2) \<and>
     leased (fs_uids (d_factory d2)) = leased (fs_uids (d_factory demo_start)) \<and> p_registry (d_pool d2) = Map.empty"
proof -
  obtain r d1 where c: "CreateSession demo_env demo_request demo_start = (Returns (Inr r), d1)" using demo_create by blast
  obtain err d2 where d2: "DeleteSession demo_env ''vm1'' ''api_requested'' d1 = (err, d2)" by fastforce
  have empty: "p_registry (d_pool demo_start) = Map.empty" by (simp add: demo_start_lm NewManager_def pool_New_def NewLocalRegistry_def Let_def)
  with create_delete_roundtrip [OF demo_running c, of demo_env "''api_requested''" err d2] c d2 show ?thesis
    by (auto simp: demo_tenant)
qed

text \<open>
  C11.  The reaper returns what expired sessions held: after a sweep of a running daemon exactly
  the unexpired sessions are pinned, and no UID, address or host port of an expired one is taken any
  more.
\<close>

theorem sweep_returns_resources:
  assumes "running absPath connect cfg bind d" and "set order = dom (d_leases d)"
  shows "dom (p_registry (d_pool (daemon_sweep e order d))) = dom (p_registry (d_pool d)) - expired (e_now e) (d_lm d) \<and>
    (\<forall>i w. i \<in> expired (e_now e) (d_lm d) \<longrightarrow> p_registry (d_pool d) i = Some w \<longrightarrow>
       fw_leasedUID (worker_obj w) \<notin> leased (fs_uids (d_factory (daemon_sweep e order d))) \<and>
       fw_guestIP (worker_obj w) \<notin> ipam_used (fs_ipam (d_factory (daemon_sweep e order d))) \<and>
       (\<forall>p \<in> HostPort ` set (fw_portMappings (worker_obj w)). ports_map (d_factory (daemon_sweep e order d)) p = None))"
proof -
  let ?d = "daemon_sweep e order d" and ?N = "nat (MaxGlobalVMs (cfg_Resources cfg))"
  note inv = running_inv [OF assms(1)]
  have inv': "daemon_inv ?N ?d" using inv by (simp add: daemon_inv_def daemon_sweep_def sweep_inv)
  have idle: "idle_pool (d_pool d)" using inv by (simp add: daemon_inv_def lease_inv_def core_inv_def)
  have dom: "dom (p_registry (d_pool ?d)) = dom (p_registry (d_pool d)) - expired (e_now e) (d_lm d)"
    using pool_reaper.sweep_reaper [OF idle assms(2), of "fc_close e" "e_now e"] by (simp add: daemon_sweep_def)
  moreover have sub: "p_registry (d_pool ?d) \<subseteq>\<^sub>m p_registry (d_pool d)"
    unfolding daemon_sweep_def using sweep_registry_sub [of ?N "d_lm d" e "e_now e" order] inv by (simp add: daemon_inv_def)
  ultimately show ?thesis
    using fc_inv_released [OF daemon_fc_inv [OF inv] daemon_fc_inv [OF inv'] sub] by (metis DiffD2)
qed

theorem sweep_returns_resources_witness:
  "\<exists>d. running Some (\<lambda>_. True) demo_config ''localhost:8080'' d \<and> dom (d_leases d) = {''vm1''} \<and>
     dom (p_registry (d_pool (daemon_sweep demo_env [''vm1''] d))) = {''vm1''} - expired 0 (d_lm d)"
proof -
  obtain d w where d: "running Some (\<lambda>_. True) demo_config ''localhost:8080'' d" "p_registry (d_pool d) = [''vm1'' \<mapsto> w]"
    using demo_session by blast
  have l: "dom (d_leases d) = {''vm1''}"
    using running_inv [OF d(1)] d(2) by (simp add: daemon_inv_def lease_inv_def)
  have "e_now demo_env = 0" by (simp add: demo_env_def)
  with sweep_returns_resources [OF d(1), of "[''vm1'']" demo_env] d l show ?thesis by auto
qed

text \<open>
  Shutdown releases everything: shutting down the pool of a running daemon closes every
  worker without error, and afterwards no UID is on lease, no address in use and no host port
  owned.
\<close>

theorem shutdown_releases_everything:
  assumes "running absPath connect cfg bind d" and "\<not> p_done (d_pool d)"
  shows "\<exists>p fs. pool_Shutdown (\<lambda>w f. (None :: unit option, fc_close e w f)) (d_pool d) (d_factory d) = (Returns None, p, fs) \<and>
    p_done p \<and> leased (fs_uids fs) = {} \<and> ipam_used (fs_ipam fs) = {} \<and> ports_map fs = Map.empty"
proof -
  note inv = running_inv [OF assms(1)]
  have wk: "distinct (map worker_ID (p_workers (d_pool d)))" "set (p_workers (d_pool d)) = ran (p_registry (d_pool d))"
    using inv by (simp_all add: daemon_inv_def lease_inv_def core_inv_def workers_ok_def)
  from close_all_inv [OF daemon_fc_inv [OF inv] wk, of e] obtain fs
    where c: "close_all (\<lambda>w f. (None :: unit option, fc_close e w f)) (p_workers (d_pool d)) (d_factory d) = (None, fs)"
      and fs: "fc_inv Map.empty fs" by blast
  have "ports_map fs q = None" for q
    using fs unfolding fc_inv_def port_books_def by (metis not_None_eq option.distinct(1))
  with c fs assms(2) show ?thesis by (auto simp: pool_Shutdown_def fc_inv_def fun_eq_iff)
qed

theorem shutdown_releases_everything_witness:
  "\<exists>p fs. pool_Shutdown (\<lambda>w f. (None :: unit option, fc_close demo_env w f)) (d_pool demo_start) (d_factory demo_start) =
      (Returns None, p, fs) \<and> p_done p \<and> leased (fs_uids fs) = {}"
  using shutdown_releases_everything [OF demo_running, of demo_env]
  by (auto simp: demo_start_lm NewManager_def pool_New_def Let_def)





end
